(* ===== verification/Prelude.thy ===== *)
theory Prelude
  imports Main
begin

text \<open>
  Shared ground of the development: how a Go call that may fail, panic and talk to the
  cluster is represented, the combinators the operations are written with, and the
  rules about the calls an operation makes.

  A Go function \<^verbatim>\<open>func f(...) (T, error)\<close> becomes a function into the computations
  \<open>('w, 'c, 'a) go\<close>: it takes the state of everything outside the process and returns the
  outcome with the new state. \<open>GoOk\<close> is the return with a nil error, \<open>GoErr\<close> the return
  with an error, \<open>GoPanic\<close> a run-time panic.
\<close>

section \<open>Collections of facts\<close>

named_theorems go_simps \<open>unfolding the combinators of go computations\<close>
named_theorems emits_intros \<open>which client calls an operation makes\<close>
named_theorems const_defs \<open>constants of the source\<close>

section \<open>Errors and outcomes\<close>

text \<open>
  \<open>ErrorString\<close> is a value of \<^verbatim>\<open>errors.New\<close> or \<^verbatim>\<open>fmt.Errorf\<close>, \<open>WrapError\<close> one of
  \<^verbatim>\<open>fmt.Errorf\<close> with the verb \<^verbatim>\<open>%w\<close> (formatted message and wrapped error), and
  \<open>StatusError\<close> an error that the cluster API answered with (reason and message).
\<close>

datatype goerr =
    ErrorString string
  | WrapError string goerr
  | StatusError string string

fun Error :: "goerr \<Rightarrow> string" where
  "Error (ErrorString m) = m"
| "Error (WrapError m e) = m"
| "Error (StatusError r m) = m"

datatype 'a gores = GoOk 'a | GoErr goerr | GoPanic string

fun is_panic :: "'a gores \<Rightarrow> bool" where
  "is_panic (GoPanic p) = True"
| "is_panic (GoOk x) = False"
| "is_panic (GoErr e) = False"

text \<open>Sequencing of functions that touch nothing outside the process.\<close>

definition resThen :: "'a gores \<Rightarrow> ('a \<Rightarrow> 'b gores) \<Rightarrow> 'b gores" where
  "resThen r f = (case r of GoOk x \<Rightarrow> f x | GoErr e \<Rightarrow> GoErr e | GoPanic p \<Rightarrow> GoPanic p)"

lemma resThen_simps [simp]:
  "resThen (GoOk x) f = f x"
  "resThen (GoErr e) f = GoErr e"
  "resThen (GoPanic p) f = GoPanic p"
  by (simp_all add: resThen_def)

lemma resThen_eq_GoOk: "resThen r f = GoOk y \<longleftrightarrow> (\<exists>x. r = GoOk x \<and> f x = GoOk y)"
  by (cases r) simp_all

lemma resThen_assoc: "resThen (resThen r f) g = resThen r (\<lambda>x. resThen (f x) g)"
  by (cases r) simp_all

section \<open>Computations\<close>

text \<open>
  \<open>world\<close> is everything outside the process (the cluster, the clock, other controllers);
  its type is a parameter throughout. \<open>calls\<close> is the list of client calls the process has
  made, oldest first. No operation reads it: it records what an operation asks of the
  cluster, so that properties can speak about it.
\<close>

record ('w, 'c) sys =
  world :: 'w
  calls :: "'c list"

type_synonym ('w, 'c, 'a) go = "('w, 'c) sys \<Rightarrow> 'a gores \<times> ('w, 'c) sys"

definition ret :: "'a \<Rightarrow> ('w, 'c, 'a) go" where
  "ret x = (\<lambda>s. (GoOk x, s))"

definition fail :: "goerr \<Rightarrow> ('w, 'c, 'a) go" where
  "fail e = (\<lambda>s. (GoErr e, s))"

definition panic :: "string \<Rightarrow> ('w, 'c, 'a) go" where
  "panic p = (\<lambda>s. (GoPanic p, s))"

definition lift_res :: "'a gores \<Rightarrow> ('w, 'c, 'a) go" where
  "lift_res r = (\<lambda>s. (r, s))"

text \<open>
  \<open>andThen m f\<close> is \<^verbatim>\<open>x, err := m(); if err != nil { return ..., err }; f(x)\<close>;
  \<open>onErr m h f\<close> is \<^verbatim>\<open>x, err := m(); if err != nil { h(err) } else { f(x) }\<close>.
  A panic unwinds through both.
\<close>

definition onErr ::
  "('w, 'c, 'a) go \<Rightarrow> (goerr \<Rightarrow> ('w, 'c, 'b) go) \<Rightarrow> ('a \<Rightarrow> ('w, 'c, 'b) go) \<Rightarrow> ('w, 'c, 'b) go" where
  "onErr m h f = (\<lambda>s. case m s of (r, s') \<Rightarrow>
     (case r of GoOk x \<Rightarrow> f x s' | GoErr e \<Rightarrow> h e s' | GoPanic p \<Rightarrow> (GoPanic p, s')))"

definition andThen ::
  "('w, 'c, 'a) go \<Rightarrow> ('a \<Rightarrow> ('w, 'c, 'b) go) \<Rightarrow> ('w, 'c, 'b) go" where
  "andThen m f = onErr m fail f"

text \<open>One call of a client: it is recorded, and the client answers and changes the world.\<close>

definition perform :: "'c \<Rightarrow> ('w \<Rightarrow> (goerr + 'a) \<times> 'w) \<Rightarrow> ('w, 'c, 'a) go" where
  "perform c answer = (\<lambda>s. case answer (world s) of (r, w') \<Rightarrow>
     (case r of Inl e \<Rightarrow> GoErr e | Inr x \<Rightarrow> GoOk x,
      s\<lparr>world := w', calls := calls s @ [c]\<rparr>))"

lemma ret_run [simp, go_simps]: "ret x s = (GoOk x, s)"
  by (simp add: ret_def)

lemma fail_run [simp, go_simps]: "fail e s = (GoErr e, s)"
  by (simp add: fail_def)

lemma panic_run [simp, go_simps]: "panic p s = (GoPanic p, s)"
  by (simp add: panic_def)

lemma lift_res_run [simp, go_simps]: "lift_res r s = (r, s)"
  by (simp add: lift_res_def)

lemma andThen_run [go_simps]:
  "andThen m f s = (case m s of (r, s') \<Rightarrow>
     (case r of GoOk x \<Rightarrow> f x s' | GoErr e \<Rightarrow> (GoErr e, s') | GoPanic p \<Rightarrow> (GoPanic p, s')))"
  by (simp add: andThen_def onErr_def split: prod.split gores.split)

lemma onErr_run [go_simps]:
  "onErr m h f s = (case m s of (r, s') \<Rightarrow>
     (case r of GoOk x \<Rightarrow> f x s' | GoErr e \<Rightarrow> h e s' | GoPanic p \<Rightarrow> (GoPanic p, s')))"
  by (simp add: onErr_def)

lemma andThen_GoOk [simp]: "m s = (GoOk x, s') \<Longrightarrow> andThen m f s = f x s'"
  by (simp add: andThen_run)

lemma andThen_GoErr [simp]: "m s = (GoErr e, s') \<Longrightarrow> andThen m f s = (GoErr e, s')"
  by (simp add: andThen_run)

lemma andThen_ret [simp]: "andThen (ret x) f = f x"
  by (rule ext) (simp add: andThen_run)

lemma andThen_assoc: "andThen (andThen m f) g = andThen m (\<lambda>x. andThen (f x) g)"
  by (rule ext) (simp add: andThen_run split: prod.split gores.split)

lemma andThen_eq_GoOk:
  "andThen m f s = (GoOk y, t) \<longleftrightarrow> (\<exists>x s'. m s = (GoOk x, s') \<and> f x s' = (GoOk y, t))"
  by (auto simp: andThen_run split: prod.splits gores.splits)

lemma onErr_eq_GoOk:
  "onErr m h f s = (GoOk y, t) \<longleftrightarrow>
     (\<exists>x s'. m s = (GoOk x, s') \<and> f x s' = (GoOk y, t)) \<or>
     (\<exists>e s'. m s = (GoErr e, s') \<and> h e s' = (GoOk y, t))"
  by (auto simp: onErr_run split: prod.splits gores.splits)

lemma perform_eq_GoOk:
  "perform c a s = (GoOk x, t) \<longleftrightarrow>
     (\<exists>w'. a (world s) = (Inr x, w') \<and> t = s\<lparr>world := w', calls := calls s @ [c]\<rparr>)"
  by (auto simp: perform_def split: prod.splits sum.splits)

lemma perform_eq_GoErr:
  "perform c a s = (GoErr e, t) \<longleftrightarrow>
     (\<exists>w'. a (world s) = (Inl e, w') \<and> t = s\<lparr>world := w', calls := calls s @ [c]\<rparr>)"
  by (auto simp: perform_def split: prod.splits sum.splits)

lemma perform_no_panic [simp]: "perform c a s \<noteq> (GoPanic p, t)"
  by (auto simp: perform_def split: prod.splits sum.splits)

lemmas go_ok_iffs = andThen_eq_GoOk onErr_eq_GoOk perform_eq_GoOk

section \<open>The calls an operation makes\<close>

text \<open>
  \<open>emits A m\<close>: from every state, running \<open>m\<close> appends calls to the record, all of them in \<open>A\<close>.
\<close>

definition emits :: "('c \<Rightarrow> bool) \<Rightarrow> (('w, 'c) sys \<Rightarrow> 'a \<times> ('w, 'c) sys) \<Rightarrow> bool" where
  "emits A m \<longleftrightarrow> (\<forall>s. \<exists>new. calls (snd (m s)) = calls s @ new \<and> list_all A new)"

lemma emitsI:
  assumes "\<And>s. \<exists>new. calls (snd (m s)) = calls s @ new \<and> list_all A new"
  shows "emits A m"
  using assms by (simp add: emits_def)

lemma emitsE:
  assumes "emits A m"
  obtains new where "calls (snd (m s)) = calls s @ new" and "list_all A new"
  using assms by (auto simp: emits_def)

lemma emits_mono: "emits A m \<Longrightarrow> (\<And>c. A c \<Longrightarrow> B c) \<Longrightarrow> emits B m"
  unfolding emits_def by (metis list.pred_mono_strong)

lemma emits_pure [emits_intros]:
  "emits A (ret x)" "emits A (fail e)" "emits A (panic p)" "emits A (lift_res r)"
  by (simp_all add: emits_def)

lemma emits_perform [emits_intros]: "A c \<Longrightarrow> emits A (perform c a)"
  by (auto simp: emits_def perform_def split: prod.splits)

lemma emits_onErr [emits_intros]:
  assumes m: "emits A m" and h: "\<And>e. emits A (h e)" and f: "\<And>x. emits A (f x)"
  shows "emits A (onErr m h f)"
proof (rule emitsI)
  fix s
  obtain r s' where ms: "m s = (r, s')" by (cases "m s")
  from m ms obtain n1 where n1: "calls s' = calls s @ n1" "list_all A n1"
    by (metis emitsE snd_conv)
  show "\<exists>new. calls (snd (onErr m h f s)) = calls s @ new \<and> list_all A new"
  proof (cases r)
    case (GoOk x)
    obtain n2 where "calls (snd (f x s')) = calls s' @ n2" "list_all A n2"
      using f [of x] by (rule emitsE)
    with n1 ms GoOk show ?thesis by (auto simp: onErr_run)
  next
    case (GoErr e)
    obtain n2 where "calls (snd (h e s')) = calls s' @ n2" "list_all A n2"
      using h [of e] by (rule emitsE)
    with n1 ms GoErr show ?thesis by (auto simp: onErr_run)
  next
    case (GoPanic p)
    with n1 ms show ?thesis by (auto simp: onErr_run)
  qed
qed

lemma emits_andThen [emits_intros]:
  "emits A m \<Longrightarrow> (\<And>x. emits A (f x)) \<Longrightarrow> emits A (andThen m f)"
  unfolding andThen_def by (intro emits_intros)

lemma emits_if [emits_intros]:
  "(b \<Longrightarrow> emits A m) \<Longrightarrow> (\<not> b \<Longrightarrow> emits A n) \<Longrightarrow> emits A (if b then m else n)"
  by simp

lemma emits_case_option [emits_intros]:
  "emits A m \<Longrightarrow> (\<And>x. emits A (f x)) \<Longrightarrow> emits A (case opt of None \<Rightarrow> m | Some x \<Rightarrow> f x)"
  by (cases opt) simp_all

lemma emits_case_prod [emits_intros]:
  "(\<And>x y. emits A (f x y)) \<Longrightarrow> emits A (case p of (x, y) \<Rightarrow> f x y)"
  by (cases p) simp

lemma emits_case_gores [emits_intros]:
  "(\<And>x. emits A (f x)) \<Longrightarrow> (\<And>e. emits A (g e)) \<Longrightarrow> (\<And>p. emits A (h p)) \<Longrightarrow>
   emits A (case r of GoOk x \<Rightarrow> f x | GoErr e \<Rightarrow> g e | GoPanic p \<Rightarrow> h p)"
  by (cases r) simp_all

text \<open>What an operation can return, for the calls that follow it.\<close>

definition returns :: "('a \<Rightarrow> bool) \<Rightarrow> ('w, 'c, 'a) go \<Rightarrow> bool" where
  "returns P m \<longleftrightarrow> (\<forall>s x t. m s = (GoOk x, t) \<longrightarrow> P x)"

lemma emits_andThen_returns:
  assumes "emits A m" and "returns P m" and "\<And>x. P x \<Longrightarrow> emits A (f x)"
  shows "emits A (andThen m f)"
proof -
  have "emits A (andThen m (\<lambda>x. if P x then f x else ret undefined))"
    using assms(1,3) by (intro emits_intros)
  moreover have "andThen m (\<lambda>x. if P x then f x else ret undefined) = andThen m f"
    using assms(2) by (auto simp: fun_eq_iff andThen_run returns_def split: prod.split gores.split)
  ultimately show ?thesis by simp
qed

lemma emits_kept: "emits A m \<Longrightarrow> c \<in> set (calls s) \<Longrightarrow> c \<in> set (calls (snd (m s)))"
  by (metis emitsE in_set_conv_decomp append_assoc append_Cons)

lemma andThen_keeps_calls:
  assumes "c \<in> set (calls (snd (m s)))" and "\<And>x. emits A (f x)"
  shows "c \<in> set (calls (snd (andThen m f s)))"
  using assms emits_kept [of A "f x" for x]
  by (auto simp: andThen_run split: prod.splits gores.splits)

text \<open>
  The contract of an operation that keeps to a set of calls. What a caller may conclude
  from it is proved once here; each operation with a footprint interprets it.
\<close>

locale footprint =
  fixes op :: "('w, 'c) sys \<Rightarrow> 'a \<times> ('w, 'c) sys"
    and allowed :: "'c \<Rightarrow> bool"
  assumes keeps: "emits allowed op"
begin

lemma calls_extend: "\<exists>new. calls (snd (op s)) = calls s @ new \<and> list_all allowed new"
  using keeps by (simp add: emits_def)

lemma calls_kept: "c \<in> set (calls s) \<Longrightarrow> c \<in> set (calls (snd (op s)))"
  using calls_extend [of s] by auto

lemma new_call_allowed:
  "c \<in> set (calls (snd (op s))) \<Longrightarrow> c \<in> set (calls s) \<or> allowed c"
  using calls_extend [of s] by (auto simp: list_all_iff)

lemma filter_disallowed_unchanged:
  "(\<And>c. allowed c \<Longrightarrow> \<not> Q c) \<Longrightarrow> filter Q (calls (snd (op s))) = filter Q (calls s)"
  using calls_extend [of s] by (fastforce simp: list_all_iff filter_empty_conv)

end

section \<open>Searching a list for the first match\<close>

text \<open>
  The loops \<^verbatim>\<open>for _, x := range xs { if p(x) { return &x } }; return nil\<close> of the program
  share one contract.
\<close>

locale first_match =
  fixes matches :: "'a \<Rightarrow> bool"
    and search :: "'a list \<Rightarrow> 'a option"
  assumes search_Nil: "search [] = None"
    and search_Cons: "search (x # xs) = (if matches x then Some x else search xs)"
begin

lemma search_None_iff: "search xs = None \<longleftrightarrow> (\<forall>x\<in>set xs. \<not> matches x)"
  by (induction xs) (simp_all add: search_Nil search_Cons)

lemma search_SomeD: "search xs = Some x \<Longrightarrow> x \<in> set xs \<and> matches x"
  by (induction xs) (auto simp: search_Nil search_Cons split: if_splits)

lemma search_first:
  "search xs = Some x \<Longrightarrow> \<exists>ys zs. xs = ys @ x # zs \<and> matches x \<and> (\<forall>y\<in>set ys. \<not> matches y)"
proof (induction xs)
  case Nil
  then show ?case by (simp add: search_Nil)
next
  case (Cons a xs)
  show ?case
  proof (cases "matches a")
    case True
    with Cons.prems show ?thesis by (force simp: search_Cons)
  next
    case False
    with Cons obtain ys zs where "xs = ys @ x # zs" "matches x" "\<forall>y\<in>set ys. \<not> matches y"
      by (auto simp: search_Cons)
    with False show ?thesis
      by (intro exI [of _ "a # ys"] exI [of _ zs]) simp
  qed
qed

lemma search_exists: "x \<in> set xs \<Longrightarrow> matches x \<Longrightarrow> \<exists>y. search xs = Some y"
  using search_None_iff [of xs] by (cases "search xs") auto

end

end
