(* ===== verification/Go_Strings.thy ===== *)
theory Go_Strings
  imports Prelude "HOL-Library.Sublist" "HOL-Library.Word" "HOL-Library.Log_Nat" Complex_Main
begin

text \<open>
  What the program uses of the Go language and its standard library: the string
  predicates of package \<^verbatim>\<open>strings\<close>, the verbs of \<^verbatim>\<open>fmt.Sprintf\<close> it writes, the one regular
  expression it compiles, slicing, the 64-bit integers and their conversion to
  \<^verbatim>\<open>float64\<close>. Strings are byte strings.
\<close>

section \<open>Package strings\<close>

definition HasPrefix :: "string \<Rightarrow> string \<Rightarrow> bool" where
  "HasPrefix s p \<longleftrightarrow> length p \<le> length s \<and> take (length p) s = p"

definition HasSuffix :: "string \<Rightarrow> string \<Rightarrow> bool" where
  "HasSuffix s p \<longleftrightarrow> length p \<le> length s \<and> drop (length s - length p) s = p"

text \<open>\<^verbatim>\<open>strings.ReplaceAll\<close> with patterns of one byte.\<close>

definition ReplaceAll :: "char \<Rightarrow> char \<Rightarrow> string \<Rightarrow> string" where
  "ReplaceAll old new s = map (\<lambda>c. if c = old then new else c) s"

text \<open>\<^verbatim>\<open>strings.Split\<close> with a separator of one byte; it always returns at least one piece.\<close>

fun Split :: "char \<Rightarrow> string \<Rightarrow> string list" where
  "Split sep [] = [[]]"
| "Split sep (c # cs) =
     (if c = sep then [] # Split sep cs
      else (case Split sep cs of [] \<Rightarrow> [[c]] | p # ps \<Rightarrow> (c # p) # ps))"

fun Join :: "char \<Rightarrow> string list \<Rightarrow> string" where
  "Join sep [] = []"
| "Join sep [p] = p"
| "Join sep (p # q # ps) = p @ sep # Join sep (q # ps)"

lemma HasPrefix_iff_prefix: "HasPrefix s p \<longleftrightarrow> prefix p s"
  unfolding HasPrefix_def by (metis append_take_drop_id append_eq_conv_conj le_cases prefixE
      prefixI prefix_length_le take_all)

lemma HasSuffix_iff_suffix: "HasSuffix s p \<longleftrightarrow> suffix p s"
proof
  assume "HasSuffix s p"
  then have "s = take (length s - length p) s @ p"
    unfolding HasSuffix_def by (metis append_take_drop_id)
  then show "suffix p s" by (metis suffixI)
next
  assume "suffix p s"
  then obtain zs where "s = zs @ p" by (auto simp: suffix_def)
  then show "HasSuffix s p" by (simp add: HasSuffix_def)
qed

lemma HasPrefix_append [simp]: "HasPrefix (p @ s) p"
  by (simp add: HasPrefix_iff_prefix)

lemma HasSuffix_append [simp]: "HasSuffix (s @ p) p"
  by (simp add: HasSuffix_iff_suffix suffix_def)

lemma HasSuffix_Nil [simp]: "HasSuffix s []"
  by (simp add: HasSuffix_def)

lemma length_ReplaceAll [simp]: "length (ReplaceAll a b s) = length s"
  by (simp add: ReplaceAll_def)

lemma ReplaceAll_no_old: "a \<noteq> b \<Longrightarrow> a \<notin> set (ReplaceAll a b s)"
  by (auto simp: ReplaceAll_def)

lemma ReplaceAll_inject:
  assumes "b \<notin> set s" and "b \<notin> set t"
  shows "ReplaceAll a b s = ReplaceAll a b t \<longleftrightarrow> s = t"
  using assms
proof (induction s arbitrary: t)
  case Nil
  then show ?case by (auto simp: ReplaceAll_def)
next
  case (Cons c s)
  then show ?case by (cases t) (auto simp: ReplaceAll_def split: if_splits)
qed

lemma Split_neq_Nil [simp]: "Split sep s \<noteq> []"
  by (induction s) (auto split: list.splits)

lemma Split_no_sep: "p \<in> set (Split sep s) \<Longrightarrow> sep \<notin> set p"
  by (induction s arbitrary: p) (auto split: if_splits list.splits)

lemma Join_Split [simp]: "Join sep (Split sep s) = s"
proof (induction s)
  case Nil
  then show ?case by simp
next
  case (Cons c s)
  obtain p ps where sp: "Split sep s = p # ps" by (cases "Split sep s") auto
  with Cons show ?case by (cases ps) auto
qed

lemma Split_append_sep:
  "sep \<notin> set p \<Longrightarrow> Split sep (p @ sep # s) = p # Split sep s"
  by (induction p) auto

lemma Split_single: "sep \<notin> set p \<Longrightarrow> Split sep p = [p]"
  by (induction p) auto

lemma Split_Join:
  "ps \<noteq> [] \<Longrightarrow> (\<And>p. p \<in> set ps \<Longrightarrow> sep \<notin> set p) \<Longrightarrow> Split sep (Join sep ps) = ps"
  by (induction sep ps rule: Join.induct) (auto simp: Split_append_sep Split_single)

section \<open>Package fmt\<close>

text \<open>
  \<^verbatim>\<open>fmt.Sprintf\<close> with the verbs \<^verbatim>\<open>%s\<close>, \<^verbatim>\<open>%v\<close> and (in \<^verbatim>\<open>fmt.Errorf\<close>) \<^verbatim>\<open>%w\<close>, the arguments already
  rendered. Go's answer to a missing argument is written out; a surplus argument does not
  occur in the program.
\<close>

fun Sprintf :: "string \<Rightarrow> string list \<Rightarrow> string" where
  "Sprintf [] as = []"
| "Sprintf [c] as = [c]"
| "Sprintf (c # d # fs) as =
     (if c = CHR ''%'' \<and> (d = CHR ''s'' \<or> d = CHR ''v'' \<or> d = CHR ''w'')
      then (case as of [] \<Rightarrow> ''%!'' @ d # ''(MISSING)'' @ Sprintf fs []
            | a # as' \<Rightarrow> a @ Sprintf fs as')
      else c # Sprintf (d # fs) as)"

text \<open>The verb \<^verbatim>\<open>%v\<close> on a slice of strings: the elements between brackets, separated by spaces.\<close>

definition show_strings :: "string list \<Rightarrow> string" where
  "show_strings xs = ''['' @ Join (CHR '' '') xs @ '']''"

definition Errorf :: "string \<Rightarrow> string list \<Rightarrow> goerr" where
  "Errorf f as = ErrorString (Sprintf f as)"

definition Errorfw :: "string \<Rightarrow> string list \<Rightarrow> goerr \<Rightarrow> goerr" where
  "Errorfw f as e = WrapError (Sprintf f (as @ [Error e])) e"

lemma Sprintf_no_verb: "CHR ''%'' \<notin> set f \<Longrightarrow> Sprintf f as = f"
  by (induction f as rule: Sprintf.induct) auto

lemma Sprintf_Cons_plain: "c \<noteq> CHR ''%'' \<Longrightarrow> Sprintf (c # f) as = c # Sprintf f as"
  by (cases f) auto

lemma Sprintf_append_plain: "CHR ''%'' \<notin> set p \<Longrightarrow> Sprintf (p @ f) as = p @ Sprintf f as"
  by (induction p) (auto simp: Sprintf_Cons_plain)

section \<open>Slicing\<close>

text \<open>\<^verbatim>\<open>s[:n]\<close> panics when \<^verbatim>\<open>n\<close> is greater than the length.\<close>

definition slice_to :: "string \<Rightarrow> nat \<Rightarrow> string gores" where
  "slice_to s n =
     (if length s < n then GoPanic ''slice bounds out of range'' else GoOk (take n s))"

section \<open>Package regexp: the pattern of a leading major.minor version\<close>

definition is_digit :: "char \<Rightarrow> bool" where
  "is_digit c \<longleftrightarrow> c \<in> set ''0123456789''"

text \<open>
  The language of \<^verbatim>\<open>\d+\.\d+\<close> (in Go's syntax \<^verbatim>\<open>\d\<close> is an ASCII digit).
\<close>

definition major_minor :: "string \<Rightarrow> bool" where
  "major_minor m \<longleftrightarrow>
     (\<exists>a b. m = a @ CHR ''.'' # b \<and> a \<noteq> [] \<and> b \<noteq> [] \<and> list_all is_digit a \<and> list_all is_digit b)"

text \<open>
  \<^verbatim>\<open>FindStringSubmatch\<close> of \<^verbatim>\<open>^(\d+\.\d+)\<close>: nil when the pattern does not match at the start of
  the text, otherwise the match and its only group. Both repetitions are greedy.
\<close>

definition FindMajorMinor :: "string \<Rightarrow> string list" where
  "FindMajorMinor s =
     (let a = takeWhile is_digit s; r = dropWhile is_digit s in
      if a = [] then []
      else (case r of [] \<Rightarrow> []
            | c # r' \<Rightarrow>
                if c = CHR ''.'' \<and> takeWhile is_digit r' \<noteq> []
                then (let m = a @ CHR ''.'' # takeWhile is_digit r' in [m, m])
                else []))"

section \<open>Package strconv\<close>

text \<open>\<^verbatim>\<open>strconv.FormatInt\<close> in base ten.\<close>

definition digit_char :: "nat \<Rightarrow> char" where
  "digit_char d = (''0123456789'' ! (d mod 10))"

fun format_nat :: "nat \<Rightarrow> string" where
  "format_nat n = (if n < 10 then [digit_char n] else format_nat (n div 10) @ [digit_char (n mod 10)])"

declare format_nat.simps [simp del]

definition FormatInt :: "int \<Rightarrow> string" where
  "FormatInt n = (if n < 0 then CHR ''-'' # format_nat (nat (- n)) else format_nat (nat n))"

lemma format_nat_nonempty [simp]: "format_nat n \<noteq> []"
  by (subst format_nat.simps) simp

lemma FormatInt_nonempty [simp]: "FormatInt n \<noteq> []"
  by (simp add: FormatInt_def)

text \<open>Reading a decimal number back.\<close>

fun decimal_value :: "nat \<Rightarrow> string \<Rightarrow> nat" where
  "decimal_value acc [] = acc"
| "decimal_value acc (c # cs) = decimal_value (10 * acc + (of_char c - 48)) cs"

lemma decimal_value_append: "decimal_value a (xs @ ys) = decimal_value (decimal_value a xs) ys"
  by (induction a xs rule: decimal_value.induct) simp_all

lemma digit_char_value: "d < 10 \<Longrightarrow> of_char (digit_char d) = 48 + d"
proof -
  assume "d < 10"
  then have "d \<in> {0, 1, 2, 3, 4, 5, 6, 7, 8, 9}" by auto
  then show ?thesis by (auto simp: digit_char_def)
qed

lemma format_nat_value: "decimal_value 0 (format_nat n) = n"
proof (induction n rule: format_nat.induct)
  case (1 n)
  then show ?case
    by (subst format_nat.simps) (auto simp: decimal_value_append digit_char_value)
qed

lemma FormatInt_inject_nonneg: "0 \<le> m \<Longrightarrow> 0 \<le> n \<Longrightarrow> FormatInt m = FormatInt n \<longleftrightarrow> m = n"
  by (metis FormatInt_def format_nat_value int_nat_eq not_less)

section \<open>Integers and float64\<close>

type_synonym goint = "64 word"

text \<open>
  The conversion of an integer to \<^verbatim>\<open>float64\<close>: 53 significant bits, rounded to nearest, ties
  to even. Every such value is an integer again.
\<close>

definition float64_round :: "int \<Rightarrow> int" where
  "float64_round n =
     (let m = \<bar>n\<bar>; b = bitlen m in
      if b \<le> 53 then n
      else (let e = nat (b - 53); q = m div 2 ^ e; r = m mod 2 ^ e; half = 2 ^ (e - 1);
                q' = (if half < r \<or> (half = r \<and> odd q) then q + 1 else q)
            in sgn n * (q' * 2 ^ e)))"

definition float64_of_int :: "goint \<Rightarrow> rat" where
  "float64_of_int w = of_int (float64_round (sint w))"

lemma round_half:
  fixes m P h :: int
  assumes "P = 2 * h" "0 < h"
  shows "\<bar>(if h < m mod P \<or> (h = m mod P \<and> odd (m div P)) then m div P + 1 else m div P) * P - m\<bar> \<le> h"
proof -
  have m: "m = m div P * P + m mod P" by simp
  have r: "0 \<le> m mod P" "m mod P < P" using assms by simp_all
  show ?thesis
  proof (cases "h < m mod P \<or> (h = m mod P \<and> odd (m div P))")
    case True
    have "(m div P + 1) * P - m = P - m mod P" using m by (simp add: algebra_simps)
    moreover have "h \<le> m mod P" using True by auto
    ultimately show ?thesis unfolding if_P [OF True] using r assms(1) by linarith
  next
    case False
    have "m div P * P - m = - (m mod P)" using m by (simp add: algebra_simps)
    moreover have "m mod P \<le> h" using False by auto
    ultimately show ?thesis unfolding if_not_P [OF False] using r by linarith
  qed
qed

lemma float64_round_error: "\<bar>float64_round n - n\<bar> * 2 ^ 53 \<le> \<bar>n\<bar>"
proof (cases "bitlen \<bar>n\<bar> \<le> 53")
  case True
  then show ?thesis by (simp add: float64_round_def)
next
  case False
  define b e where "b = bitlen \<bar>n\<bar>" and "e = nat (b - 53)"
  have e: "0 < e" "nat b = e + 53" using False by (simp_all add: b_def e_def)
  have "0 < \<bar>n\<bar>" using False by (cases "n = 0") (auto simp: bitlen_zero)
  then have low: "2 ^ nat (b - 1) \<le> \<bar>n\<bar>" using bitlen_bounds [of "\<bar>n\<bar>"] by (simp add: b_def)
  have P: "(2::int) ^ e = 2 * 2 ^ (e - 1)" using e by (simp add: power_eq_if)
  define q' where "q' = (if 2 ^ (e - 1) < \<bar>n\<bar> mod 2 ^ e \<or> (2 ^ (e - 1) = \<bar>n\<bar> mod 2 ^ e \<and> odd (\<bar>n\<bar> div 2 ^ e))
      then \<bar>n\<bar> div 2 ^ e + 1 else \<bar>n\<bar> div 2 ^ e)"
  have val: "float64_round n = sgn n * (q' * 2 ^ e)"
    using False by (simp add: float64_round_def Let_def q'_def b_def e_def)
  have "n = sgn n * \<bar>n\<bar>" by (simp add: sgn_mult_abs)
  then have "float64_round n - n = sgn n * (q' * 2 ^ e - \<bar>n\<bar>)" using val by (simp add: algebra_simps)
  then have "\<bar>float64_round n - n\<bar> \<le> \<bar>q' * 2 ^ e - \<bar>n\<bar>\<bar>" by (simp add: abs_mult abs_sgn_eq)
  also have "\<dots> \<le> 2 ^ (e - 1)" unfolding q'_def by (rule round_half [OF P]) simp
  finally have "\<bar>float64_round n - n\<bar> * 2 ^ 53 \<le> 2 ^ (e - 1) * 2 ^ 53" by simp
  also have "\<dots> = 2 ^ nat (b - 1)"
    using e by (simp only: power_add [symmetric]) (simp add: nat_diff_distrib')
  finally show ?thesis using low by simp
qed

lemma float64_round_exact: "\<bar>n\<bar> < 2 ^ 53 \<Longrightarrow> float64_round n = n"
  by (simp add: float64_round_def bitlen_le_iff_power)

lemma sint_goint_id: "- (2 ^ 63) \<le> n \<Longrightarrow> n < 2 ^ 63 \<Longrightarrow> sint (word_of_int n :: goint) = n"
  by (simp add: signed_of_int signed_take_bit_int_eq_self)

end
