(* ===== verification/Kube_Types.thy ===== *)
theory Kube_Types
  imports Go_Strings
begin

text \<open>
  The data of the Kubernetes packages that the program handles: object metadata, the
  conditions of \<^verbatim>\<open>lib-common\<close>, the objects of the Operator Lifecycle Manager, and the JSON
  trees of \<^verbatim>\<open>unstructured.Unstructured\<close>. Each record has the fields that the program reads
  or writes. The packages themselves are not part of the repository; what they do is a
  parameter (theory \<open>Kube\<close>).
\<close>

section \<open>Metadata\<close>

record OwnerReference =
  ref_APIVersion :: string
  ref_Kind :: string
  ref_Name :: string
  ref_UID :: string
  ref_Controller :: "bool option"
  ref_BlockOwnerDeletion :: "bool option"

record ObjectMeta =
  meta_Name :: string
  meta_Namespace :: string
  meta_UID :: string
  meta_Generation :: goint
  meta_DeletionTimestamp :: "int option"
  meta_Finalizers :: "string list"
  meta_OwnerReferences :: "OwnerReference list"

record TypeMeta =
  tm_APIVersion :: string
  tm_Kind :: string

record NamespacedName =
  nn_Namespace :: string
  nn_Name :: string

record GroupVersionKind =
  gvk_Group :: string
  gvk_Version :: string
  gvk_Kind :: string

definition empty_ObjectMeta :: ObjectMeta where
  "empty_ObjectMeta = \<lparr>meta_Name = [], meta_Namespace = [], meta_UID = [], meta_Generation = 0,
     meta_DeletionTimestamp = None, meta_Finalizers = [], meta_OwnerReferences = []\<rparr>"

section \<open>Conditions\<close>

datatype ConditionStatus = ConditionTrue | ConditionFalse | ConditionUnknown

record Condition =
  cond_Type :: string
  cond_Status :: ConditionStatus
  cond_Severity :: string
  cond_Reason :: string
  cond_Message :: string
  cond_LastTransitionTime :: "int option"

text \<open>A slice of conditions; \<open>None\<close> is the nil slice.\<close>

type_synonym Conditions = "Condition list option"

section \<open>Objects of the Operator Lifecycle Manager\<close>

datatype Approval = ApprovalManual | ApprovalAutomatic

record SubscriptionSpec =
  subs_Channel :: string
  subs_InstallPlanApproval :: Approval
  subs_CatalogSource :: string
  subs_CatalogSourceNamespace :: string
  subs_Package :: string
  subs_StartingCSV :: string

record Subscription =
  sub_Meta :: ObjectMeta
  sub_Spec :: "SubscriptionSpec option"
  sub_InstallPlanRef :: "string option"

definition empty_Subscription :: Subscription where
  "empty_Subscription = \<lparr>sub_Meta = empty_ObjectMeta, sub_Spec = None, sub_InstallPlanRef = None\<rparr>"

datatype CSVPhase = CSVPhaseSucceeded | CSVPhaseOther string

record ClusterServiceVersion =
  csv_Meta :: ObjectMeta
  csv_Phase :: CSVPhase

record InstallPlan =
  ip_Meta :: ObjectMeta
  ip_ClusterServiceVersionNames :: "string list"
  ip_Approved :: bool

datatype OperationResult =
    OperationResultNone
  | OperationResultCreated
  | OperationResultUpdated
  | OperationResultUpdatedStatus
  | OperationResultUpdatedStatusOnly

section \<open>Unstructured objects\<close>

datatype json =
    JNull
  | JBool bool
  | JInt goint
  | JFloat rat
  | JString string
  | JArray "json list"
  | JObject "string \<Rightarrow> json option"

type_synonym object = "string \<Rightarrow> json option"

text \<open>
  Reading along a path of field names: \<open>None\<close> when a field is missing or when the path
  runs into something that is not an object. This is how properties look at an object;
  the program itself uses the functions of the package.
\<close>

fun at_path :: "object \<Rightarrow> string list \<Rightarrow> json option" where
  "at_path obj [] = Some (JObject obj)"
| "at_path obj [f] = obj f"
| "at_path obj (f # g # fs) =
     (case obj f of Some (JObject m) \<Rightarrow> at_path m (g # fs) | _ \<Rightarrow> None)"

text \<open>No prefix of the path is blocked by a value that is not an object.\<close>

fun settable :: "object \<Rightarrow> string list \<Rightarrow> bool" where
  "settable obj [] = False"
| "settable obj [f] = True"
| "settable obj (f # g # fs) =
     (case obj f of None \<Rightarrow> True | Some (JObject m) \<Rightarrow> settable m (g # fs) | Some _ \<Rightarrow> False)"

lemma at_path_append:
  "p \<noteq> [] \<Longrightarrow> q \<noteq> [] \<Longrightarrow>
   at_path obj (p @ q) = (case at_path obj p of Some (JObject m) \<Rightarrow> at_path m q | _ \<Rightarrow> None)"
proof (induction obj p rule: at_path.induct)
  case (2 obj f)
  then show ?case by (cases q) (auto split: option.splits json.splits)
next
  case (3 obj f g fs)
  then show ?case by (auto split: option.splits json.splits)
qed simp

lemma at_path_Cons_eq:
  "fs \<noteq> [] \<Longrightarrow>
   at_path obj (f # fs) = (case obj f of Some (JObject m) \<Rightarrow> at_path m fs | _ \<Rightarrow> None)"
  by (cases fs) (auto split: option.splits json.splits)

lemma at_path_settable: "at_path obj p = Some v \<Longrightarrow> p \<noteq> [] \<Longrightarrow> settable obj p"
  by (induction obj p rule: at_path.induct) (auto split: option.splits json.splits)

end
