(* ===== verification/API_Types.thy ===== *)
theory API_Types
  imports Kube_Types
begin

text \<open>
  The API group \<^verbatim>\<open>lightspeed.openstack.org/v1beta1\<close> (package \<^verbatim>\<open>api/v1beta1\<close>): the custom
  resource \<^verbatim>\<open>OpenStackLightspeed\<close>, its condition types and messages, and the defaults that
  the operator fills in.
\<close>

section \<open>conditions.go\<close>

definition OpenStackLightspeedReadyCondition :: string where [const_defs]:
  "OpenStackLightspeedReadyCondition = ''OpenStackLightspeedReady''"

definition OpenShiftLightspeedOperatorReadyCondition :: string where [const_defs]:
  "OpenShiftLightspeedOperatorReadyCondition = ''OpenShiftLightspeedOperatorReady''"

definition OCPRAGCondition :: string where [const_defs]:
  "OCPRAGCondition = ''OCPRAGReady''"

definition OpenStackLightspeedReadyInitMessage :: string where
  "OpenStackLightspeedReadyInitMessage = ''OpenStack Lightspeed not started''"

definition OpenStackLightspeedReadyMessage :: string where
  "OpenStackLightspeedReadyMessage = ''OpenStack Lightspeed created''"

definition OpenStackLightspeedWaitingVectorDBMessage :: string where
  "OpenStackLightspeedWaitingVectorDBMessage =
     ''Waiting for OpenStackLightspeed vector DB pod to become ready''"

definition OpenShiftLightspeedOperatorWaiting :: string where
  "OpenShiftLightspeedOperatorWaiting =
     ''Waiting for the OpenShift Lightspeed operator to deploy.''"

definition OpenShiftLightspeedOperatorReady :: string where
  "OpenShiftLightspeedOperatorReady = ''OpenShift Lightspeed operator is ready.''"

definition OCPRAGDisabledMessage :: string where
  "OCPRAGDisabledMessage = ''OCP RAG is disabled''"

definition OCPRAGVersionResolvedMessage :: string where
  "OCPRAGVersionResolvedMessage = ''OCP RAG version resolved: %s''"

definition OCPRAGVersionFallbackMessage :: string where
  "OCPRAGVersionFallbackMessage =
     ''Cluster version %s is not explicitly supported. Using 'latest' OCP documentation. Supported versions: %v''"

definition OCPRAGDetectionFailedMessage :: string where
  "OCPRAGDetectionFailedMessage = ''Failed to detect OCP cluster version''"

definition OCPRAGOverrideInvalidMessage :: string where
  "OCPRAGOverrideInvalidMessage = ''Invalid OCP RAG version override''"

lemma condition_types_distinct [simp]:
  "OpenStackLightspeedReadyCondition \<noteq> OpenShiftLightspeedOperatorReadyCondition"
  "OpenShiftLightspeedOperatorReadyCondition \<noteq> OpenStackLightspeedReadyCondition"
  "OpenStackLightspeedReadyCondition \<noteq> OCPRAGCondition"
  "OCPRAGCondition \<noteq> OpenStackLightspeedReadyCondition"
  "OpenShiftLightspeedOperatorReadyCondition \<noteq> OCPRAGCondition"
  "OCPRAGCondition \<noteq> OpenShiftLightspeedOperatorReadyCondition"
  by (simp_all add: const_defs)

section \<open>groupversion_info.go\<close>

definition GroupVersion :: "string \<times> string" where
  "GroupVersion = (''lightspeed.openstack.org'', ''v1beta1'')"

section \<open>openstacklightspeed_types.go\<close>

definition OpenStackLightspeedContainerImage :: string where
  "OpenStackLightspeedContainerImage =
     ''quay.io/openstack-lightspeed/rag-content:os-docs-2025.2''"

definition MaxTokensForResponseDefault :: goint where
  "MaxTokensForResponseDefault = 2048"

record OpenStackLightspeedCore =
  LLMEndpoint :: string
  LLMEndpointType :: string
  ModelName :: string
  LLMCredentials :: string
  TLSCACertBundle :: string
  MaxTokensForResponse :: goint
  CatalogSourceNamespace :: string
  CatalogSourceName :: string
  LLMProjectID :: string
  LLMDeploymentName :: string
  LLMAPIVersion :: string
  FeedbackDisabled :: bool
  TranscriptsDisabled :: bool

text \<open>The specification embeds the core, as the Go struct does.\<close>

record OpenStackLightspeedSpec = OpenStackLightspeedCore +
  RAGImage :: string
  EnableOCPRAG :: bool
  OCPRAGVersionOverride :: string

record OpenStackLightspeedStatus =
  Conditions :: Conditions
  ObservedGeneration :: goint
  ActiveOCPRAGVersion :: string

record OpenStackLightspeed =
  osl_TypeMeta :: TypeMeta
  osl_Meta :: ObjectMeta
  Spec :: OpenStackLightspeedSpec
  Status :: OpenStackLightspeedStatus

text \<open>The list kind; its list metadata is never read.\<close>

record OpenStackLightspeedList =
  list_TypeMeta :: TypeMeta
  Items :: "OpenStackLightspeed list"

text \<open>The kinds that \<^verbatim>\<open>init\<close> registers with the scheme builder of the group.\<close>

definition registered_kinds :: "string list" where
  "registered_kinds = [''OpenStackLightspeed'', ''OpenStackLightspeedList'']"

abbreviation osl_UID :: "OpenStackLightspeed \<Rightarrow> string" where
  "osl_UID i \<equiv> meta_UID (osl_Meta i)"

abbreviation osl_Namespace :: "OpenStackLightspeed \<Rightarrow> string" where
  "osl_Namespace i \<equiv> meta_Namespace (osl_Meta i)"

text \<open>Assignments to fields two levels deep.\<close>

definition set_Conditions :: "Conditions \<Rightarrow> OpenStackLightspeed \<Rightarrow> OpenStackLightspeed" where
  "set_Conditions cs i = i\<lparr>Status := (Status i)\<lparr>Conditions := cs\<rparr>\<rparr>"

definition set_ActiveOCPRAGVersion :: "string \<Rightarrow> OpenStackLightspeed \<Rightarrow> OpenStackLightspeed" where
  "set_ActiveOCPRAGVersion v i = i\<lparr>Status := (Status i)\<lparr>ActiveOCPRAGVersion := v\<rparr>\<rparr>"

definition set_ObservedGeneration :: "goint \<Rightarrow> OpenStackLightspeed \<Rightarrow> OpenStackLightspeed" where
  "set_ObservedGeneration g i = i\<lparr>Status := (Status i)\<lparr>ObservedGeneration := g\<rparr>\<rparr>"

abbreviation osl_Conditions :: "OpenStackLightspeed \<Rightarrow> Conditions" where
  "osl_Conditions i \<equiv> Conditions (Status i)"

lemma status_setters [simp]:
  "osl_Conditions (set_Conditions cs i) = cs"
  "ActiveOCPRAGVersion (Status (set_Conditions cs i)) = ActiveOCPRAGVersion (Status i)"
  "ObservedGeneration (Status (set_Conditions cs i)) = ObservedGeneration (Status i)"
  "osl_Conditions (set_ActiveOCPRAGVersion v i) = osl_Conditions i"
  "ActiveOCPRAGVersion (Status (set_ActiveOCPRAGVersion v i)) = v"
  "ObservedGeneration (Status (set_ActiveOCPRAGVersion v i)) = ObservedGeneration (Status i)"
  "osl_Conditions (set_ObservedGeneration g i) = osl_Conditions i"
  "ActiveOCPRAGVersion (Status (set_ObservedGeneration g i)) = ActiveOCPRAGVersion (Status i)"
  "ObservedGeneration (Status (set_ObservedGeneration g i)) = g"
  by (simp_all add: set_Conditions_def set_ActiveOCPRAGVersion_def set_ObservedGeneration_def)

lemma status_setters_frame [simp]:
  "osl_Meta (set_Conditions cs i) = osl_Meta i"
  "Spec (set_Conditions cs i) = Spec i"
  "osl_TypeMeta (set_Conditions cs i) = osl_TypeMeta i"
  "osl_Meta (set_ActiveOCPRAGVersion v i) = osl_Meta i"
  "Spec (set_ActiveOCPRAGVersion v i) = Spec i"
  "osl_TypeMeta (set_ActiveOCPRAGVersion v i) = osl_TypeMeta i"
  "osl_Meta (set_ObservedGeneration g i) = osl_Meta i"
  "Spec (set_ObservedGeneration g i) = Spec i"
  "osl_TypeMeta (set_ObservedGeneration g i) = osl_TypeMeta i"
  by (simp_all add: set_Conditions_def set_ActiveOCPRAGVersion_def set_ObservedGeneration_def)

section \<open>Defaults\<close>

record OpenStackLightspeedDefaults =
  RAGImageURL :: string
  DefaultMaxTokensForResponse :: goint

text \<open>
  \<^verbatim>\<open>SetupDefaults\<close> computes the value of the package variable
  \<^verbatim>\<open>OpenStackLightspeedDefaultValues\<close>; \<^verbatim>\<open>GetEnvVar\<close> is the function of \<^verbatim>\<open>lib-common/util\<close>,
  which takes the name of a variable and the value to use when it is not set.
\<close>

definition SetupDefaults :: "(string \<Rightarrow> string \<Rightarrow> string) \<Rightarrow> OpenStackLightspeedDefaults" where
  "SetupDefaults GetEnvVar =
     \<lparr>RAGImageURL = GetEnvVar ''RELATED_IMAGE_OPENSTACK_LIGHTSPEED_IMAGE_URL_DEFAULT''
         OpenStackLightspeedContainerImage,
      DefaultMaxTokensForResponse = MaxTokensForResponseDefault\<rparr>"

text \<open>\<^verbatim>\<open>IsReady\<close>, with \<^verbatim>\<open>Conditions.IsTrue\<close> of the condition library.\<close>

definition IsReady :: "(Conditions \<Rightarrow> string \<Rightarrow> bool) \<Rightarrow> OpenStackLightspeed \<Rightarrow> bool" where
  "IsReady IsTrue i = IsTrue (osl_Conditions i) OpenStackLightspeedReadyCondition"

end
