(* ===== verification/Kube.thy ===== *)
theory Kube
  imports API_Types
begin

text \<open>
  The code outside the repository that the operator calls, as parameters: the
  controller-runtime client and \<^verbatim>\<open>controllerutil\<close>, \<^verbatim>\<open>apimachinery\<close>'s \<^verbatim>\<open>unstructured\<close> and
  \<^verbatim>\<open>errors\<close>, and the \<^verbatim>\<open>condition\<close> and \<^verbatim>\<open>helper\<close> packages of \<^verbatim>\<open>lib-common\<close>. Each is a record of
  functions that the definitions of the model take as an argument. What the program relies
  on of their documented behaviour is stated in the locales at the end; every theorem that
  needs one of them names it as a hypothesis.
\<close>

section \<open>Client calls\<close>

datatype api_call =
    GetInstance NamespacedName
  | ListInstances "string option"
  | GetConfig
  | NewClient
  | GetClusterVersion string
  | ListCSVs string
  | UpdateCSV ClusterServiceVersion
  | DeleteCSV ClusterServiceVersion
  | GetSubscription NamespacedName
  | CreateOrUpdateSubscription Subscription
  | ListInstallPlans string
  | UpdateInstallPlan InstallPlan
  | DeleteInstallPlan InstallPlan
  | ListOLSConfigs
  | CreateOrPatchOLSConfig object
  | UpdateOLSConfig object
  | DeleteOLSConfig object
  | RandInt int
  | PatchInstance OpenStackLightspeed

fun is_delete :: "api_call \<Rightarrow> bool" where
  "is_delete (DeleteCSV c) = True"
| "is_delete (DeleteInstallPlan p) = True"
| "is_delete (DeleteOLSConfig obj) = True"
| "is_delete c = False"

text \<open>Calls that change an object of the cluster.\<close>

fun is_write :: "api_call \<Rightarrow> bool" where
  "is_write (UpdateCSV c) = True"
| "is_write (DeleteCSV c) = True"
| "is_write (CreateOrUpdateSubscription s) = True"
| "is_write (UpdateInstallPlan p) = True"
| "is_write (DeleteInstallPlan p) = True"
| "is_write (CreateOrPatchOLSConfig obj) = True"
| "is_write (UpdateOLSConfig obj) = True"
| "is_write (DeleteOLSConfig obj) = True"
| "is_write (PatchInstance i) = True"
| "is_write c = False"

text \<open>Writes to objects other than the instance itself.\<close>

fun is_external_write :: "api_call \<Rightarrow> bool" where
  "is_external_write (PatchInstance i) = False"
| "is_external_write c = is_write c"

type_synonym ('w, 'a) op = "('w, api_call, 'a) go"

type_synonym 'w state = "('w, api_call) sys"

section \<open>The writes of an operation\<close>

definition writes :: "'w state \<Rightarrow> api_call list" where
  "writes s = filter is_write (calls s)"

text \<open>\<open>reads_only m\<close>: the operation changes no object.\<close>

abbreviation reads_only :: "('w, 'a) op \<Rightarrow> bool" where
  "reads_only m \<equiv> emits (\<lambda>c. \<not> is_write c) m"

text \<open>
  \<open>writing P m\<close>: whatever the outcome, the writes that \<open>m\<close> performs form, in order, a sequence
  that satisfies \<open>P\<close>.
\<close>

definition writing :: "(api_call list \<Rightarrow> bool) \<Rightarrow> ('w, 'a) op \<Rightarrow> bool" where
  "writing P m \<longleftrightarrow> (\<forall>s. \<exists>new. writes (snd (m s)) = writes s @ new \<and> P new)"

named_theorems writing_intros \<open>the sequences of writes of an operation\<close>

lemma writes_reads_only: "reads_only m \<Longrightarrow> writes (snd (m s)) = writes s"
  by (erule emitsE [of _ _ s]) (auto simp: writes_def list_all_iff filter_empty_conv)

lemma writes_perform: "writes (snd (perform c a s)) = writes s @ (if is_write c then [c] else [])"
  by (simp add: writes_def perform_def split: prod.split)

lemma writingE:
  assumes "writing P m"
  obtains new where "writes (snd (m s)) = writes s @ new" and "P new"
  using assms by (auto simp: writing_def)

lemma writing_mono: "writing P m \<Longrightarrow> (\<And>l. P l \<Longrightarrow> Q l) \<Longrightarrow> writing Q m"
  unfolding writing_def by blast

lemma writing_pure [writing_intros]:
  "P [] \<Longrightarrow> writing P (ret x)" "P [] \<Longrightarrow> writing P (fail e)"
  "P [] \<Longrightarrow> writing P (panic p)" "P [] \<Longrightarrow> writing P (lift_res r)"
  by (simp_all add: writing_def)

lemma writing_reads: "reads_only m \<Longrightarrow> P [] \<Longrightarrow> writing P m"
  by (simp add: writing_def writes_reads_only)

lemma writing_onErr:
  assumes m: "writing A m" and r: "returns Q m"
    and h: "\<And>e l. A l \<Longrightarrow> writing (\<lambda>l'. P (l @ l')) (h e)"
    and f: "\<And>x l. Q x \<Longrightarrow> A l \<Longrightarrow> writing (\<lambda>l'. P (l @ l')) (f x)"
    and p: "\<And>l. A l \<Longrightarrow> P l"
  shows "writing P (onErr m h f)"
  unfolding writing_def
proof
  fix s
  obtain res s' where ms: "m s = (res, s')" by (cases "m s")
  obtain l where l: "writes s' = writes s @ l" "A l" using m ms by (metis writingE snd_conv)
  show "\<exists>new. writes (snd (onErr m h f s)) = writes s @ new \<and> P new"
  proof (cases res)
    case (GoOk x)
    with ms r have "Q x" by (auto simp: returns_def)
    from f [OF this l(2)] obtain l' where "writes (snd (f x s')) = writes s' @ l'" "P (l @ l')"
      by (rule writingE)
    with GoOk ms l show ?thesis by (auto simp: onErr_run)
  next
    case (GoErr e)
    from h [OF l(2)] obtain l' where "writes (snd (h e s')) = writes s' @ l'" "P (l @ l')"
      by (rule writingE)
    with GoErr ms l show ?thesis by (auto simp: onErr_run)
  next
    case (GoPanic q)
    with ms l p show ?thesis by (auto simp: onErr_run)
  qed
qed

lemma returns_True: "returns (\<lambda>x. True) m"
  by (simp add: returns_def)

lemma writing_read_onErr:
  assumes "reads_only m" "returns Q m" "P []"
    and "\<And>e. writing P (h e)" "\<And>x. Q x \<Longrightarrow> writing P (f x)"
  shows "writing P (onErr m h f)"
  by (rule writing_onErr [where A = "\<lambda>l. l = []" and Q = Q])
    (use assms in \<open>auto intro: writing_reads\<close>)

lemma writing_read_andThen:
  assumes "reads_only m" "returns Q m" "P []" "\<And>x. Q x \<Longrightarrow> writing P (f x)"
  shows "writing P (andThen m f)"
  unfolding andThen_def using assms by (intro writing_read_onErr writing_pure)

lemma writing_write_onErr:
  assumes "is_write c" "\<And>e. writing (\<lambda>l. P (c # l)) (h e)" "\<And>x. writing (\<lambda>l. P (c # l)) (f x)" "P [c]"
  shows "writing P (onErr (perform c a) h f)"
  by (rule writing_onErr [where A = "\<lambda>l. l = [c]", OF _ returns_True])
    (use assms in \<open>auto simp: writing_def writes_perform\<close>)

lemma writing_write_andThen:
  assumes "is_write c" "\<And>x. writing (\<lambda>l. P (c # l)) (f x)" "P [c]"
  shows "writing P (andThen (perform c a) f)"
  unfolding andThen_def using assms by (intro writing_write_onErr writing_pure)

lemma writing_andThen:
  assumes "writing A m" "\<And>x l. A l \<Longrightarrow> writing (\<lambda>l'. P (l @ l')) (f x)" "\<And>l. A l \<Longrightarrow> P l"
  shows "writing P (andThen m f)"
  unfolding andThen_def using assms
  by (intro writing_onErr [OF assms(1) returns_True]) (auto intro: writing_pure)

section \<open>The client\<close>

text \<open>
  \<open>create_or_update_subscription\<close> and \<open>create_or_patch_olsconfig\<close> are \<^verbatim>\<open>CreateOrUpdate\<close> and
  \<^verbatim>\<open>CreateOrPatch\<close> of \<^verbatim>\<open>controllerutil\<close>: they take the object and the mutate function. The
  \<open>raw\<close> functions are those of the client made by \<^verbatim>\<open>GetRawClient\<close>. \<open>rand_Int\<close> is
  \<^verbatim>\<open>crypto/rand.Int\<close>, which reads the entropy of the machine.
\<close>

record 'w client =
  get_instance :: "NamespacedName \<Rightarrow> 'w \<Rightarrow> (goerr + OpenStackLightspeed) \<times> 'w"
  list_instances :: "string option \<Rightarrow> 'w \<Rightarrow> (goerr + OpenStackLightspeed list) \<times> 'w"
  get_config :: "'w \<Rightarrow> (goerr + unit) \<times> 'w"
  new_client :: "'w \<Rightarrow> (goerr + unit) \<times> 'w"
  raw_get_cluster_version :: "string \<Rightarrow> 'w \<Rightarrow> (goerr + object) \<times> 'w"
  raw_list_csvs :: "string \<Rightarrow> 'w \<Rightarrow> (goerr + ClusterServiceVersion list) \<times> 'w"
  update_csv :: "ClusterServiceVersion \<Rightarrow> 'w \<Rightarrow> (goerr + unit) \<times> 'w"
  delete_csv :: "ClusterServiceVersion \<Rightarrow> 'w \<Rightarrow> (goerr + unit) \<times> 'w"
  get_subscription :: "NamespacedName \<Rightarrow> 'w \<Rightarrow> (goerr + Subscription) \<times> 'w"
  create_or_update_subscription ::
    "Subscription \<Rightarrow> (Subscription \<Rightarrow> Subscription gores) \<Rightarrow> 'w \<Rightarrow>
       (goerr + OperationResult \<times> Subscription) \<times> 'w"
  list_install_plans :: "string \<Rightarrow> 'w \<Rightarrow> (goerr + InstallPlan list) \<times> 'w"
  update_install_plan :: "InstallPlan \<Rightarrow> 'w \<Rightarrow> (goerr + unit) \<times> 'w"
  delete_install_plan :: "InstallPlan \<Rightarrow> 'w \<Rightarrow> (goerr + unit) \<times> 'w"
  list_olsconfigs :: "'w \<Rightarrow> (goerr + object list) \<times> 'w"
  create_or_patch_olsconfig ::
    "object \<Rightarrow> (object \<Rightarrow> object gores) \<Rightarrow> 'w \<Rightarrow> (goerr + OperationResult \<times> object) \<times> 'w"
  update_olsconfig :: "object \<Rightarrow> 'w \<Rightarrow> (goerr + unit) \<times> 'w"
  delete_olsconfig :: "object \<Rightarrow> 'w \<Rightarrow> (goerr + unit) \<times> 'w"
  rand_Int :: "int \<Rightarrow> 'w \<Rightarrow> (goerr + int) \<times> 'w"
  patch_instance :: "OpenStackLightspeed \<Rightarrow> OpenStackLightspeed \<Rightarrow> 'w \<Rightarrow> (goerr + unit) \<times> 'w"

section \<open>Package unstructured\<close>

record uns_lib =
  SetGroupVersionKind :: "object \<Rightarrow> GroupVersionKind \<Rightarrow> object"
  SetName :: "object \<Rightarrow> string \<Rightarrow> object"
  GetLabels :: "object \<Rightarrow> (string \<Rightarrow> string option) option"
  SetLabels :: "object \<Rightarrow> (string \<Rightarrow> string option) \<Rightarrow> object"
  SetNestedField :: "object \<Rightarrow> json \<Rightarrow> string list \<Rightarrow> object gores"
  SetNestedSlice :: "object \<Rightarrow> json list \<Rightarrow> string list \<Rightarrow> object gores"
  NestedString :: "object \<Rightarrow> string list \<Rightarrow> (string \<times> bool) gores"
  GetFinalizers :: "object \<Rightarrow> string list"
  uns_AddFinalizer :: "object \<Rightarrow> string \<Rightarrow> bool \<times> object"
  uns_RemoveFinalizer :: "object \<Rightarrow> string \<Rightarrow> bool \<times> object"

section \<open>Package condition\<close>

text \<open>
  The constants and functions of \<^verbatim>\<open>lib-common/modules/common/condition\<close>. The constructors
  take the message format and its arguments; the methods take the conditions and return
  them changed.
\<close>

record condition_lib =
  ReadyCondition :: string
  ReadyMessage :: string
  ReadyInitMessage :: string
  DeploymentReadyErrorMessage :: string
  InitReason :: string
  ErrorReason :: string
  RequestedReason :: string
  SeverityError :: string
  SeverityWarning :: string
  SeverityInfo :: string
  TrueCondition :: "string \<Rightarrow> string \<Rightarrow> string list \<Rightarrow> Condition"
  FalseCondition :: "string \<Rightarrow> string \<Rightarrow> string \<Rightarrow> string \<Rightarrow> string list \<Rightarrow> Condition"
  UnknownCondition :: "string \<Rightarrow> string \<Rightarrow> string \<Rightarrow> string list \<Rightarrow> Condition"
  CreateList :: "Condition list \<Rightarrow> Conditions"
  Init :: "Conditions \<Rightarrow> Conditions \<Rightarrow> Conditions"
  SetCondition :: "Conditions \<Rightarrow> Condition \<Rightarrow> Conditions"
  MarkTrue :: "Conditions \<Rightarrow> string \<Rightarrow> string \<Rightarrow> Conditions"
  MarkUnknown :: "Conditions \<Rightarrow> string \<Rightarrow> string \<Rightarrow> string \<Rightarrow> Conditions"
  Mirror :: "Conditions \<Rightarrow> string \<Rightarrow> Condition"
  AllSubConditionIsTrue :: "Conditions \<Rightarrow> bool"
  IsTrue :: "Conditions \<Rightarrow> string \<Rightarrow> bool"
  RestoreLastTransitionTimes :: "Conditions \<Rightarrow> Conditions \<Rightarrow> Conditions"

section \<open>Everything together\<close>

text \<open>
  A helper of \<^verbatim>\<open>lib-common\<close> is represented by the object it was created for: its finalizer
  name and the patch it computes are functions of that object. \<open>Time_IsZero\<close> is the method of a
  deletion timestamp of \<^verbatim>\<open>metav1\<close>. \<open>os_env\<close> is the environment
  of the process, which the program reads and never writes.
\<close>

type_synonym Helper = OpenStackLightspeed

record 'w deps =
  cli :: "'w client"
  unsl :: uns_lib
  condl :: condition_lib
  IsNotFound :: "goerr \<Rightarrow> bool"
  IsConflict :: "goerr \<Rightarrow> bool"
  NewNotFound :: "string \<Rightarrow> string \<Rightarrow> string \<Rightarrow> goerr"
  NewHelper :: "OpenStackLightspeed \<Rightarrow> goerr + Helper"
  GetFinalizer :: "Helper \<Rightarrow> string"
  AddFinalizer :: "OpenStackLightspeed \<Rightarrow> string \<Rightarrow> bool \<times> OpenStackLightspeed"
  RemoveFinalizer :: "OpenStackLightspeed \<Rightarrow> string \<Rightarrow> bool \<times> OpenStackLightspeed"
  Time_IsZero :: "int option \<Rightarrow> bool"
  os_env :: "string \<Rightarrow> string option"

text \<open>\<^verbatim>\<open>os.Getenv\<close> returns the empty string for a variable that is not set.\<close>

definition Getenv :: "'w deps \<Rightarrow> string \<Rightarrow> string" where
  "Getenv D k = (case os_env D k of None \<Rightarrow> [] | Some v \<Rightarrow> v)"

section \<open>Contracts\<close>

text \<open>
  Nested fields. \<^verbatim>\<open>SetNestedField\<close> sets the field at a path, creating the objects on the way,
  and fails when one of the nesting levels is not an object; \<^verbatim>\<open>SetNestedSlice\<close> does the same
  for a slice; \<^verbatim>\<open>NestedString\<close> reads a string at a path.
\<close>

locale nested_fields =
  fixes U :: uns_lib
  assumes set_ok: "settable obj p \<Longrightarrow> \<exists>obj'. SetNestedField U obj v p = GoOk obj'"
    and set_get: "SetNestedField U obj v p = GoOk obj' \<Longrightarrow> at_path obj' p = Some v"
    and set_other:
      "SetNestedField U obj v p = GoOk obj' \<Longrightarrow> \<not> prefix p q \<Longrightarrow> \<not> prefix q p \<Longrightarrow>
       at_path obj' q = at_path obj q"
    and set_settable:
      "SetNestedField U obj v p = GoOk obj' \<Longrightarrow> \<not> prefix p q \<Longrightarrow> settable obj q \<Longrightarrow>
       settable obj' q"
    and set_slice: "SetNestedSlice U obj xs p = SetNestedField U obj (JArray xs) p"
    and string_found:
      "NestedString U obj p = GoOk (str, True) \<longleftrightarrow> at_path obj p = Some (JString str)"

text \<open>Labels and finalizers live at \<^verbatim>\<open>metadata.labels\<close> and \<^verbatim>\<open>metadata.finalizers\<close>.\<close>

definition label_path :: "string list" where
  "label_path = [''metadata'', ''labels'']"

definition finalizer_path :: "string list" where
  "finalizer_path = [''metadata'', ''finalizers'']"

locale object_metadata = nested_fields U
  for U :: uns_lib +
  assumes labels_none: "at_path obj label_path = None \<Longrightarrow> GetLabels U obj = None"
    and labels_some:
      "at_path obj label_path = Some (JObject (\<lambda>k. map_option JString (ls k))) \<Longrightarrow>
       GetLabels U obj = Some ls"
    and labels_set:
      "settable obj label_path \<Longrightarrow>
       at_path (SetLabels U obj ls) label_path = Some (JObject (\<lambda>k. map_option JString (ls k)))"
    and add_finalizer_result:
      "fst (uns_AddFinalizer U obj f) \<longleftrightarrow> f \<notin> set (GetFinalizers U obj)"
    and add_finalizer_set:
      "settable obj finalizer_path \<Longrightarrow>
       set (GetFinalizers U (snd (uns_AddFinalizer U obj f))) = insert f (set (GetFinalizers U obj))"
    and add_finalizer_other:
      "\<not> prefix finalizer_path q \<Longrightarrow> \<not> prefix q finalizer_path \<Longrightarrow>
       at_path (snd (uns_AddFinalizer U obj f)) q = at_path obj q"
    and remove_finalizer_result:
      "fst (uns_RemoveFinalizer U obj f) \<longleftrightarrow> f \<in> set (GetFinalizers U obj)"
    and remove_finalizer_other:
      "\<not> prefix finalizer_path q \<Longrightarrow> \<not> prefix q finalizer_path \<Longrightarrow>
       at_path (snd (uns_RemoveFinalizer U obj f)) q = at_path obj q"

text \<open>
  Conditions. Setting a condition decides what \<^verbatim>\<open>IsTrue\<close> says of its type and of no other;
  \<^verbatim>\<open>Init\<close> gives the listed conditions their initial status; restoring transition times
  changes no status; the top-level condition does not count among its sub-conditions.
\<close>

locale conditions_contract =
  fixes C :: condition_lib
  assumes true_type: "cond_Type (TrueCondition C t m as) = t"
    and true_status: "cond_Status (TrueCondition C t m as) = ConditionTrue"
    and false_type: "cond_Type (FalseCondition C t r v m as) = t"
    and false_status: "cond_Status (FalseCondition C t r v m as) = ConditionFalse"
    and unknown_type: "cond_Type (UnknownCondition C t r m as) = t"
    and unknown_status: "cond_Status (UnknownCondition C t r m as) = ConditionUnknown"
    and mirror_type: "cond_Type (Mirror C cs t) = t"
    and is_true_set:
      "IsTrue C (SetCondition C cs c) t \<longleftrightarrow>
         (if t = cond_Type c then cond_Status c = ConditionTrue else IsTrue C cs t)"
    and is_true_mark_true: "IsTrue C (MarkTrue C cs t m) t' \<longleftrightarrow> t' = t \<or> IsTrue C cs t'"
    and is_true_mark_unknown:
      "IsTrue C (MarkUnknown C cs t r m) t' \<longleftrightarrow> t' \<noteq> t \<and> IsTrue C cs t'"
    and is_true_init:
      "c \<in> set l \<Longrightarrow> distinct (map cond_Type l) \<Longrightarrow> cond_Type c \<noteq> ReadyCondition C \<Longrightarrow>
       IsTrue C (Init C cs (CreateList C l)) (cond_Type c) \<longleftrightarrow> cond_Status c = ConditionTrue"
    and init_not_nil: "Init C cs cl \<noteq> None"
    and set_not_nil: "SetCondition C cs c \<noteq> None"
    and mark_true_not_nil: "MarkTrue C cs t m \<noteq> None"
    and is_true_restore:
      "IsTrue C (RestoreLastTransitionTimes C cs saved) t \<longleftrightarrow> IsTrue C cs t"
    and ready_is_top:
      "ReadyCondition C \<noteq> OpenStackLightspeedReadyCondition"
      "ReadyCondition C \<noteq> OpenShiftLightspeedOperatorReadyCondition"
      "ReadyCondition C \<noteq> OCPRAGCondition"

text \<open>Finalizers of typed objects.\<close>

locale finalizers_contract =
  fixes D :: "'w deps"
  assumes add_result: "fst (AddFinalizer D i f) \<longleftrightarrow> f \<notin> set (meta_Finalizers (osl_Meta i))"
    and add_object:
      "snd (AddFinalizer D i f) =
         i\<lparr>osl_Meta := (osl_Meta i)\<lparr>meta_Finalizers :=
           (if f \<in> set (meta_Finalizers (osl_Meta i)) then meta_Finalizers (osl_Meta i)
            else meta_Finalizers (osl_Meta i) @ [f])\<rparr>\<rparr>"
    and remove_object:
      "snd (RemoveFinalizer D i f) =
         i\<lparr>osl_Meta := (osl_Meta i)\<lparr>meta_Finalizers :=
           filter (\<lambda>x. x \<noteq> f) (meta_Finalizers (osl_Meta i))\<rparr>\<rparr>"

text \<open>
  The API errors and \<^verbatim>\<open>CreateOrPatch\<close>: an error made by \<^verbatim>\<open>NewNotFound\<close> is
  recognised by \<^verbatim>\<open>IsNotFound\<close>, and a mutate function that failed makes the call fail.
\<close>

locale client_contract =
  fixes D :: "'w deps"
  assumes not_found: "IsNotFound D (NewNotFound D grp rsc nm)"
    and create_or_patch_mutates:
      "create_or_patch_olsconfig (cli D) obj h w = (Inr (res, obj'), w') \<Longrightarrow>
         \<exists>pre post. h pre = GoOk post"

end
