(* ===== verification/Client_Helpers.thy ===== *)
theory Client_Helpers
  imports Kube
begin

text \<open>
  The small helpers of \<^verbatim>\<open>internal/controller/funcs.go\<close> that the other files call: the client
  that is not restricted to the watched namespaces, and ownership by owner references.
\<close>

section \<open>GetRawClient\<close>

definition GetRawClient :: "'w deps \<Rightarrow> ('w, unit) op" where
  "GetRawClient D =
     andThen (perform GetConfig (get_config (cli D))) (\<lambda>cfg.
     andThen (perform NewClient (new_client (cli D))) (\<lambda>rawClient.
     ret rawClient))"

fun is_raw_client_call :: "api_call \<Rightarrow> bool" where
  "is_raw_client_call GetConfig = True"
| "is_raw_client_call NewClient = True"
| "is_raw_client_call c = False"

lemma emits_GetRawClient [emits_intros]:
  assumes "A GetConfig" and "A NewClient"
  shows "emits A (GetRawClient D)"
  unfolding GetRawClient_def using assms by (intro emits_intros)

interpretation raw_client: footprint "GetRawClient D" is_raw_client_call for D :: "'w deps"
  by unfold_locales (simp add: emits_GetRawClient)

section \<open>IsOwnedBy\<close>

text \<open>The loop over the owner references, with its early return.\<close>

fun IsOwnedBy_loop :: "OwnerReference list \<Rightarrow> string \<Rightarrow> bool" where
  "IsOwnedBy_loop [] uid = False"
| "IsOwnedBy_loop (ref # refs) uid = (if ref_UID ref = uid then True else IsOwnedBy_loop refs uid)"

definition IsOwnedBy :: "ObjectMeta \<Rightarrow> ObjectMeta \<Rightarrow> bool" where
  "IsOwnedBy object owner = IsOwnedBy_loop (meta_OwnerReferences object) (meta_UID owner)"

lemma IsOwnedBy_loop_iff: "IsOwnedBy_loop refs uid \<longleftrightarrow> uid \<in> ref_UID ` set refs"
  by (induction refs) auto

lemma IsOwnedBy_iff:
  "IsOwnedBy object owner \<longleftrightarrow> meta_UID owner \<in> ref_UID ` set (meta_OwnerReferences object)"
  by (simp add: IsOwnedBy_def IsOwnedBy_loop_iff)

lemma not_owned_empty [simp]: "\<not> IsOwnedBy empty_ObjectMeta owner"
  by (simp add: IsOwnedBy_iff empty_ObjectMeta_def)

end
