(* ===== verification/OCP_Version.thy ===== *)
theory OCP_Version
  imports Client_Helpers
begin

text \<open>
  \<^verbatim>\<open>internal/controller/ocp_version.go\<close>: detection of the version of the OpenShift cluster,
  its reduction to major.minor, the choice of the documentation version, and the names of
  the index and of the vector database for a version.
\<close>

section \<open>Definitions\<close>

definition OpenStackLightspeedOCPVectorDBPath :: string where
  "OpenStackLightspeedOCPVectorDBPath = ''/rag/ocp_vector_db/ocp''"

definition OpenStackLightspeedOCPIndexPrefix :: string where
  "OpenStackLightspeedOCPIndexPrefix = ''ocp-product-docs''"

definition OCPVersion416 :: string where [const_defs]:
  "OCPVersion416 = ''4.16''"

definition OCPVersion418 :: string where [const_defs]:
  "OCPVersion418 = ''4.18''"

definition OCPVersionLatest :: string where [const_defs]:
  "OCPVersionLatest = ''latest''"

definition SupportedOCPVersions :: "string list" where
  "SupportedOCPVersions = [OCPVersion416, OCPVersion418, OCPVersionLatest]"

definition ParseMajorMinorVersion :: "string \<Rightarrow> string gores" where
  "ParseMajorMinorVersion fullVersion =
     (let matches = FindMajorMinor fullVersion in
      if length matches < 2 then GoErr (Errorf ''invalid version format: %s'' [fullVersion])
      else GoOk (matches ! 1))"

definition DetectOCPVersion :: "'w deps \<Rightarrow> ('w, string) op" where
  "DetectOCPVersion D =
     onErr (GetRawClient D) (\<lambda>err. fail (Errorfw ''failed to get raw client: %w'' [] err)) (\<lambda>_.
     onErr (perform (GetClusterVersion ''version'') (raw_get_cluster_version (cli D) ''version''))
       (\<lambda>err. fail (Errorfw ''failed to get ClusterVersion: %w'' [] err)) (\<lambda>clusterVersion.
     onErr (lift_res (NestedString (unsl D) clusterVersion [''status'', ''desired'', ''version'']))
       (\<lambda>err. fail (Errorfw ''failed to extract version from ClusterVersion: %w'' [] err))
       (\<lambda>(version, found).
     if \<not> found then fail (Errorf ''version field not found in ClusterVersion status.desired.version'' [])
     else
       onErr (lift_res (ParseMajorMinorVersion version))
         (\<lambda>err. fail (Errorfw ''failed to parse version %s: %w'' [version] err)) (\<lambda>majorMinor.
       ret majorMinor))))"

definition GetOCPIndexName :: "string \<Rightarrow> string" where
  "GetOCPIndexName version =
     (let versionFormatted = ReplaceAll (CHR ''.'') (CHR ''_'') version in
      Sprintf ''%s-%s'' [OpenStackLightspeedOCPIndexPrefix, versionFormatted])"

definition GetOCPVectorDBPath :: "string \<Rightarrow> string" where
  "GetOCPVectorDBPath version = Sprintf ''%s_%s'' [OpenStackLightspeedOCPVectorDBPath, version]"

definition IsSupportedOCPVersion :: "string \<Rightarrow> bool" where
  "IsSupportedOCPVersion version \<longleftrightarrow> version \<in> set SupportedOCPVersions"

definition ResolveOCPVersion :: "string \<Rightarrow> string \<Rightarrow> bool \<Rightarrow> (string \<times> bool) gores" where
  "ResolveOCPVersion detectedVersion overrideVersion enableOCPRAG =
     (if \<not> enableOCPRAG then GoOk ([], False)
      else if overrideVersion \<noteq> [] then GoOk (overrideVersion, False)
      else if detectedVersion = [] then GoErr (Errorf ''no OCP version detected'' [])
      else if IsSupportedOCPVersion detectedVersion then GoOk (detectedVersion, False)
      else GoOk (OCPVersionLatest, True))"

section \<open>Parsing\<close>

lemma list_all_takeWhile: "list_all P (takeWhile P xs)"
  by (induction xs) simp_all

lemma takeWhile_all_append:
  "list_all P xs \<Longrightarrow> takeWhile P (xs @ ys) = xs @ takeWhile P ys"
  by (induction xs) simp_all

lemma dropWhile_all_append: "list_all P xs \<Longrightarrow> dropWhile P (xs @ ys) = dropWhile P ys"
  by (induction xs) simp_all

lemma dot_not_digit [simp]: "\<not> is_digit (CHR ''.'')"
  by (simp add: is_digit_def)

lemma major_minor_nonempty: "major_minor m \<Longrightarrow> m \<noteq> []"
  by (auto simp: major_minor_def)

lemma major_minorI:
  "a \<noteq> [] \<Longrightarrow> b \<noteq> [] \<Longrightarrow> list_all is_digit a \<Longrightarrow> list_all is_digit b \<Longrightarrow>
   major_minor (a @ CHR ''.'' # b)"
  by (auto simp: major_minor_def)

lemma FindMajorMinor_match:
  assumes "major_minor m" and "takeWhile is_digit rest = []"
  shows "FindMajorMinor (m @ rest) = [m, m]"
proof -
  from assms(1) obtain a b where m: "m = a @ CHR ''.'' # b" "a \<noteq> []" "b \<noteq> []"
    and d: "list_all is_digit a" "list_all is_digit b"
    by (auto simp: major_minor_def)
  with assms(2) show ?thesis
    by (simp add: FindMajorMinor_def takeWhile_all_append dropWhile_all_append Let_def)
qed

lemma FindMajorMinor_cases:
  obtains (match) m rest where "s = m @ rest" "major_minor m" "takeWhile is_digit rest = []"
      "FindMajorMinor s = [m, m]"
  | (none) "FindMajorMinor s = []"
proof (cases "FindMajorMinor s = []")
  case True
  then show ?thesis by (rule none)
next
  case False
  let ?a = "takeWhile is_digit s"
  from False obtain r' where a: "?a \<noteq> []" and r: "dropWhile is_digit s = CHR ''.'' # r'"
    and b: "takeWhile is_digit r' \<noteq> []"
    by (auto simp: FindMajorMinor_def Let_def split: if_splits list.splits)
  let ?m = "?a @ CHR ''.'' # takeWhile is_digit r'"
  have s: "s = ?m @ dropWhile is_digit r'"
    by (metis append.assoc append_Cons r takeWhile_dropWhile_id)
  have mm: "major_minor ?m"
    by (rule major_minorI [OF a b list_all_takeWhile list_all_takeWhile])
  have end_: "takeWhile is_digit (dropWhile is_digit r') = []"
    by (metis hd_dropWhile takeWhile_eq_Nil_iff)
  show ?thesis
    by (rule match [OF s mm end_]) (metis FindMajorMinor_match s mm end_)
qed

lemma ParseMajorMinorVersion_append:
  "major_minor m \<Longrightarrow> takeWhile is_digit rest = [] \<Longrightarrow> ParseMajorMinorVersion (m @ rest) = GoOk m"
  by (simp add: ParseMajorMinorVersion_def FindMajorMinor_match)

lemma parse_major_minor_ok:
  "ParseMajorMinorVersion s = GoOk m \<longleftrightarrow>
     (\<exists>rest. s = m @ rest \<and> major_minor m \<and> takeWhile is_digit rest = [])"
proof (cases s rule: FindMajorMinor_cases)
  case (match m' rest')
  show ?thesis
  proof
    assume "ParseMajorMinorVersion s = GoOk m"
    with match show "\<exists>rest. s = m @ rest \<and> major_minor m \<and> takeWhile is_digit rest = []"
      by (auto simp: ParseMajorMinorVersion_def)
  qed (auto simp: ParseMajorMinorVersion_append)
next
  case none
  then show ?thesis
    by (auto simp: ParseMajorMinorVersion_def Let_def FindMajorMinor_match)
qed

text \<open>
  C32: the parser accepts exactly the texts that start with a version of the form
  digits, dot, digits, and returns the longest such start: what follows it does not begin
  with a digit.
\<close>

theorem parse_major_minor_iff:
  "ParseMajorMinorVersion s = GoOk m \<longleftrightarrow>
     (\<exists>rest. s = m @ rest \<and> major_minor m \<and> takeWhile is_digit rest = [])"
  by (rule parse_major_minor_ok)

text \<open>
  Every other text is refused with the message that names it; there is no third outcome.
\<close>

lemma parse_major_minor_error:
  "ParseMajorMinorVersion s = GoErr e \<longleftrightarrow>
     (\<nexists>m. major_minor m \<and> HasPrefix s m) \<and> e = ErrorString (''invalid version format: '' @ s)"
proof (cases s rule: FindMajorMinor_cases)
  case (match m rest)
  then show ?thesis
    by (auto simp: ParseMajorMinorVersion_def HasPrefix_iff_prefix prefix_def)
next
  case none
  have "\<not> (major_minor m \<and> prefix m s)" for m
  proof
    assume "major_minor m \<and> prefix m s"
    then obtain a b r where s: "s = (a @ CHR ''.'' # b) @ r" and "a \<noteq> []" "b \<noteq> []"
      "list_all is_digit a" "list_all is_digit b"
      by (auto simp: major_minor_def prefix_def)
    then have "FindMajorMinor s \<noteq> []"
      by (simp add: FindMajorMinor_def takeWhile_all_append dropWhile_all_append Let_def)
    with none show False by simp
  qed
  with none show ?thesis
    by (auto simp: ParseMajorMinorVersion_def HasPrefix_iff_prefix Errorf_def)
qed

lemma parse_result_major_minor: "ParseMajorMinorVersion s = GoOk m \<Longrightarrow> major_minor m"
  by (auto simp: parse_major_minor_ok)

section \<open>Detection\<close>

fun is_detect_call :: "api_call \<Rightarrow> bool" where
  "is_detect_call GetConfig = True"
| "is_detect_call NewClient = True"
| "is_detect_call (GetClusterVersion n) = (n = ''version'')"
| "is_detect_call c = False"

lemma emits_DetectOCPVersion [emits_intros]:
  assumes "A GetConfig" and "A NewClient" and "A (GetClusterVersion ''version'')"
  shows "emits A (DetectOCPVersion D)"
  unfolding DetectOCPVersion_def using assms by (intro emits_intros)

interpretation detect: footprint "DetectOCPVersion D" is_detect_call for D :: "'w deps"
  by unfold_locales (simp add: emits_DetectOCPVersion)

lemma DetectOCPVersion_GoOk:
  "DetectOCPVersion D s = (GoOk v, t) \<Longrightarrow> major_minor v"
  by (auto simp: DetectOCPVersion_def go_ok_iffs parse_result_major_minor split: if_splits)

section \<open>Resolution\<close>

lemma latest_not_empty [simp]: "OCPVersionLatest \<noteq> []"
  by (simp add: const_defs)

lemma latest_supported [simp]: "OCPVersionLatest \<in> set SupportedOCPVersions"
  by (simp add: SupportedOCPVersions_def)

lemma empty_not_supported [simp]: "[] \<notin> set SupportedOCPVersions"
  by (simp add: SupportedOCPVersions_def const_defs)

lemma ResolveOCPVersion_no_panic [simp]: "ResolveOCPVersion d v e \<noteq> GoPanic p"
  by (simp add: ResolveOCPVersion_def)

lemma resolve_of_detected:
  assumes "major_minor d"
  shows "\<exists>v fb. ResolveOCPVersion d ov en = GoOk (v, fb)"
  using major_minor_nonempty [OF assms] by (auto simp: ResolveOCPVersion_def)

text \<open>
  When documentation is enabled and no version is forced, resolution answers with a
  version that the database holds; it is a fallback exactly when the detected version is
  not one of them, and otherwise the detected version itself.
\<close>

lemma resolve_without_override_supported:
  assumes "ResolveOCPVersion detected [] True = GoOk (v, fallback)"
  shows "v \<in> set SupportedOCPVersions \<and>
         fallback = (detected \<notin> set SupportedOCPVersions) \<and>
         v = (if fallback then OCPVersionLatest else detected)"
  using assms by (auto simp: ResolveOCPVersion_def IsSupportedOCPVersion_def split: if_splits)

text \<open>
  An override is taken over as it is, whatever the cluster version: it is not checked
  against the versions that the database holds.
\<close>

lemma resolve_override_unchecked:
  assumes "override \<noteq> []"
  shows "ResolveOCPVersion detected override True = GoOk (override, False)"
  using assms by (simp add: ResolveOCPVersion_def)

section \<open>Names derived from a version\<close>

text \<open>
  Index names and database paths are a fixed prefix followed by an encoding of the version;
  two versions share a name only when they share the encoding.
\<close>

locale version_naming =
  fixes name :: "string \<Rightarrow> string"
    and pre :: string
    and enc :: "string \<Rightarrow> string"
    and valid :: "string \<Rightarrow> bool"
  assumes name_eq: "name v = pre @ enc v"
    and enc_inject: "valid v \<Longrightarrow> valid w \<Longrightarrow> enc v = enc w \<Longrightarrow> v = w"
begin

lemma name_prefix: "HasPrefix (name v) pre"
  by (simp add: name_eq)

lemma name_inject: "valid v \<Longrightarrow> valid w \<Longrightarrow> name v = name w \<longleftrightarrow> v = w"
  by (auto simp: name_eq dest: enc_inject)

lemma names_distinct:
  "list_all valid vs \<Longrightarrow> distinct (map name vs) \<longleftrightarrow> distinct vs"
  by (induction vs) (auto simp: list_all_iff name_inject)

end

interpretation index_name: version_naming GetOCPIndexName "''ocp-product-docs-''"
  "ReplaceAll (CHR ''.'') (CHR ''_'')" "\<lambda>v. CHR ''_'' \<notin> set v"
  by unfold_locales
    (auto simp: GetOCPIndexName_def OpenStackLightspeedOCPIndexPrefix_def ReplaceAll_inject)

interpretation vector_db_path: version_naming GetOCPVectorDBPath "''/rag/ocp_vector_db/ocp_''"
  "\<lambda>v. v" "\<lambda>v. True"
  by unfold_locales
    (simp_all add: GetOCPVectorDBPath_def OpenStackLightspeedOCPVectorDBPath_def)

lemma underscore_not_digit: "\<not> is_digit (CHR ''_'')"
  by (simp add: is_digit_def)

lemma major_minor_no_underscore: "major_minor m \<Longrightarrow> CHR ''_'' \<notin> set m"
  using underscore_not_digit by (auto simp only: major_minor_def list_all_iff set_append set_simps)

lemma supported_no_underscore: "v \<in> set SupportedOCPVersions \<Longrightarrow> CHR ''_'' \<notin> set v"
  by (auto simp: SupportedOCPVersions_def const_defs)

text \<open>
  The database path separates all versions, and the index name separates all versions
  without an underscore, in particular all that detection or the supported list can give.
\<close>

lemma version_names_separate:
  "(GetOCPVectorDBPath v = GetOCPVectorDBPath w) = (v = w) \<and>
   inj_on GetOCPIndexName ({m. major_minor m} \<union> set SupportedOCPVersions)"
proof (intro conjI inj_onI)
  show "(GetOCPVectorDBPath v = GetOCPVectorDBPath w) = (v = w)"
    by (simp add: vector_db_path.name_inject)
next
  fix x y
  assume "x \<in> {m. major_minor m} \<union> set SupportedOCPVersions"
    and "y \<in> {m. major_minor m} \<union> set SupportedOCPVersions"
    and "GetOCPIndexName x = GetOCPIndexName y"
  then show "x = y"
    by (auto simp: index_name.name_inject major_minor_no_underscore supported_no_underscore)
qed

end
