(* ===== verification/Kube_Reference.thy ===== *)
theory Kube_Reference
  imports Client_Helpers
begin

text \<open>
  A concrete, executable instance of the parameters of theory \<open>Kube\<close>: nested fields of JSON
  trees, a list of conditions, and a cluster held in memory. It satisfies every contract,
  so no theorem that assumes a contract is empty, and closed examples can be run on it.
  Nothing in the model of the operator refers to it.
\<close>

section \<open>Unstructured objects\<close>

fun set_path :: "object \<Rightarrow> json \<Rightarrow> string list \<Rightarrow> object option" where
  "set_path obj v [] = None"
| "set_path obj v [f] = Some (obj(f \<mapsto> v))"
| "set_path obj v (f # g # fs) =
     (case obj f of
        None \<Rightarrow> map_option (\<lambda>m. obj(f \<mapsto> JObject m)) (set_path Map.empty v (g # fs))
      | Some (JObject m) \<Rightarrow> map_option (\<lambda>m'. obj(f \<mapsto> JObject m')) (set_path m v (g # fs))
      | Some _ \<Rightarrow> None)"

lemma set_path_Some_iff: "(\<exists>obj'. set_path obj v p = Some obj') \<longleftrightarrow> settable obj p"
proof (induction obj v p rule: set_path.induct)
  case (3 obj v f g fs)
  have "settable Map.empty (g # fs)" by (cases fs) simp_all
  with 3 show ?case by (auto split: option.splits json.splits)
qed simp_all

lemma set_path_get: "set_path obj v p = Some obj' \<Longrightarrow> at_path obj' p = Some v"
proof (induction obj v p arbitrary: obj' rule: set_path.induct)
  case (3 obj v f g fs)
  then show ?case by (fastforce split: option.splits json.splits)
qed auto

lemma at_path_empty [simp]: "p \<noteq> [] \<Longrightarrow> at_path Map.empty p = None"
  by (induction "Map.empty :: object" p rule: at_path.induct) simp_all

lemma at_path_upd_other: "f \<noteq> h \<Longrightarrow> at_path (obj(f \<mapsto> v)) (h # q) = at_path obj (h # q)"
  by (cases q) auto

lemma set_path_other:
  "set_path obj v p = Some obj' \<Longrightarrow> \<not> prefix p q \<Longrightarrow> \<not> prefix q p \<Longrightarrow>
   at_path obj' q = at_path obj q"
proof (induction obj v p arbitrary: obj' q rule: set_path.induct)
  case (2 obj v f)
  then show ?case by (cases q) (auto simp: at_path_upd_other)
next
  case (3 obj v f g fs)
  show ?case
  proof (cases q)
    case Nil
    with 3 show ?thesis by simp
  next
    case (Cons h q')
    show ?thesis
    proof (cases "h = f")
      case True
      with Cons "3.prems" have q': "\<not> prefix (g # fs) q'" "\<not> prefix q' (g # fs)" "q' \<noteq> []"
        by auto
      with 3 Cons True show ?thesis
        by (auto simp: at_path_Cons_eq split: option.splits json.splits)
    next
      case False
      with 3 Cons show ?thesis
        by (cases q') (auto split: option.splits json.splits)
    qed
  qed
qed simp

lemma settable_Cons:
  "settable obj (f # fs) \<longleftrightarrow>
     fs = [] \<or> (case obj f of None \<Rightarrow> True | Some (JObject m) \<Rightarrow> settable m fs | Some _ \<Rightarrow> False)"
  by (cases fs) (auto split: option.splits json.splits)

lemma settable_empty: "q \<noteq> [] \<Longrightarrow> settable Map.empty q"
  by (cases q) (auto simp: settable_Cons)

lemma set_path_settable:
  "set_path obj v p = Some obj' \<Longrightarrow> \<not> prefix p q \<Longrightarrow> settable obj q \<Longrightarrow> settable obj' q"
proof (induction obj v p arbitrary: obj' q rule: set_path.induct)
  case (2 obj v f)
  then show ?case by (cases q) (auto simp: settable_Cons)
next
  case (3 obj v f g fs)
  show ?case
  proof (cases q)
    case Nil
    with "3.prems" show ?thesis by simp
  next
    case (Cons h q')
    with 3 show ?thesis
      by (cases "h = f"; cases "q' = []")
        (auto simp: settable_Cons settable_empty split: option.splits json.splits)
  qed
qed simp

definition ref_set :: "object \<Rightarrow> json \<Rightarrow> string list \<Rightarrow> object gores" where
  "ref_set obj v p =
     (case set_path obj v p of Some obj' \<Rightarrow> GoOk obj'
      | None \<Rightarrow> GoErr (ErrorString ''value cannot be set''))"

definition ref_labels :: "object \<Rightarrow> (string \<Rightarrow> string option) option" where
  "ref_labels obj =
     (case at_path obj label_path of
        Some (JObject m) \<Rightarrow> Some (\<lambda>k. case m k of Some (JString v) \<Rightarrow> Some v | _ \<Rightarrow> None)
      | _ \<Rightarrow> None)"

fun json_string :: "json \<Rightarrow> string list" where
  "json_string (JString v) = [v]"
| "json_string _ = []"

definition ref_finalizers :: "object \<Rightarrow> string list" where
  "ref_finalizers obj =
     (case at_path obj finalizer_path of Some (JArray xs) \<Rightarrow> concat (map json_string xs) | _ \<Rightarrow> [])"

definition ref_put :: "object \<Rightarrow> json \<Rightarrow> string list \<Rightarrow> object" where
  "ref_put obj v p = (case set_path obj v p of Some obj' \<Rightarrow> obj' | None \<Rightarrow> obj)"

definition ref_uns :: uns_lib where
  "ref_uns =
    \<lparr>SetGroupVersionKind = (\<lambda>obj g. obj(''apiVersion'' \<mapsto> JString (gvk_Group g @ ''/'' @ gvk_Version g),
        ''kind'' \<mapsto> JString (gvk_Kind g))),
     SetName = (\<lambda>obj n. ref_put obj (JString n) [''metadata'', ''name'']),
     GetLabels = ref_labels,
     SetLabels = (\<lambda>obj ls. ref_put obj (JObject (\<lambda>k. map_option JString (ls k))) label_path),
     SetNestedField = ref_set,
     SetNestedSlice = (\<lambda>obj xs p. ref_set obj (JArray xs) p),
     NestedString = (\<lambda>obj p. case at_path obj p of
         Some (JString v) \<Rightarrow> GoOk (v, True)
       | Some _ \<Rightarrow> GoErr (ErrorString ''accessor error: not a string'')
       | None \<Rightarrow> GoOk ([], False)),
     GetFinalizers = ref_finalizers,
     uns_AddFinalizer = (\<lambda>obj f. if f \<in> set (ref_finalizers obj) then (False, obj)
       else (True, ref_put obj (JArray (map JString (ref_finalizers obj @ [f]))) finalizer_path)),
     uns_RemoveFinalizer = (\<lambda>obj f. if f \<in> set (ref_finalizers obj)
       then (True, ref_put obj (JArray (map JString (filter (\<lambda>x. x \<noteq> f) (ref_finalizers obj))))
               finalizer_path)
       else (False, obj))\<rparr>"

lemma json_string_map [simp]: "concat (map (json_string \<circ> JString) xs) = xs"
  by (induction xs) simp_all

lemma ref_put_other:
  "\<not> prefix p q \<Longrightarrow> \<not> prefix q p \<Longrightarrow> at_path (ref_put obj v p) q = at_path obj q"
  by (auto simp: ref_put_def set_path_other split: option.splits)

lemma ref_put_get: "settable obj p \<Longrightarrow> at_path (ref_put obj v p) p = Some v"
  using set_path_Some_iff [of obj v p] by (auto simp: ref_put_def set_path_get)

lemma ref_set_GoOk: "ref_set obj v p = GoOk obj' \<longleftrightarrow> set_path obj v p = Some obj'"
  by (simp add: ref_set_def split: option.splits)

interpretation ref_nested: nested_fields ref_uns
proof
  show "settable obj p \<Longrightarrow> \<exists>obj'. SetNestedField ref_uns obj v p = GoOk obj'" for obj p v
    using set_path_Some_iff [of obj v p] by (simp add: ref_uns_def ref_set_GoOk)
qed (auto simp: ref_uns_def ref_set_GoOk set_path_get set_path_other set_path_settable
      split: option.splits json.splits)

interpretation ref_metadata: object_metadata ref_uns
proof
  show "settable obj finalizer_path \<Longrightarrow>
       set (GetFinalizers ref_uns (snd (uns_AddFinalizer ref_uns obj f))) =
       insert f (set (GetFinalizers ref_uns obj))" for obj f
    by (auto simp: ref_uns_def ref_finalizers_def [of "ref_put _ _ _"] ref_put_get)
qed (auto simp: ref_uns_def ref_labels_def ref_put_other ref_put_get fun_eq_iff split: option.splits)

lemma ref_uns_sel [simp]:
  "GetLabels ref_uns = ref_labels" "SetNestedField ref_uns = ref_set"
  "GetFinalizers ref_uns = ref_finalizers"
  "SetLabels ref_uns obj ls = ref_put obj (JObject (\<lambda>k. map_option JString (ls k))) label_path"
  "SetName ref_uns obj n = ref_put obj (JString n) [''metadata'', ''name'']"
  "NestedString ref_uns obj p = (case at_path obj p of
       Some (JString v) \<Rightarrow> GoOk (v, True)
     | Some _ \<Rightarrow> GoErr (ErrorString ''accessor error: not a string'')
     | None \<Rightarrow> GoOk ([], False))"
  by (simp_all add: ref_uns_def)

section \<open>Conditions\<close>

definition ref_condition ::
  "ConditionStatus \<Rightarrow> string \<Rightarrow> string \<Rightarrow> string \<Rightarrow> string \<Rightarrow> string list \<Rightarrow> Condition" where
  "ref_condition st t r sev m as =
     \<lparr>cond_Type = t, cond_Status = st, cond_Severity = sev, cond_Reason = r,
      cond_Message = Sprintf m as, cond_LastTransitionTime = None\<rparr>"

definition put_condition :: "Condition list \<Rightarrow> Condition \<Rightarrow> Condition list" where
  "put_condition cs c = filter (\<lambda>x. cond_Type x \<noteq> cond_Type c) cs @ [c]"

definition slice :: "Conditions \<Rightarrow> Condition list" where
  "slice cs = (case cs of None \<Rightarrow> [] | Some l \<Rightarrow> l)"

definition true_in :: "Condition list \<Rightarrow> string \<Rightarrow> bool" where
  "true_in cs t \<longleftrightarrow> list_ex (\<lambda>c. cond_Type c = t \<and> cond_Status c = ConditionTrue) cs"

definition ref_ready :: string where
  "ref_ready = ''Ready''"

text \<open>The first condition that is false, or unknown, or any, among the sub-conditions.\<close>

definition ref_mirror :: "Condition list \<Rightarrow> string \<Rightarrow> Condition" where
  "ref_mirror cs t =
     (let subs = filter (\<lambda>c. cond_Type c \<noteq> t) cs;
          order = filter (\<lambda>c. cond_Status c = ConditionFalse) subs @
                  filter (\<lambda>c. cond_Status c = ConditionUnknown) subs @ subs in
      case order of c # _ \<Rightarrow> c\<lparr>cond_Type := t\<rparr>
      | [] \<Rightarrow> ref_condition ConditionUnknown t ''Init'' [] ''Setup started'' [])"

definition restore_time :: "Condition list \<Rightarrow> Condition \<Rightarrow> Condition" where
  "restore_time saved c =
     (case filter (\<lambda>d. cond_Type d = cond_Type c \<and> cond_Status d = cond_Status c) saved of
        d # _ \<Rightarrow> c\<lparr>cond_LastTransitionTime := cond_LastTransitionTime d\<rparr>
      | [] \<Rightarrow> c)"

definition restore_times :: "Condition list \<Rightarrow> Condition list \<Rightarrow> Condition list" where
  "restore_times saved cs = map (restore_time saved) cs"

definition ref_cond :: condition_lib where
  "ref_cond =
    \<lparr>ReadyCondition = ref_ready, ReadyMessage = ''Setup complete'',
     ReadyInitMessage = ''Setup started'',
     DeploymentReadyErrorMessage = ''Deployment error occurred %s'',
     InitReason = ''Init'', ErrorReason = ''Error'', RequestedReason = ''Requested'',
     SeverityError = ''Error'', SeverityWarning = ''Warning'', SeverityInfo = ''Info'',
     TrueCondition = (\<lambda>t m as. ref_condition ConditionTrue t ''Ready'' [] m as),
     FalseCondition = (\<lambda>t r sev m as. ref_condition ConditionFalse t r sev m as),
     UnknownCondition = (\<lambda>t r m as. ref_condition ConditionUnknown t r [] m as),
     CreateList = (\<lambda>l. Some l),
     Init = (\<lambda>_ cl. Some (foldl put_condition
        [ref_condition ConditionUnknown ref_ready ''Init'' [] ''Setup started'' []] (slice cl))),
     SetCondition = (\<lambda>cs c. Some (put_condition (slice cs) c)),
     MarkTrue = (\<lambda>cs t m. Some (put_condition (slice cs) (ref_condition ConditionTrue t ''Ready'' [] m []))),
     MarkUnknown = (\<lambda>cs t r m. Some (put_condition (slice cs) (ref_condition ConditionUnknown t r [] m []))),
     Mirror = (\<lambda>cs t. ref_mirror (slice cs) t),
     AllSubConditionIsTrue = (\<lambda>cs. list_all
        (\<lambda>c. cond_Type c = ref_ready \<or> cond_Status c = ConditionTrue) (slice cs)),
     IsTrue = (\<lambda>cs t. true_in (slice cs) t),
     RestoreLastTransitionTimes = (\<lambda>cs saved. map_option (restore_times (slice saved)) cs)\<rparr>"

lemma ref_condition_sel [simp]:
  "cond_Type (ref_condition st t r sev m as) = t"
  "cond_Status (ref_condition st t r sev m as) = st"
  by (simp_all add: ref_condition_def)

lemma slice_Some [simp]: "slice (Some l) = l"
  by (simp add: slice_def)

lemma true_in_put:
  "true_in (put_condition cs c) t \<longleftrightarrow>
     (if t = cond_Type c then cond_Status c = ConditionTrue else true_in cs t)"
  by (auto simp: true_in_def put_condition_def list_ex_iff)

lemma true_in_init:
  "c \<in> set l \<Longrightarrow> distinct (map cond_Type l) \<Longrightarrow>
   true_in (foldl put_condition cs l) (cond_Type c) \<longleftrightarrow> cond_Status c = ConditionTrue"
proof (induction l arbitrary: cs rule: rev_induct)
  case (snoc d l)
  show ?case
  proof (cases "c = d")
    case True
    then show ?thesis by (simp add: true_in_put)
  next
    case False
    with snoc.prems have c: "c \<in> set l" by simp
    from snoc.prems have "cond_Type d \<notin> cond_Type ` set l" by simp
    with c have "cond_Type c \<noteq> cond_Type d" by (metis image_eqI)
    with snoc c show ?thesis by (simp add: true_in_put)
  qed
qed simp

lemma restore_time_sel [simp]:
  "cond_Type (restore_time saved c) = cond_Type c"
  "cond_Status (restore_time saved c) = cond_Status c"
  by (simp_all add: restore_time_def split: list.split)

lemma true_in_restore: "true_in (restore_times saved cs) t \<longleftrightarrow> true_in cs t"
  by (simp add: true_in_def restore_times_def list_ex_iff)

interpretation ref_conditions: conditions_contract ref_cond
proof
  show "IsTrue ref_cond (RestoreLastTransitionTimes ref_cond cs saved) t = IsTrue ref_cond cs t"
    for cs saved t
    by (cases cs) (simp_all add: ref_cond_def true_in_restore slice_def)
  show "cond_Type (Mirror ref_cond cs t) = t" for cs t
    by (simp add: ref_cond_def ref_mirror_def Let_def split: list.split)
qed (auto simp: ref_cond_def true_in_put true_in_init ref_ready_def const_defs)

section \<open>A cluster in memory\<close>

record cluster =
  c_instances :: "OpenStackLightspeed list"
  c_csvs :: "ClusterServiceVersion list"
  c_subs :: "Subscription list"
  c_plans :: "InstallPlan list"
  c_config :: "object option"
  c_version :: "object option"
  c_random :: int

definition empty_cluster :: cluster where
  "empty_cluster = \<lparr>c_instances = [], c_csvs = [], c_subs = [], c_plans = [], c_config = None,
     c_version = None, c_random = 0\<rparr>"

definition same_key :: "ObjectMeta \<Rightarrow> ObjectMeta \<Rightarrow> bool" where
  "same_key a b \<longleftrightarrow> meta_Name a = meta_Name b \<and> meta_Namespace a = meta_Namespace b"

definition ref_NotFound :: "string \<Rightarrow> goerr" where
  "ref_NotFound n = StatusError ''NotFound'' (n @ '' not found'')"

definition ref_update :: "('a \<Rightarrow> ObjectMeta) \<Rightarrow> 'a \<Rightarrow> 'a list \<Rightarrow> 'a list" where
  "ref_update meta x xs = map (\<lambda>y. if same_key (meta y) (meta x) then x else y) xs"

definition ref_delete :: "('a \<Rightarrow> ObjectMeta) \<Rightarrow> 'a \<Rightarrow> 'a list \<Rightarrow> 'a list" where
  "ref_delete meta x xs = filter (\<lambda>y. \<not> same_key (meta y) (meta x)) xs"

definition ref_create_or_update_subscription ::
  "Subscription \<Rightarrow> (Subscription \<Rightarrow> Subscription gores) \<Rightarrow> cluster \<Rightarrow>
     (goerr + OperationResult \<times> Subscription) \<times> cluster" where
  "ref_create_or_update_subscription sub f w =
     (case filter (\<lambda>x. same_key (sub_Meta x) (sub_Meta sub)) (c_subs w) of
        [] \<Rightarrow> (case f sub of
            GoOk sub' \<Rightarrow> (Inr (OperationResultCreated, sub'), w\<lparr>c_subs := c_subs w @ [sub']\<rparr>)
          | GoErr e \<Rightarrow> (Inl e, w)
          | GoPanic p \<Rightarrow> (Inl (ErrorString p), w))
      | old # _ \<Rightarrow> (case f old of
            GoOk sub' \<Rightarrow>
              if sub' = old then (Inr (OperationResultNone, sub'), w)
              else (Inr (OperationResultUpdated, sub'), w\<lparr>c_subs := ref_update sub_Meta sub' (c_subs w)\<rparr>)
          | GoErr e \<Rightarrow> (Inl e, w)
          | GoPanic p \<Rightarrow> (Inl (ErrorString p), w)))"

definition ref_create_or_patch_olsconfig ::
  "object \<Rightarrow> (object \<Rightarrow> object gores) \<Rightarrow> cluster \<Rightarrow> (goerr + OperationResult \<times> object) \<times> cluster" where
  "ref_create_or_patch_olsconfig obj f w =
     (case f (case c_config w of None \<Rightarrow> obj | Some old \<Rightarrow> old) of
        GoOk obj' \<Rightarrow>
          (Inr (case c_config w of None \<Rightarrow> OperationResultCreated | Some _ \<Rightarrow> OperationResultUpdated, obj'),
           w\<lparr>c_config := Some obj'\<rparr>)
      | GoErr e \<Rightarrow> (Inl e, w)
      | GoPanic p \<Rightarrow> (Inl (ErrorString p), w))"

text \<open>An object with finalizers stays, marked as being deleted, until they are gone.\<close>

definition ref_delete_olsconfig :: "object \<Rightarrow> cluster \<Rightarrow> (goerr + unit) \<times> cluster" where
  "ref_delete_olsconfig obj w =
     (case c_config w of
        None \<Rightarrow> (Inl (ref_NotFound ''olsconfig''), w)
      | Some cur \<Rightarrow>
          (Inr (), w\<lparr>c_config := (if ref_finalizers cur = [] then None
             else Some (ref_put cur (JString ''now'') [''metadata'', ''deletionTimestamp'']))\<rparr>))"

definition ref_client :: "cluster client" where
  "ref_client =
    \<lparr>get_instance = (\<lambda>nn w. case filter (\<lambda>i. meta_Name (osl_Meta i) = nn_Name nn \<and>
           osl_Namespace i = nn_Namespace nn) (c_instances w) of
         i # _ \<Rightarrow> (Inr i, w) | [] \<Rightarrow> (Inl (ref_NotFound (nn_Name nn)), w)),
     list_instances = (\<lambda>ns w. (Inr (case ns of None \<Rightarrow> c_instances w
         | Some n \<Rightarrow> filter (\<lambda>i. osl_Namespace i = n) (c_instances w)), w)),
     get_config = (\<lambda>w. (Inr (), w)),
     new_client = (\<lambda>w. (Inr (), w)),
     raw_get_cluster_version = (\<lambda>n w. (case c_version w of Some v \<Rightarrow> Inr v
         | None \<Rightarrow> Inl (ref_NotFound n), w)),
     raw_list_csvs = (\<lambda>ns w. (Inr (c_csvs w), w)),
     update_csv = (\<lambda>c w. (Inr (), w\<lparr>c_csvs := ref_update csv_Meta c (c_csvs w)\<rparr>)),
     delete_csv = (\<lambda>c w. (Inr (), w\<lparr>c_csvs := ref_delete csv_Meta c (c_csvs w)\<rparr>)),
     get_subscription = (\<lambda>nn w. (case filter (\<lambda>x. meta_Name (sub_Meta x) = nn_Name nn \<and>
           meta_Namespace (sub_Meta x) = nn_Namespace nn) (c_subs w) of
         x # _ \<Rightarrow> Inr x | [] \<Rightarrow> Inl (ref_NotFound (nn_Name nn)), w)),
     create_or_update_subscription = ref_create_or_update_subscription,
     list_install_plans = (\<lambda>ns w. (Inr (filter (\<lambda>p. meta_Namespace (ip_Meta p) = ns) (c_plans w)), w)),
     update_install_plan = (\<lambda>p w. (Inr (), w\<lparr>c_plans := ref_update ip_Meta p (c_plans w)\<rparr>)),
     delete_install_plan = (\<lambda>p w. (Inr (), w\<lparr>c_plans := ref_delete ip_Meta p (c_plans w)\<rparr>)),
     list_olsconfigs = (\<lambda>w. (Inr (case c_config w of None \<Rightarrow> [] | Some c \<Rightarrow> [c]), w)),
     create_or_patch_olsconfig = ref_create_or_patch_olsconfig,
     update_olsconfig = (\<lambda>obj w. (Inr (), w\<lparr>c_config := Some obj\<rparr>)),
     delete_olsconfig = ref_delete_olsconfig,
     rand_Int = (\<lambda>m w. (Inr (c_random w mod m), w)),
     patch_instance = (\<lambda>before i w. (Inr (), w\<lparr>c_instances := ref_update osl_Meta i (c_instances w)\<rparr>))\<rparr>"

definition ref_finalizer :: string where
  "ref_finalizer = ''openstack.org/openstacklightspeed''"

definition ref_set_finalizers :: "string list \<Rightarrow> OpenStackLightspeed \<Rightarrow> OpenStackLightspeed" where
  "ref_set_finalizers fs i = i\<lparr>osl_Meta := (osl_Meta i)\<lparr>meta_Finalizers := fs\<rparr>\<rparr>"

definition ref_deps :: "(string \<Rightarrow> string option) \<Rightarrow> cluster deps" where
  "ref_deps env =
    \<lparr>cli = ref_client, unsl = ref_uns, condl = ref_cond,
     IsNotFound = (\<lambda>e. case e of StatusError r m \<Rightarrow> r = ''NotFound'' | _ \<Rightarrow> False),
     IsConflict = (\<lambda>e. case e of StatusError r m \<Rightarrow> r = ''Conflict'' | _ \<Rightarrow> False),
     NewNotFound = (\<lambda>g r n. ref_NotFound n),
     NewHelper = (\<lambda>i. Inr i),
     GetFinalizer = (\<lambda>h. ref_finalizer),
     AddFinalizer = (\<lambda>i f. let fs = meta_Finalizers (osl_Meta i) in
        if f \<in> set fs then (False, ref_set_finalizers fs i) else (True, ref_set_finalizers (fs @ [f]) i)),
     RemoveFinalizer = (\<lambda>i f. let fs = meta_Finalizers (osl_Meta i) in
        (f \<in> set fs, ref_set_finalizers (filter (\<lambda>x. x \<noteq> f) fs) i)),
     Time_IsZero = (\<lambda>t. case t of None \<Rightarrow> True | Some n \<Rightarrow> n = 0),
     os_env = env\<rparr>"

lemma ref_deps_sel [simp]:
  "cli (ref_deps env) = ref_client" "unsl (ref_deps env) = ref_uns" "condl (ref_deps env) = ref_cond"
  "os_env (ref_deps env) = env"
  by (simp_all add: ref_deps_def)

interpretation ref_typed_finalizers: finalizers_contract "ref_deps env" for env
  by unfold_locales (simp_all add: ref_deps_def ref_set_finalizers_def Let_def)

interpretation ref_api: client_contract "ref_deps env" for env
  by unfold_locales
    (auto simp: ref_deps_def ref_client_def ref_NotFound_def ref_create_or_update_subscription_def
      ref_create_or_patch_olsconfig_def split: list.splits gores.splits if_splits)

lemmas ref_contracts [simp] =
  ref_nested.nested_fields_axioms ref_metadata.object_metadata_axioms
  ref_conditions.conditions_contract_axioms ref_typed_finalizers.finalizers_contract_axioms
  ref_api.client_contract_axioms

section \<open>A sample instance\<close>

definition sample_spec :: OpenStackLightspeedSpec where
  "sample_spec =
    \<lparr>LLMEndpoint = ''http://llm:8000/v1'', LLMEndpointType = ''openai'', ModelName = ''granite'',
     LLMCredentials = ''apitoken'', TLSCACertBundle = ''certs'', MaxTokensForResponse = 0,
     CatalogSourceNamespace = ''openshift-marketplace'', CatalogSourceName = ''redhat-operators'',
     LLMProjectID = ''proj'', LLMDeploymentName = [], LLMAPIVersion = ''v1'',
     FeedbackDisabled = False, TranscriptsDisabled = True,
     RAGImage = ''rag:1'', EnableOCPRAG = False, OCPRAGVersionOverride = []\<rparr>"

definition sample_instance :: OpenStackLightspeed where
  "sample_instance =
    \<lparr>osl_TypeMeta = \<lparr>tm_APIVersion = ''lightspeed.openstack.org/v1beta1'', tm_Kind = ''OpenStackLightspeed''\<rparr>,
     osl_Meta = empty_ObjectMeta\<lparr>meta_Name := ''osl'', meta_Namespace := ''openshift-lightspeed'',
       meta_UID := ''abcde-1'', meta_Generation := 1\<rparr>,
     Spec = sample_spec,
     Status = \<lparr>Conditions = Some [], ObservedGeneration = 0, ActiveOCPRAGVersion = []\<rparr>\<rparr>"

definition sample_env :: "string \<Rightarrow> string option" where
  "sample_env = [''OPENSHIFT_LIGHTSPEED_OPERATOR_VERSION'' \<mapsto> ''1.0.1'']"

lemmas ref_defs = ref_deps_def ref_client_def ref_uns_def ref_cond_def

end
