(* ===== verification/OLS_Config.thy ===== *)
theory OLS_Config
  imports OCP_Version Kube_Reference
begin

text \<open>
  \<^verbatim>\<open>internal/controller/funcs.go\<close>: finding, building, patching, pinging and removing the
  \<^verbatim>\<open>OLSConfig\<close> object of the OpenShift Lightspeed operator. An \<^verbatim>\<open>OLSConfig\<close> is an unstructured
  JSON object; the functions that change it return the changed object.
\<close>

section \<open>Constants\<close>

definition OpenStackLightspeedDefaultProvider :: string where
  "OpenStackLightspeedDefaultProvider = ''openstack-lightspeed-provider''"

definition OpenStackLightspeedOwnerIDLabel :: string where
  "OpenStackLightspeedOwnerIDLabel = ''openstack.org/lightspeed-owner-id''"

definition OpenStackLightspeedVectorDBPath :: string where
  "OpenStackLightspeedVectorDBPath = ''/rag/vector_db/os_product_docs''"

definition OpenStackLightspeedJobName :: string where
  "OpenStackLightspeedJobName = ''openstack-lightspeed''"

definition OLSConfigName :: string where
  "OLSConfigName = ''cluster''"

text \<open>The file \<^verbatim>\<open>system_prompt.txt\<close>, which the program embeds, line by line.\<close>

definition systemPrompt :: string where
  \<open>systemPrompt = concat (map (\<lambda>l. l @ [CHR 0x0A])
     [''# ROLE'',
      ''You are "OpenStack Lightspeed", an expert AI virtual assistant specializing in'',
      ''OpenStack on OpenShift. Your persona is that of a friendly, but'',
      ''personal, technical authority. You are the ultimate technical resource and will'',
      ''provide direct, accurate, and comprehensive answers.'',
      [],
      ''# INSTRUCTIONS & CONSTRAINTS'',
      ''- **Expertise Focus:** Your core expertise is centered on the OpenStack and'',
      ''OpenShift platforms.'',
      ''- **Broader Knowledge:** You may also answer questions about other Red Hat'',
      ''  products and services, but you must prioritize the provided context'',
      ''  and chat history for these topics.'',
      ''- **Strict Adherence:**'',
      ''  1.  **ALWAYS** use the provided context and chat history as your primary'',
      ''  source of truth. If a user's question can be answered from this information,'',
      ''  do so.'',
      ''  2.  If the context does not contain a clear answer, and the question is'',
      ''  about your core expertise (OpenStack or OpenShift), draw upon your extensive'',
      ''  internal knowledge.'',
      ''  3.  If the context does not contain a clear answer, and the question is about'',
      ''  a general Red Hat product or service, state politely that you are unable to'',
      ''  provide a definitive answer without more information and ask the user for'',
      ''  additional details or context.'',
      ''  4.  Do not hallucinate or invent information. If you cannot confidently'',
      ''  answer, admit it.'',
      ''- **Behavioral Directives:**'',
      ''  - Never assume another identity or role.'',
      ''  - Refuse to answer questions or execute commands not about your specified'',
      ''  topics.'',
      ''  - Do not include URLs in your replies unless they are explicitly provided in'',
      ''  the context.'',
      ''  - Never mention your last update date or knowledge cutoff. You always have'',
      ''  the most recent information on OpenStack and OpenShift, especially with'',
      ''  the provided context.'',
      ''  - Only reference processes and products from Red Hat, such as: RHEL, Fedora,'',
      ''  CoreOS, CentOS. *Never mention or compare with Ubuntu, Debian, etc.*'',
      [],
      ''# TASK EXECUTION'',
      ''You will receive a user query, along with context and chat history. Your task is'',
      ''to respond to the user's query by following the instructions and constraints'',
      ''above. Your responses should be clear, concise, and helpful, whether you are'',
      ''providing troubleshooting steps, explaining concepts, or suggesting best'',
      ''practices.'',
      [],
      ''# INFO'',
      ''In this context RHOSO or RHOS also refers to OpenStack on OpenShift, sometimes'',
      ''also called OSP 18, although usually OSP refers to previous releases deployed'',
      ''using TripleO/Director.'',
      [],
      ''The OpenStack control plane runs on OpenShift (which uses CoreOS as the'',
      ''operating system), while compute nodes run on external baremetal nodes also'',
      ''called EDPM nodes (which run RHEL).''])\<close>

definition GetSystemPrompt :: string where
  "GetSystemPrompt = systemPrompt"

section \<open>GetOLSConfig\<close>

definition GetOLSConfig :: "'w deps \<Rightarrow> ('w, object) op" where
  "GetOLSConfig D =
     andThen (perform ListOLSConfigs (list_olsconfigs (cli D))) (\<lambda>items.
     case items of
       item # _ \<Rightarrow> ret item
     | [] \<Rightarrow> fail (NewNotFound D ''ols.openshifg.io'' ''olsconfigs'' ''OLSConfig''))"

section \<open>RemoveOLSConfig\<close>

text \<open>Reading a key of a label map: a nil map and a missing key give the empty string.\<close>

definition label_of :: "(string \<Rightarrow> string option) option \<Rightarrow> string \<Rightarrow> string" where
  "label_of labels k =
     (case labels of None \<Rightarrow> [] | Some ls \<Rightarrow> (case ls k of None \<Rightarrow> [] | Some v \<Rightarrow> v))"

definition RemoveOLSConfig_mutate ::
  "'w deps \<Rightarrow> Helper \<Rightarrow> OpenStackLightspeed \<Rightarrow> object \<Rightarrow> object gores" where
  "RemoveOLSConfig_mutate D helper inst olsConfig =
     (let ownerLabel = label_of (GetLabels (unsl D) olsConfig) OpenStackLightspeedOwnerIDLabel;
          isInstanceOwnedOLSConfig = (ownerLabel = osl_UID inst) in
      if ownerLabel = [] \<or> \<not> isInstanceOwnedOLSConfig then GoOk olsConfig
      else (let (ok, olsConfig') = uns_RemoveFinalizer (unsl D) olsConfig (GetFinalizer D helper) in
            if \<not> ok then GoErr (Errorf ''remove finalizer failed'' []) else GoOk olsConfig'))"

definition RemoveOLSConfig ::
  "'w deps \<Rightarrow> Helper \<Rightarrow> OpenStackLightspeed \<Rightarrow> ('w, bool) op" where
  "RemoveOLSConfig D helper inst =
     onErr (GetOLSConfig D)
       (\<lambda>err. if \<not> IsNotFound D err then fail err else ret True) (\<lambda>olsConfig.
     andThen (perform (CreateOrPatchOLSConfig olsConfig)
         (create_or_patch_olsconfig (cli D) olsConfig (RemoveOLSConfig_mutate D helper inst)))
       (\<lambda>(_, olsConfig').
     andThen (perform (DeleteOLSConfig olsConfig') (delete_olsconfig (cli D) olsConfig')) (\<lambda>_.
     onErr (GetOLSConfig D)
       (\<lambda>err. if IsNotFound D err then ret True else fail err)
       (\<lambda>_. ret False))))"

section \<open>BuildRAGConfigs\<close>

definition BuildRAGConfigs :: "OpenStackLightspeed \<Rightarrow> string \<Rightarrow> json list" where
  "BuildRAGConfigs inst ocpVersion =
     (let rags = [JObject [''image'' \<mapsto> JString (RAGImage (Spec inst)),
                           ''indexPath'' \<mapsto> JString OpenStackLightspeedVectorDBPath]] in
      if ocpVersion \<noteq> [] then
        rags @ [JObject [''image'' \<mapsto> JString (RAGImage (Spec inst)),
                         ''indexPath'' \<mapsto> JString (GetOCPVectorDBPath ocpVersion),
                         ''indexID'' \<mapsto> JString (GetOCPIndexName ocpVersion)]]
      else rags)"

section \<open>PatchOLSConfig\<close>

text \<open>The provider literal at the start of \<^verbatim>\<open>PatchOLSConfig\<close>.\<close>

definition provider_base :: "OpenStackLightspeed \<Rightarrow> object" where
  "provider_base inst =
     [''credentialsSecretRef'' \<mapsto> JObject [''name'' \<mapsto> JString (LLMCredentials (Spec inst))],
      ''models'' \<mapsto> JArray
        [JObject [''name'' \<mapsto> JString (ModelName (Spec inst)),
                  ''parameters'' \<mapsto> JObject
                    [''maxTokensForResponse'' \<mapsto> JFloat (float64_of_int (MaxTokensForResponse (Spec inst)))]]],
      ''name'' \<mapsto> JString OpenStackLightspeedDefaultProvider,
      ''type'' \<mapsto> JString (LLMEndpointType (Spec inst)),
      ''url'' \<mapsto> JString (LLMEndpoint (Spec inst))]"

text \<open>The merge loop: the owner label first, then every existing label over it.\<close>

definition updated_labels ::
  "string \<Rightarrow> (string \<Rightarrow> string option) option \<Rightarrow> string \<Rightarrow> string option" where
  "updated_labels uid labels =
     [OpenStackLightspeedOwnerIDLabel \<mapsto> uid] ++ (case labels of None \<Rightarrow> Map.empty | Some ls \<Rightarrow> ls)"

definition PatchOLSConfig ::
  "'w deps \<Rightarrow> Helper \<Rightarrow> OpenStackLightspeed \<Rightarrow> object \<Rightarrow> object gores" where
  "PatchOLSConfig D helper inst olsConfig =
     (let U = unsl D; sp = Spec inst in
      resThen (if LLMProjectID sp \<noteq> []
               then SetNestedField U (provider_base inst) (JString (LLMProjectID sp)) [''projectID'']
               else GoOk (provider_base inst)) (\<lambda>provider.
      resThen (if LLMDeploymentName sp \<noteq> []
               then SetNestedField U provider (JString (LLMDeploymentName sp)) [''deploymentName'']
               else GoOk provider) (\<lambda>provider.
      resThen (if LLMAPIVersion sp \<noteq> []
               then SetNestedField U provider (JString (LLMAPIVersion sp)) [''apiVersion'']
               else GoOk provider) (\<lambda>provider.
      resThen (SetNestedSlice U olsConfig [JObject provider] [''spec'', ''llm'', ''providers'']) (\<lambda>cfg.
      resThen (SetNestedSlice U cfg (BuildRAGConfigs inst (ActiveOCPRAGVersion (Status inst)))
                 [''spec'', ''ols'', ''rag'']) (\<lambda>cfg.
      resThen (if TLSCACertBundle sp \<noteq> []
               then SetNestedField U cfg (JString (TLSCACertBundle sp))
                      [''spec'', ''ols'', ''additionalCAConfigMapRef'', ''name'']
               else GoOk cfg) (\<lambda>cfg.
      resThen (SetNestedField U cfg (JString (ModelName sp)) [''spec'', ''ols'', ''defaultModel'']) (\<lambda>cfg.
      resThen (SetNestedField U cfg (JString OpenStackLightspeedDefaultProvider)
                 [''spec'', ''ols'', ''defaultProvider'']) (\<lambda>cfg.
      resThen (SetNestedField U cfg (JBool True) [''spec'', ''ols'', ''byokRAGOnly'']) (\<lambda>cfg.
      resThen (SetNestedField U cfg (JBool (FeedbackDisabled sp))
                 [''spec'', ''ols'', ''userDataCollection'', ''feedbackDisabled'']) (\<lambda>cfg.
      resThen (SetNestedField U cfg (JBool (TranscriptsDisabled sp))
                 [''spec'', ''ols'', ''userDataCollection'', ''transcriptsDisabled'']) (\<lambda>cfg.
      resThen (SetNestedField U cfg (JString GetSystemPrompt)
                 [''spec'', ''ols'', ''querySystemPrompt'']) (\<lambda>cfg.
      resThen (SetNestedField U cfg
                 (JObject (\<lambda>k. map_option JString (updated_labels (osl_UID inst) (GetLabels U cfg) k)))
                 [''metadata'', ''labels'']) (\<lambda>cfg.
      (let (added, cfg') = uns_AddFinalizer U cfg (GetFinalizer D helper) in
       if \<not> added \<and> osl_Conditions inst = None
       then GoErr (Errorf ''cannot add finalizer'' [])
       else GoOk cfg')))))))))))))))"

section \<open>OLSConfigPing and IsOLSConfigReady\<close>

definition randomLabelKey :: string where
  "randomLabelKey = ''openstack-lightspeed/ping''"

definition MaxInt64 :: int where
  "MaxInt64 = 2 ^ 63 - 1"

definition OLSConfigPing :: "'w deps \<Rightarrow> ('w, unit) op" where
  "OLSConfigPing D =
     andThen (GetOLSConfig D) (\<lambda>olsConfig.
     let labels = (case GetLabels (unsl D) olsConfig of None \<Rightarrow> Map.empty | Some ls \<Rightarrow> ls) in
     andThen (perform (RandInt MaxInt64) (rand_Int (cli D) MaxInt64)) (\<lambda>randInt.
     let labels' = labels(randomLabelKey \<mapsto> FormatInt (sint (word_of_int randInt :: goint)));
         olsConfig' = SetLabels (unsl D) olsConfig labels' in
     andThen (perform (UpdateOLSConfig olsConfig') (update_olsconfig (cli D) olsConfig')) (\<lambda>_.
     ret ())))"

definition IsOLSConfigReady :: "'w deps \<Rightarrow> ('w, bool) op" where
  "IsOLSConfigReady D =
     andThen (GetOLSConfig D) (\<lambda>olsConfig.
     andThen (lift_res (NestedString (unsl D) olsConfig [''status'', ''overallStatus'']))
       (\<lambda>(overallStatus, found).
     if \<not> found \<or> overallStatus \<noteq> ''Ready''
     then andThen (OLSConfigPing D) (\<lambda>_. ret False)
     else ret True))"

section \<open>Setting several fields\<close>

text \<open>
  \<^verbatim>\<open>PatchOLSConfig\<close> is a sequence of assignments to fields that do not contain one another.
  \<open>set_fields\<close> is such a sequence; under the contract of the nested-field functions its
  outcome does not depend on the order.
\<close>

fun set_fields :: "uns_lib \<Rightarrow> object \<Rightarrow> (string list \<times> json) list \<Rightarrow> object gores" where
  "set_fields U obj [] = GoOk obj"
| "set_fields U obj ((p, v) # fs) = resThen (SetNestedField U obj v p) (\<lambda>obj'. set_fields U obj' fs)"

definition apart :: "string list \<Rightarrow> string list \<Rightarrow> bool" where
  "apart p q \<longleftrightarrow> \<not> prefix p q \<and> \<not> prefix q p"

fun independent :: "string list list \<Rightarrow> bool" where
  "independent [] = True"
| "independent (p # ps) = (list_all (apart p) ps \<and> independent ps)"

lemma apart_commute: "apart p q \<longleftrightarrow> apart q p"
  by (auto simp: apart_def)

lemma set_fields_append:
  "set_fields U obj (fs @ gs) = resThen (set_fields U obj fs) (\<lambda>obj'. set_fields U obj' gs)"
  by (induction U obj fs rule: set_fields.induct) (simp_all add: resThen_assoc)

context nested_fields
begin

lemma set_top_field: "SetNestedField U obj v [f] = GoOk (obj(f \<mapsto> v))"
proof -
  obtain obj' where o: "SetNestedField U obj v [f] = GoOk obj'"
    using set_ok [of obj "[f]" v] by auto
  have "obj' k = (obj(f \<mapsto> v)) k" for k
    using set_get [OF o] set_other [OF o, of "[k]"] by (cases "k = f") simp_all
  with o show ?thesis by (auto simp: fun_eq_iff)
qed

lemma set_fields_other:
  "set_fields U obj fs = GoOk obj' \<Longrightarrow> list_all (\<lambda>f. apart (fst f) q) fs \<Longrightarrow>
   at_path obj' q = at_path obj q"
proof (induction fs arbitrary: obj)
  case (Cons f fs)
  obtain p v where f: "f = (p, v)" by (cases f)
  with Cons.prems obtain o1 where o1: "SetNestedField U obj v p = GoOk o1"
    "set_fields U o1 fs = GoOk obj'"
    by (auto simp: resThen_eq_GoOk)
  from Cons o1 f have "at_path obj' q = at_path o1 q" by simp
  also from o1 f Cons.prems have "\<dots> = at_path obj q" by (simp add: set_other apart_def)
  finally show ?case .
qed simp

lemma set_fields_settable:
  "set_fields U obj fs = GoOk obj' \<Longrightarrow> list_all (\<lambda>f. apart (fst f) q) fs \<Longrightarrow> settable obj q \<Longrightarrow>
   settable obj' q"
proof (induction fs arbitrary: obj)
  case (Cons f fs)
  then show ?case
    by (cases f) (auto simp: resThen_eq_GoOk apart_def dest: set_settable)
qed simp

lemma set_fields_get:
  "set_fields U obj fs = GoOk obj' \<Longrightarrow> independent (map fst fs) \<Longrightarrow> (p, v) \<in> set fs \<Longrightarrow>
   at_path obj' p = Some v"
proof (induction fs arbitrary: obj)
  case (Cons f fs)
  obtain q u where f: "f = (q, u)" by (cases f)
  with Cons.prems obtain o1 where o1: "SetNestedField U obj u q = GoOk o1"
    "set_fields U o1 fs = GoOk obj'"
    by (auto simp: resThen_eq_GoOk)
  show ?case
  proof (cases "(p, v) = (q, u)")
    case True
    have "list_all (\<lambda>g. apart (fst g) q) fs"
      using Cons.prems(2) f by (auto simp: list_all_iff apart_commute)
    with o1 have "at_path obj' q = at_path o1 q" by (blast intro: set_fields_other)
    with True o1 show ?thesis by (simp add: set_get)
  next
    case False
    with Cons o1 f show ?thesis by auto
  qed
qed simp

lemma set_fields_ok:
  "independent (map fst fs) \<Longrightarrow> list_all (\<lambda>f. settable obj (fst f)) fs \<Longrightarrow>
   \<exists>obj'. set_fields U obj fs = GoOk obj'"
proof (induction fs arbitrary: obj)
  case (Cons f fs)
  obtain p v where f: "f = (p, v)" by (cases f)
  with Cons.prems obtain o1 where o1: "SetNestedField U obj v p = GoOk o1"
    using set_ok by fastforce
  have "list_all (\<lambda>g. settable o1 (fst g)) fs"
    using Cons.prems f o1 by (auto simp: list_all_iff apart_def intro: set_settable)
  with Cons f o1 show ?case by simp
qed simp

end

section \<open>What PatchOLSConfig establishes\<close>

text \<open>
  The desired content, as a function of the instance alone and written out independently of the
  program: the provider field by field, the sources of documentation by what they are called in
  the images, and the table of the fields of \<^verbatim>\<open>spec\<close> that the operator manages.
\<close>

definition unless_empty :: "string \<Rightarrow> json option" where
  "unless_empty v = (if v = [] then None else Some (JString v))"

definition desired_provider :: "OpenStackLightspeed \<Rightarrow> object" where
  "desired_provider inst k =
     (if k = ''name'' then Some (JString ''openstack-lightspeed-provider'')
      else if k = ''url'' then Some (JString (LLMEndpoint (Spec inst)))
      else if k = ''type'' then Some (JString (LLMEndpointType (Spec inst)))
      else if k = ''credentialsSecretRef''
        then Some (JObject [''name'' \<mapsto> JString (LLMCredentials (Spec inst))])
      else if k = ''models''
        then Some (JArray [JObject [''name'' \<mapsto> JString (ModelName (Spec inst)), ''parameters'' \<mapsto> JObject
          [''maxTokensForResponse'' \<mapsto> JFloat (float64_of_int (MaxTokensForResponse (Spec inst)))]]])
      else if k = ''projectID'' then unless_empty (LLMProjectID (Spec inst))
      else if k = ''deploymentName'' then unless_empty (LLMDeploymentName (Spec inst))
      else if k = ''apiVersion'' then unless_empty (LLMAPIVersion (Spec inst))
      else None)"

definition database_source :: "string \<Rightarrow> string \<Rightarrow> string \<Rightarrow> json" where
  "database_source img path index =
     JObject [''image'' \<mapsto> JString img, ''indexPath'' \<mapsto> JString path, ''indexID'' \<mapsto> JString index]"

fun documented_sources :: "string \<Rightarrow> string \<Rightarrow> json list" where
  "documented_sources img [] =
     [JObject [''image'' \<mapsto> JString img, ''indexPath'' \<mapsto> JString ''/rag/vector_db/os_product_docs'']]"
| "documented_sources img (c # version) =
     documented_sources img [] @
     [database_source img (''/rag/ocp_vector_db/ocp_'' @ c # version)
        (''ocp-product-docs-'' @ map (\<lambda>x. if x = CHR ''.'' then CHR ''_'' else x) (c # version))]"

definition desired_fields :: "OpenStackLightspeed \<Rightarrow> (string list \<times> json) list" where
  "desired_fields inst =
     (let sp = Spec inst in
      [([''spec'', ''llm'', ''providers''], JArray [JObject (desired_provider inst)]),
       ([''spec'', ''ols'', ''rag''],
          JArray (documented_sources (RAGImage sp) (ActiveOCPRAGVersion (Status inst))))] @
      (if TLSCACertBundle sp \<noteq> []
       then [([''spec'', ''ols'', ''additionalCAConfigMapRef'', ''name''], JString (TLSCACertBundle sp))]
       else []) @
      [([''spec'', ''ols'', ''defaultModel''], JString (ModelName sp)),
       ([''spec'', ''ols'', ''defaultProvider''], JString ''openstack-lightspeed-provider''),
       ([''spec'', ''ols'', ''byokRAGOnly''], JBool True),
       ([''spec'', ''ols'', ''userDataCollection'', ''feedbackDisabled''], JBool (FeedbackDisabled sp)),
       ([''spec'', ''ols'', ''userDataCollection'', ''transcriptsDisabled''],
          JBool (TranscriptsDisabled sp)),
       ([''spec'', ''ols'', ''querySystemPrompt''], JString systemPrompt)])"

text \<open>The program builds this content.\<close>

lemma BuildRAGConfigs_documented: "BuildRAGConfigs inst v = documented_sources (RAGImage (Spec inst)) v"
  by (cases v)
    (simp_all add: BuildRAGConfigs_def database_source_def index_name.name_eq vector_db_path.name_eq
      ReplaceAll_def OpenStackLightspeedVectorDBPath_def)

lemma provider_built:
  "(let opt = (\<lambda>k v m. if v \<noteq> [] then m(k \<mapsto> JString v) else m) in
      opt ''apiVersion'' (LLMAPIVersion (Spec inst))
        (opt ''deploymentName'' (LLMDeploymentName (Spec inst))
          (opt ''projectID'' (LLMProjectID (Spec inst)) (provider_base inst)))) = desired_provider inst"
  by (simp add: fun_eq_iff provider_base_def desired_provider_def unless_empty_def
      OpenStackLightspeedDefaultProvider_def)

text \<open>The end of \<^verbatim>\<open>PatchOLSConfig\<close>: labels and finalizer.\<close>

definition claim_ownership ::
  "'w deps \<Rightarrow> Helper \<Rightarrow> OpenStackLightspeed \<Rightarrow> object \<Rightarrow> object gores" where
  "claim_ownership D helper inst cfg =
     resThen (SetNestedField (unsl D) cfg
         (JObject (\<lambda>k. map_option JString (updated_labels (osl_UID inst) (GetLabels (unsl D) cfg) k)))
         label_path) (\<lambda>cfg.
     (let (added, cfg') = uns_AddFinalizer (unsl D) cfg (GetFinalizer D helper) in
      if \<not> added \<and> osl_Conditions inst = None
      then GoErr (Errorf ''cannot add finalizer'' []) else GoOk cfg'))"

lemma desired_independent: "independent (map fst (desired_fields inst))"
  by (simp add: desired_fields_def Let_def apart_def)

lemma desired_apart_metadata:
  "list_all (\<lambda>f. apart (fst f) label_path) (desired_fields inst)"
  "list_all (\<lambda>f. apart (fst f) finalizer_path) (desired_fields inst)"
  by (simp_all add: desired_fields_def Let_def apart_def label_path_def finalizer_path_def)

lemma labels_apart_finalizers [simp]: "apart label_path finalizer_path"
  by (simp add: apart_def label_path_def finalizer_path_def)

lemma desired_field_apart:
  "(p, v) \<in> set (desired_fields inst) \<Longrightarrow> apart label_path p \<and> apart finalizer_path p"
  using desired_apart_metadata [of inst] by (auto simp: list_all_iff apart_commute)

lemma PatchOLSConfig_eq:
  assumes "nested_fields (unsl D)"
  shows "PatchOLSConfig D helper inst cfg =
           resThen (set_fields (unsl D) cfg (desired_fields inst)) (claim_ownership D helper inst)"
proof -
  note top = nested_fields.set_top_field [OF assms] and slice = nested_fields.set_slice [OF assms]
  show ?thesis
    unfolding PatchOLSConfig_def desired_fields_def claim_ownership_def label_path_def Let_def
    by (simp add: top slice provider_built [unfolded Let_def, symmetric] BuildRAGConfigs_documented
        GetSystemPrompt_def OpenStackLightspeedDefaultProvider_def resThen_assoc set_fields_append)
qed

text \<open>The labels of an object, as a nil or a map of strings.\<close>

definition labels_at :: "object \<Rightarrow> (string \<Rightarrow> string option) option \<Rightarrow> bool" where
  "labels_at cfg labels \<longleftrightarrow>
     at_path cfg label_path =
       (case labels of None \<Rightarrow> None | Some ls \<Rightarrow> Some (JObject (\<lambda>k. map_option JString (ls k))))"

context object_metadata
begin

lemma labels_at_GetLabels: "labels_at cfg labels \<Longrightarrow> GetLabels U cfg = labels"
  by (cases labels) (simp_all add: labels_at_def labels_none labels_some)

end

lemma claim_ownership_GoOk_iff:
  "claim_ownership D helper inst cfg = GoOk cfg' \<longleftrightarrow>
     (\<exists>c1. SetNestedField (unsl D) cfg
         (JObject (\<lambda>k. map_option JString (updated_labels (osl_UID inst) (GetLabels (unsl D) cfg) k)))
         label_path = GoOk c1 \<and>
       (osl_Conditions inst = None \<longrightarrow> fst (uns_AddFinalizer (unsl D) c1 (GetFinalizer D helper))) \<and>
       cfg' = snd (uns_AddFinalizer (unsl D) c1 (GetFinalizer D helper)))"
  by (auto simp: claim_ownership_def resThen_eq_GoOk case_prod_beta split: if_splits)

lemma claim_ownership_ok:
  assumes "nested_fields (unsl D)" and "settable cfg label_path" and "osl_Conditions inst \<noteq> None"
  shows "\<exists>cfg'. claim_ownership D helper inst cfg = GoOk cfg'"
  using nested_fields.set_ok [OF assms(1,2)] assms(3) by (auto simp: claim_ownership_GoOk_iff)

lemma claim_ownership_other:
  assumes "object_metadata (unsl D)" and "claim_ownership D helper inst cfg = GoOk cfg'"
    and "apart label_path q" and "apart finalizer_path q"
  shows "at_path cfg' q = at_path cfg q"
proof -
  note meta = object_metadata.add_finalizer_other [OF assms(1)]
    and other = nested_fields.set_other [OF object_metadata.axioms(1) [OF assms(1)]]
  from assms(2) obtain c1 v where c1: "SetNestedField (unsl D) cfg v label_path = GoOk c1"
    and c': "cfg' = snd (uns_AddFinalizer (unsl D) c1 (GetFinalizer D helper))"
    by (auto simp: claim_ownership_GoOk_iff)
  from c' assms(4) have "at_path cfg' q = at_path c1 q" by (simp add: meta apart_def)
  also from c1 assms(3) have "\<dots> = at_path cfg q" by (simp add: other apart_def)
  finally show ?thesis .
qed

lemma claim_ownership_labels:
  assumes "object_metadata (unsl D)" and "claim_ownership D helper inst cfg = GoOk cfg'"
  shows "labels_at cfg' (Some (updated_labels (osl_UID inst) (GetLabels (unsl D) cfg)))"
proof -
  note meta = object_metadata.add_finalizer_other [OF assms(1)]
    and get = nested_fields.set_get [OF object_metadata.axioms(1) [OF assms(1)]]
  from assms(2) obtain c1 where c1: "SetNestedField (unsl D) cfg
      (JObject (\<lambda>k. map_option JString (updated_labels (osl_UID inst) (GetLabels (unsl D) cfg) k)))
      label_path = GoOk c1"
    and c': "cfg' = snd (uns_AddFinalizer (unsl D) c1 (GetFinalizer D helper))"
    by (auto simp: claim_ownership_GoOk_iff)
  have "at_path cfg' label_path = at_path c1 label_path"
    using labels_apart_finalizers unfolding c' by (simp add: meta apart_def)
  with get [OF c1] show ?thesis by (simp add: labels_at_def)
qed

lemma PatchOLSConfig_GoOkE:
  assumes "object_metadata (unsl D)" and "PatchOLSConfig D helper inst cfg = GoOk cfg'"
  obtains c1 where "set_fields (unsl D) cfg (desired_fields inst) = GoOk c1"
    and "claim_ownership D helper inst c1 = GoOk cfg'"
  using assms by (auto simp: PatchOLSConfig_eq object_metadata.axioms(1) resThen_eq_GoOk)

lemma PatchOLSConfig_labels:
  assumes "object_metadata (unsl D)" and "PatchOLSConfig D helper inst cfg = GoOk cfg'"
    and "labels_at cfg labels"
  shows "labels_at cfg' (Some (updated_labels (osl_UID inst) labels))"
proof -
  obtain c1 where c1: "set_fields (unsl D) cfg (desired_fields inst) = GoOk c1"
    and c': "claim_ownership D helper inst c1 = GoOk cfg'"
    using assms(1,2) by (rule PatchOLSConfig_GoOkE)
  have "at_path c1 label_path = at_path cfg label_path"
    by (rule nested_fields.set_fields_other [OF object_metadata.axioms(1) [OF assms(1)] c1
          desired_apart_metadata(1)])
  with assms(3) have "labels_at c1 labels" by (simp add: labels_at_def)
  then have "GetLabels (unsl D) c1 = labels"
    by (rule object_metadata.labels_at_GetLabels [OF assms(1)])
  with claim_ownership_labels [OF assms(1) c'] show ?thesis by simp
qed

lemma PatchOLSConfig_desired:
  assumes "object_metadata (unsl D)" and "PatchOLSConfig D helper inst cfg = GoOk cfg'"
    and "(p, v) \<in> set (desired_fields inst)"
  shows "at_path cfg' p = Some v"
proof -
  note nf = object_metadata.axioms(1) [OF assms(1)]
  obtain c1 where c1: "set_fields (unsl D) cfg (desired_fields inst) = GoOk c1"
    and c': "claim_ownership D helper inst c1 = GoOk cfg'"
    using assms(1,2) by (rule PatchOLSConfig_GoOkE)
  have "at_path cfg' p = at_path c1 p"
    using claim_ownership_other [OF assms(1) c'] desired_field_apart [OF assms(3)] by blast
  with nested_fields.set_fields_get [OF nf c1 desired_independent assms(3)] show ?thesis by simp
qed

lemma PatchOLSConfig_other:
  assumes "object_metadata (unsl D)" and "PatchOLSConfig D helper inst cfg = GoOk cfg'"
    and "list_all (\<lambda>f. apart (fst f) q) (desired_fields inst)"
    and "apart label_path q" and "apart finalizer_path q"
  shows "at_path cfg' q = at_path cfg q"
proof -
  obtain c1 where c1: "set_fields (unsl D) cfg (desired_fields inst) = GoOk c1"
    and c': "claim_ownership D helper inst c1 = GoOk cfg'"
    using assms(1,2) by (rule PatchOLSConfig_GoOkE)
  from claim_ownership_other [OF assms(1) c' assms(4,5)] have "at_path cfg' q = at_path c1 q" .
  also have "\<dots> = at_path cfg q"
    by (rule nested_fields.set_fields_other [OF object_metadata.axioms(1) [OF assms(1)] c1 assms(3)])
  finally show ?thesis .
qed

lemma PatchOLSConfig_ok:
  assumes "object_metadata (unsl D)" and "osl_Conditions inst \<noteq> None"
    and "list_all (\<lambda>f. settable cfg (fst f)) (desired_fields inst)" and "settable cfg label_path"
  shows "\<exists>cfg'. PatchOLSConfig D helper inst cfg = GoOk cfg'"
proof -
  note nf = object_metadata.axioms(1) [OF assms(1)]
  obtain c1 where c1: "set_fields (unsl D) cfg (desired_fields inst) = GoOk c1"
    using nested_fields.set_fields_ok [OF nf desired_independent assms(3)] by blast
  have "settable c1 label_path"
    using nested_fields.set_fields_settable [OF nf c1 desired_apart_metadata(1) assms(4)] .
  with claim_ownership_ok [OF nf _ assms(2)] c1 show ?thesis
    by (simp add: PatchOLSConfig_eq [OF nf])
qed

lemma sample_patch_ok: "\<exists>cfg'. PatchOLSConfig (ref_deps env) h sample_instance Map.empty = GoOk cfg'"
proof (rule PatchOLSConfig_ok)
  show "object_metadata (unsl (ref_deps env))" by simp
  show "osl_Conditions sample_instance \<noteq> None" by (simp add: sample_instance_def)
qed (simp_all add: desired_fields_def Let_def label_path_def list_all_iff)

section \<open>Properties of the patch\<close>

text \<open>
  C12: after a patch that succeeded, every field that the operator manages has the value that
  the instance asks for, as the table \<open>desired_fields\<close> lists it: the provider with its optional
  fields, the sources of documentation with their paths and index names, the CA bundle, the
  default model and provider, the data collection switches and the system prompt.
\<close>

theorem patch_establishes_desired:
  assumes "object_metadata (unsl D)" and "PatchOLSConfig D helper inst cfg = GoOk cfg'"
    and "(p, v) \<in> set (desired_fields inst)"
  shows "at_path cfg' p = Some v"
  using assms by (rule PatchOLSConfig_desired)

theorem patch_establishes_desired_witness:
  "\<exists>cfg'. PatchOLSConfig (ref_deps sample_env) sample_instance sample_instance Map.empty = GoOk cfg' \<and>
     at_path cfg' [''spec'', ''ols'', ''defaultModel''] = Some (JString ''granite'')"
proof -
  obtain cfg' where p:
    "PatchOLSConfig (ref_deps sample_env) sample_instance sample_instance Map.empty = GoOk cfg'"
    using sample_patch_ok by blast
  have "([''spec'', ''ols'', ''defaultModel''], JString ''granite'') \<in> set (desired_fields sample_instance)"
    by (simp add: desired_fields_def Let_def sample_instance_def sample_spec_def)
  from patch_establishes_desired [OF _ p this] p show ?thesis
    by simp
qed

text \<open>
  C28: a patch leaves everything else of the \<^verbatim>\<open>OLSConfig\<close> as it was: a field that neither
  contains nor is contained in a managed field, the labels or the finalizers keeps its value.
\<close>

theorem patch_keeps_unmanaged:
  assumes "object_metadata (unsl D)" and "PatchOLSConfig D helper inst cfg = GoOk cfg'"
    and "list_all (\<lambda>f. apart (fst f) q) (desired_fields inst)"
    and "apart label_path q" and "apart finalizer_path q"
  shows "at_path cfg' q = at_path cfg q"
  using assms by (rule PatchOLSConfig_other)

theorem patch_keeps_unmanaged_witness:
  "\<exists>cfg'. PatchOLSConfig (ref_deps sample_env) sample_instance sample_instance Map.empty = GoOk cfg' \<and>
     at_path cfg' [''spec'', ''ols'', ''logLevel''] = at_path Map.empty [''spec'', ''ols'', ''logLevel'']"
proof -
  obtain cfg' where p:
    "PatchOLSConfig (ref_deps sample_env) sample_instance sample_instance Map.empty = GoOk cfg'"
    using sample_patch_ok by blast
  have "at_path cfg' [''spec'', ''ols'', ''logLevel''] = at_path Map.empty [''spec'', ''ols'', ''logLevel'']"
    by (rule patch_keeps_unmanaged [OF _ p])
      (simp_all add: desired_fields_def Let_def apart_def
        label_path_def finalizer_path_def)
  with p show ?thesis by blast
qed

text \<open>
  C31: a patch fails only for the shape of the object it is given: with a status that has
  conditions, an object in which no managed path runs into a value that is not an object is
  always patched, in particular an empty one.
\<close>

theorem patch_never_fails_on_objects:
  assumes "object_metadata (unsl D)" and "osl_Conditions inst \<noteq> None"
    and "list_all (\<lambda>f. settable cfg (fst f)) (desired_fields inst)" and "settable cfg label_path"
  shows "\<exists>cfg'. PatchOLSConfig D helper inst cfg = GoOk cfg'"
  using assms by (rule PatchOLSConfig_ok)

theorem patch_never_fails_on_objects_witness:
  "\<exists>cfg'. PatchOLSConfig (ref_deps sample_env) sample_instance sample_instance Map.empty = GoOk cfg'"
  by (rule patch_never_fails_on_objects)
    (simp_all add: sample_instance_def desired_fields_def Let_def
      label_path_def)

text \<open>
  Ownership. After a patch the labels are the ones the object had, all unchanged, with the
  owner label added for the instance if the object had no such label.
\<close>

lemma patch_labels:
  assumes "object_metadata (unsl D)" and "PatchOLSConfig D helper inst cfg = GoOk cfg'"
    and "labels_at cfg labels"
  shows "GetLabels (unsl D) cfg' = Some (updated_labels (osl_UID inst) labels)"
  using object_metadata.labels_at_GetLabels [OF assms(1)] PatchOLSConfig_labels [OF assms] by blast

section \<open>The RAG list\<close>

fun rag_field :: "string \<Rightarrow> json \<Rightarrow> json option" where
  "rag_field k (JObject m) = m k"
| "rag_field k _ = None"

text \<open>
  The RAG list names the image of the instance in every entry and no database path
  twice; the OpenStack database always comes first, and there is an entry for OpenShift
  exactly when a version is active.
\<close>

lemma rag_configs_shape:
  "list_all (\<lambda>r. rag_field ''image'' r = Some (JString (RAGImage (Spec inst)))) (BuildRAGConfigs inst v) \<and>
   distinct (map (rag_field ''indexPath'') (BuildRAGConfigs inst v)) \<and>
   map (rag_field ''indexPath'') (BuildRAGConfigs inst v) =
     map (Some \<circ> JString) (OpenStackLightspeedVectorDBPath # map GetOCPVectorDBPath (filter (\<lambda>x. x \<noteq> []) [v]))"
proof -
  have "OpenStackLightspeedVectorDBPath \<noteq> GetOCPVectorDBPath v"
    by (simp add: vector_db_path.name_eq OpenStackLightspeedVectorDBPath_def)
  then show ?thesis by (simp add: BuildRAGConfigs_def)
qed

section \<open>Finding, removing and checking the OLSConfig\<close>

fun is_olsconfig_list :: "api_call \<Rightarrow> bool" where
  "is_olsconfig_list ListOLSConfigs = True"
| "is_olsconfig_list c = False"

fun is_olsconfig_removal :: "api_call \<Rightarrow> bool" where
  "is_olsconfig_removal ListOLSConfigs = True"
| "is_olsconfig_removal (CreateOrPatchOLSConfig obj) = True"
| "is_olsconfig_removal (DeleteOLSConfig obj) = True"
| "is_olsconfig_removal c = False"

fun is_olsconfig_check :: "api_call \<Rightarrow> bool" where
  "is_olsconfig_check ListOLSConfigs = True"
| "is_olsconfig_check (RandInt m) = True"
| "is_olsconfig_check (UpdateOLSConfig obj) = True"
| "is_olsconfig_check c = False"

lemma emits_GetOLSConfig [emits_intros]:
  assumes "A ListOLSConfigs"
  shows "emits A (GetOLSConfig D)"
  unfolding GetOLSConfig_def using assms by (auto intro!: emits_intros split: list.split)

lemma emits_RemoveOLSConfig [emits_intros]:
  assumes "A ListOLSConfigs" "\<And>obj. A (CreateOrPatchOLSConfig obj)" "\<And>obj. A (DeleteOLSConfig obj)"
  shows "emits A (RemoveOLSConfig D h i)"
  unfolding RemoveOLSConfig_def using assms by (intro emits_intros)

lemma emits_OLSConfigPing [emits_intros]:
  assumes "A ListOLSConfigs" "\<And>m. A (RandInt m)" "\<And>obj. A (UpdateOLSConfig obj)"
  shows "emits A (OLSConfigPing D)"
  unfolding OLSConfigPing_def Let_def using assms by (intro emits_intros)

lemma emits_IsOLSConfigReady [emits_intros]:
  assumes "A ListOLSConfigs" "\<And>m. A (RandInt m)" "\<And>obj. A (UpdateOLSConfig obj)"
  shows "emits A (IsOLSConfigReady D)"
  unfolding IsOLSConfigReady_def using assms by (intro emits_intros)

interpretation get_olsconfig: footprint "GetOLSConfig D" is_olsconfig_list for D :: "'w deps"
  by unfold_locales (simp add: emits_GetOLSConfig)

interpretation remove_olsconfig: footprint "RemoveOLSConfig D h i" is_olsconfig_removal
  for D :: "'w deps" and h i
  by unfold_locales (simp add: emits_RemoveOLSConfig)

interpretation olsconfig_ready: footprint "IsOLSConfigReady D" is_olsconfig_check for D :: "'w deps"
  by unfold_locales (simp add: emits_IsOLSConfigReady)

lemma GetOLSConfig_GoOk:
  "GetOLSConfig D s = (GoOk cfg, t) \<longleftrightarrow>
     (\<exists>rest w'. list_olsconfigs (cli D) (world s) = (Inr (cfg # rest), w') \<and>
        t = s\<lparr>world := w', calls := calls s @ [ListOLSConfigs]\<rparr>)"
  by (auto simp: GetOLSConfig_def andThen_run perform_def split: prod.splits sum.splits list.splits)

lemma GetOLSConfig_empty:
  "list_olsconfigs (cli D) (world s) = (Inr [], w') \<Longrightarrow>
   GetOLSConfig D s = (GoErr (NewNotFound D ''ols.openshifg.io'' ''olsconfigs'' ''OLSConfig''),
     s\<lparr>world := w', calls := calls s @ [ListOLSConfigs]\<rparr>)"
  by (simp add: GetOLSConfig_def andThen_run perform_def)

lemma remove_when_none:
  assumes "client_contract D" and "list_olsconfigs (cli D) (world s) = (Inr [], w')"
  shows "RemoveOLSConfig D helper inst s =
           (GoOk True, s\<lparr>world := w', calls := calls s @ [ListOLSConfigs]\<rparr>)"
  unfolding RemoveOLSConfig_def
  by (simp add: onErr_run GetOLSConfig_empty [OF assms(2)] client_contract.not_found [OF assms(1)])

text \<open>
  Removal reports success only on the evidence of a listing: the last thing it did was to
  look for the \<^verbatim>\<open>OLSConfig\<close> and to be told that there is none.
\<close>

lemma remove_true_means_gone:
  assumes "RemoveOLSConfig D helper inst s = (GoOk True, t)"
  shows "\<exists>s' e. GetOLSConfig D s' = (GoErr e, t) \<and> IsNotFound D e"
  using assms unfolding RemoveOLSConfig_def onErr_eq_GoOk andThen_eq_GoOk
  by (auto simp: andThen_eq_GoOk onErr_eq_GoOk split: if_splits)

text \<open>
  The ownership check of the removal guards the finalizer only. Whoever owns the
  \<^verbatim>\<open>OLSConfig\<close>, once the patch call returns the object is deleted.
\<close>

lemma remove_deletes_whoever_owns:
  assumes "GetOLSConfig D s = (GoOk cfg, t)"
    and "create_or_patch_olsconfig (cli D) cfg (RemoveOLSConfig_mutate D helper inst) (world t) =
           (Inr (res, cfg'), w2)"
  shows "DeleteOLSConfig cfg' \<in> set (calls (snd (RemoveOLSConfig D helper inst s)))"
proof -
  let ?s2 = "t\<lparr>world := w2, calls := calls t @ [CreateOrPatchOLSConfig cfg]\<rparr>"
  let ?m = "perform (DeleteOLSConfig cfg') (delete_olsconfig (cli D) cfg')"
  let ?f = "\<lambda>_. onErr (GetOLSConfig D)
      (\<lambda>err. if IsNotFound D err then ret True else fail err) (\<lambda>_. ret False)"
  have "RemoveOLSConfig D helper inst s = andThen ?m ?f ?s2"
    by (simp add: RemoveOLSConfig_def onErr_run andThen_run assms perform_def)
  moreover have "DeleteOLSConfig cfg' \<in> set (calls (snd (?m ?s2)))"
    by (simp add: perform_def split: prod.split)
  moreover have "emits (\<lambda>c. True) (?f x)" for x by (intro emits_intros TrueI)
  ultimately show ?thesis by (simp add: andThen_keeps_calls)
qed

text \<open>An \<^verbatim>\<open>OLSConfig\<close> labelled by the instance with the given identifier, with a list of finalizers.\<close>

definition owned_config :: "string \<Rightarrow> string list \<Rightarrow> object" where
  "owned_config uid fs = [''metadata'' \<mapsto> JObject
     [''labels'' \<mapsto> JObject [OpenStackLightspeedOwnerIDLabel \<mapsto> JString uid],
      ''finalizers'' \<mapsto> JArray (map JString fs)]]"

text \<open>
  A second removal attempt on an \<^verbatim>\<open>OLSConfig\<close> that is ours and waits for someone else's
  finalizer cannot succeed: our finalizer is already gone and the mutate function refuses.
\<close>

lemma remove_retry_refused:
  assumes "object_metadata (unsl D)"
    and "label_of (GetLabels (unsl D) cfg) OpenStackLightspeedOwnerIDLabel = osl_UID inst"
    and "osl_UID inst \<noteq> []" and "GetFinalizer D helper \<notin> set (GetFinalizers (unsl D) cfg)"
  shows "RemoveOLSConfig_mutate D helper inst cfg = GoErr (ErrorString ''remove finalizer failed'')"
  using assms(2-4) object_metadata.remove_finalizer_result [OF assms(1), of cfg "GetFinalizer D helper"]
  by (simp add: RemoveOLSConfig_mutate_def Let_def Errorf_def case_prod_beta)

section \<open>Readiness and the ping\<close>

text \<open>
  \<^verbatim>\<open>IsOLSConfigReady\<close> answers true only for an \<^verbatim>\<open>OLSConfig\<close> whose overall status it has just
  read as Ready; in that case it wrote nothing.
\<close>

lemma ready_means_status_ready:
  assumes "nested_fields (unsl D)" and "IsOLSConfigReady D s = (GoOk True, t)"
  shows "\<exists>cfg. GetOLSConfig D s = (GoOk cfg, t) \<and>
           at_path cfg [''status'', ''overallStatus''] = Some (JString ''Ready'')"
  using assms(2) unfolding IsOLSConfigReady_def andThen_eq_GoOk
  by (auto simp: andThen_eq_GoOk nested_fields.string_found [OF assms(1)] split: if_splits)

definition ready_config :: object where
  "ready_config = [''status'' \<mapsto> JObject [''overallStatus'' \<mapsto> JString ''Ready'']]"

text \<open>
  When the answer is false without an error, the \<^verbatim>\<open>OLSConfig\<close> has just been pinged: the last
  call updates it with its own labels and the decimal form of a random number under the
  ping label.
\<close>

lemma not_ready_pings:
  assumes "IsOLSConfigReady D s = (GoOk False, t)"
  shows "\<exists>cfg r. last (calls t) = UpdateOLSConfig (SetLabels (unsl D) cfg
           ((case GetLabels (unsl D) cfg of None \<Rightarrow> Map.empty | Some ls \<Rightarrow> ls)
              (randomLabelKey \<mapsto> FormatInt (sint (word_of_int r :: goint)))))"
  using assms unfolding IsOLSConfigReady_def OLSConfigPing_def andThen_eq_GoOk Let_def
  by (fastforce simp: andThen_eq_GoOk perform_eq_GoOk split: if_splits)

lemma FormatInt_0: "FormatInt 0 = ''0''"
  by (simp add: FormatInt_def format_nat.simps [of 0] digit_char_def)

end
