(* ===== verification/OLS_Install.thy ===== *)
theory OLS_Install
  imports Kube_Reference
begin

text \<open>
  \<^verbatim>\<open>internal/controller/ols_install.go\<close>: installing the OpenShift Lightspeed operator through
  the Operator Lifecycle Manager (subscription, install plan, cluster service version),
  recognising an installation that is not ours, and uninstalling our own.
\<close>

section \<open>Definitions\<close>

definition OLSOperatorName :: string where
  "OLSOperatorName = ''lightspeed-operator''"

definition GetRecommendedOLSVersion :: "'w deps \<Rightarrow> string gores" where
  "GetRecommendedOLSVersion D =
     (let version = Getenv D ''OPENSHIFT_LIGHTSPEED_OPERATOR_VERSION'' in
      if version = [] then
        GoErr (ErrorString ''environment variable OPENSHIFT_LIGHTSPEED_OPERATOR_VERSION is not set'')
      else if version = ''latest'' then GoOk []
      else GoOk version)"

definition GetOLSSubscriptionName :: "OpenStackLightspeed \<Rightarrow> string gores" where
  "GetOLSSubscriptionName inst =
     resThen (slice_to (osl_UID inst) 5) (\<lambda>uid5. GoOk (Sprintf ''%s-%s'' [OLSOperatorName, uid5]))"

definition SetStartingCSV :: "'w deps \<Rightarrow> Subscription \<Rightarrow> Subscription gores" where
  "SetStartingCSV D subscription =
     resThen (GetRecommendedOLSVersion D) (\<lambda>recommendedVersion.
     if recommendedVersion \<noteq> [] then
       (case sub_Spec subscription of
          None \<Rightarrow> GoPanic ''invalid memory address or nil pointer dereference''
        | Some spec \<Rightarrow> GoOk (subscription\<lparr>sub_Spec := Some (spec\<lparr>subs_StartingCSV :=
            Sprintf ''%s.v%s'' [OLSOperatorName, recommendedVersion]\<rparr>)\<rparr>))
     else GoOk subscription)"

text \<open>The loop of \<^verbatim>\<open>GetOLSOperatorCSV\<close> and the two nested loops of \<^verbatim>\<open>GetOLSOperatorInstallPlan\<close>.\<close>

fun find_ols_csv :: "ClusterServiceVersion list \<Rightarrow> ClusterServiceVersion option" where
  "find_ols_csv [] = None"
| "find_ols_csv (csv # rest) =
     (if HasPrefix (meta_Name (csv_Meta csv)) OLSOperatorName then Some csv else find_ols_csv rest)"

fun has_ols_csv_name :: "string \<Rightarrow> string list \<Rightarrow> bool" where
  "has_ols_csv_name version [] = False"
| "has_ols_csv_name version (csvName # rest) =
     (if HasPrefix csvName OLSOperatorName \<and> HasSuffix csvName version then True
      else has_ols_csv_name version rest)"

fun find_ols_plan :: "string \<Rightarrow> InstallPlan list \<Rightarrow> InstallPlan option" where
  "find_ols_plan version [] = None"
| "find_ols_plan version (installPlan # rest) =
     (if has_ols_csv_name version (ip_ClusterServiceVersionNames installPlan) then Some installPlan
      else find_ols_plan version rest)"

definition GetOLSOperatorCSV :: "'w deps \<Rightarrow> ('w, ClusterServiceVersion option) op" where
  "GetOLSOperatorCSV D =
     andThen (GetRawClient D) (\<lambda>_.
     onErr (perform (ListCSVs []) (raw_list_csvs (cli D) []))
       (\<lambda>err. if IsNotFound D err then ret None else fail err)
       (\<lambda>items. ret (find_ols_csv items)))"

definition GetOLSOperatorInstallPlan ::
  "'w deps \<Rightarrow> OpenStackLightspeed \<Rightarrow> ('w, InstallPlan option) op" where
  "GetOLSOperatorInstallPlan D inst =
     andThen (perform (ListInstallPlans (osl_Namespace inst))
       (list_install_plans (cli D) (osl_Namespace inst))) (\<lambda>items.
     andThen (lift_res (GetRecommendedOLSVersion D)) (\<lambda>recommendedOLSVersion.
     ret (find_ols_plan recommendedOLSVersion items)))"

definition ApproveOLSOperatorInstallPlan ::
  "'w deps \<Rightarrow> OpenStackLightspeed \<Rightarrow> ('w, bool) op" where
  "ApproveOLSOperatorInstallPlan D inst =
     andThen (GetOLSOperatorInstallPlan D inst) (\<lambda>installPlan.
     case installPlan of
       None \<Rightarrow> ret False
     | Some plan \<Rightarrow>
         (let plan' = plan\<lparr>ip_Approved := True\<rparr> in
          andThen (perform (UpdateInstallPlan plan') (update_install_plan (cli D) plan')) (\<lambda>_.
          ret True)))"

definition DeleteOLSOperatorInstallPlan ::
  "'w deps \<Rightarrow> OpenStackLightspeed \<Rightarrow> ('w, bool) op" where
  "DeleteOLSOperatorInstallPlan D inst =
     andThen (GetOLSOperatorInstallPlan D inst) (\<lambda>installPlan.
     case installPlan of
       None \<Rightarrow> ret True
     | Some plan \<Rightarrow>
         onErr (perform (DeleteInstallPlan plan) (delete_install_plan (cli D) plan))
           (\<lambda>err. if IsNotFound D err then ret True else fail err)
           (\<lambda>_. ret True))"

definition InstanceOwnedOLSOperatorComplete ::
  "'w deps \<Rightarrow> OpenStackLightspeed \<Rightarrow> ('w, bool) op" where
  "InstanceOwnedOLSOperatorComplete D inst =
     andThen (GetOLSOperatorCSV D) (\<lambda>csvOpt.
     case csvOpt of
       None \<Rightarrow> ret False
     | Some csv \<Rightarrow>
         ret (IsOwnedBy (csv_Meta csv) (osl_Meta inst) \<and> csv_Phase csv = CSVPhaseSucceeded))"

definition instanceOwnerReference :: "OpenStackLightspeed \<Rightarrow> OwnerReference list" where
  "instanceOwnerReference inst =
     [\<lparr>ref_APIVersion = tm_APIVersion (osl_TypeMeta inst), ref_Kind = tm_Kind (osl_TypeMeta inst),
       ref_Name = meta_Name (osl_Meta inst), ref_UID = osl_UID inst,
       ref_Controller = Some True, ref_BlockOwnerDeletion = Some True\<rparr>]"

text \<open>The mutate function given to \<^verbatim>\<open>CreateOrUpdate\<close>.\<close>

definition subscription_mutate ::
  "'w deps \<Rightarrow> OpenStackLightspeed \<Rightarrow> Subscription \<Rightarrow> Subscription gores" where
  "subscription_mutate D inst subscription =
     (let spec = \<lparr>subs_Channel = ''stable'', subs_InstallPlanApproval = ApprovalManual,
            subs_CatalogSource = CatalogSourceName (Spec inst),
            subs_CatalogSourceNamespace = CatalogSourceNamespace (Spec inst),
            subs_Package = OLSOperatorName, subs_StartingCSV = []\<rparr> in
      resThen (SetStartingCSV D (subscription\<lparr>sub_Spec := Some spec\<rparr>)) (\<lambda>sub.
      GoOk (sub\<lparr>sub_Meta := (sub_Meta sub)\<lparr>meta_OwnerReferences := instanceOwnerReference inst\<rparr>\<rparr>)))"

definition InstallInstanceOwnedOLSOperator ::
  "'w deps \<Rightarrow> OpenStackLightspeed \<Rightarrow> ('w, bool) op" where
  "InstallInstanceOwnedOLSOperator D inst =
     andThen (lift_res (GetOLSSubscriptionName inst)) (\<lambda>name.
     let subscription = empty_Subscription\<lparr>sub_Meta :=
           empty_ObjectMeta\<lparr>meta_Name := name, meta_Namespace := osl_Namespace inst\<rparr>\<rparr> in
     andThen (perform (CreateOrUpdateSubscription subscription)
         (create_or_update_subscription (cli D) subscription (subscription_mutate D inst)))
       (\<lambda>(opResult, subscription).
     if opResult \<noteq> OperationResultNone \<or> sub_InstallPlanRef subscription = None then ret False
     else
       andThen (ApproveOLSOperatorInstallPlan D inst) (\<lambda>installPlanApproved.
       if \<not> installPlanApproved then ret False
       else
         andThen (GetOLSOperatorCSV D) (\<lambda>csvOpt.
         case csvOpt of
           None \<Rightarrow> ret False
         | Some csv \<Rightarrow>
             (let csv' = csv\<lparr>csv_Meta :=
                    (csv_Meta csv)\<lparr>meta_OwnerReferences := instanceOwnerReference inst\<rparr>\<rparr> in
              onErr (perform (UpdateCSV csv') (update_csv (cli D) csv'))
                (\<lambda>err. if IsConflict D err then ret False else fail err)
                (\<lambda>_. InstanceOwnedOLSOperatorComplete D inst))))))"

definition IsUserInstalledOLSOperatorMode ::
  "'w deps \<Rightarrow> OpenStackLightspeed \<Rightarrow> ('w, bool) op" where
  "IsUserInstalledOLSOperatorMode D inst =
     andThen (GetOLSOperatorCSV D) (\<lambda>csvOpt.
     case csvOpt of
       None \<Rightarrow> ret False
     | Some csv \<Rightarrow>
         andThen (lift_res (GetOLSSubscriptionName inst)) (\<lambda>name.
         let key = \<lparr>nn_Namespace = osl_Namespace inst, nn_Name = name\<rparr>;
             userInstalledMode = (\<lambda>subscription.
               \<not> IsOwnedBy (csv_Meta csv) (osl_Meta inst) \<and>
               \<not> IsOwnedBy (sub_Meta subscription) (osl_Meta inst)) in
         onErr (perform (GetSubscription key) (get_subscription (cli D) key))
           (\<lambda>err. if \<not> IsNotFound D err then fail err else ret (userInstalledMode empty_Subscription))
           (\<lambda>subscription. ret (userInstalledMode subscription))))"

definition user_installed_error :: goerr where
  "user_installed_error = ErrorString
     (''detected an existing OpenShift Lightspeed operator installation. '' @
      ''Please uninstall OpenShift Lightspeed operator and allow the '' @
      ''OpenStack Lightspeed operator to manage its installation automatically'')"

definition EnsureOLSOperatorInstalled ::
  "'w deps \<Rightarrow> OpenStackLightspeed \<Rightarrow> ('w, bool) op" where
  "EnsureOLSOperatorInstalled D inst =
     andThen (IsUserInstalledOLSOperatorMode D inst) (\<lambda>isUserInstalledOLSOperator.
     if isUserInstalledOLSOperator then fail user_installed_error
     else andThen (InstallInstanceOwnedOLSOperator D inst) ret)"

definition UninstallInstanceOwnedOLSOperator ::
  "'w deps \<Rightarrow> OpenStackLightspeed \<Rightarrow> ('w, bool) op" where
  "UninstallInstanceOwnedOLSOperator D inst =
     andThen (GetOLSOperatorCSV D) (\<lambda>csvOpt.
     case csvOpt of
       None \<Rightarrow> ret True
     | Some csv \<Rightarrow>
         if \<not> IsOwnedBy (csv_Meta csv) (osl_Meta inst) then ret True
         else
           andThen (DeleteOLSOperatorInstallPlan D inst) (\<lambda>_.
           andThen (perform (DeleteCSV csv) (delete_csv (cli D) csv)) (\<lambda>_.
           andThen (GetOLSOperatorCSV D) (\<lambda>csvOpt'.
           case csvOpt' of
             Some _ \<Rightarrow> ret False
           | None \<Rightarrow>
               andThen (GetOLSOperatorInstallPlan D inst) (\<lambda>planOpt.
               case planOpt of Some _ \<Rightarrow> ret False | None \<Rightarrow> ret True)))))"

section \<open>Names and versions\<close>

lemma Sprintf_subscription_name: "Sprintf ''%s-%s'' [a, b] = a @ CHR ''-'' # b"
  by simp

lemma Sprintf_starting_csv: "Sprintf ''%s.v%s'' [a, b] = a @ ''.v'' @ b"
  by simp

lemma has_ols_csv_name_iff:
  "has_ols_csv_name version names \<longleftrightarrow>
     (\<exists>n\<in>set names. HasPrefix n OLSOperatorName \<and> HasSuffix n version)"
  by (induction version names rule: has_ols_csv_name.induct) auto

abbreviation is_ols_csv :: "ClusterServiceVersion \<Rightarrow> bool" where
  "is_ols_csv csv \<equiv> HasPrefix (meta_Name (csv_Meta csv)) OLSOperatorName"

abbreviation is_ols_plan :: "string \<Rightarrow> InstallPlan \<Rightarrow> bool" where
  "is_ols_plan version plan \<equiv> has_ols_csv_name version (ip_ClusterServiceVersionNames plan)"

interpretation csv_search: first_match is_ols_csv find_ols_csv
  by unfold_locales simp_all

interpretation plan_search: first_match "is_ols_plan version" "find_ols_plan version" for version
  by unfold_locales simp_all

lemma recommended_version_GoOk:
  "GetRecommendedOLSVersion D = GoOk v \<longleftrightarrow>
     Getenv D ''OPENSHIFT_LIGHTSPEED_OPERATOR_VERSION'' \<noteq> [] \<and>
     v = (if Getenv D ''OPENSHIFT_LIGHTSPEED_OPERATOR_VERSION'' = ''latest'' then []
          else Getenv D ''OPENSHIFT_LIGHTSPEED_OPERATOR_VERSION'')"
  by (auto simp: GetRecommendedOLSVersion_def Let_def)

lemma recommended_version_no_panic: "GetRecommendedOLSVersion D \<noteq> GoPanic p"
  by (simp add: GetRecommendedOLSVersion_def Let_def)

text \<open>
  The subscription name takes the first five characters of the identifier. Five characters
  are enough to return; a shorter identifier is a run-time panic.
\<close>

lemma subscription_name_cases:
  "GetOLSSubscriptionName inst =
     (if length (osl_UID inst) < 5 then GoPanic ''slice bounds out of range''
      else GoOk (OLSOperatorName @ ''-'' @ take 5 (osl_UID inst)))"
  by (simp add: GetOLSSubscriptionName_def slice_to_def Sprintf_subscription_name)

section \<open>The calls of each operation\<close>

lemma emits_GetOLSOperatorCSV [emits_intros]:
  assumes "A GetConfig" "A NewClient" "A (ListCSVs [])"
  shows "emits A (GetOLSOperatorCSV D)"
  unfolding GetOLSOperatorCSV_def using assms by (intro emits_intros)

lemma emits_GetOLSOperatorInstallPlan [emits_intros]:
  assumes "A (ListInstallPlans (osl_Namespace inst))"
  shows "emits A (GetOLSOperatorInstallPlan D inst)"
  unfolding GetOLSOperatorInstallPlan_def using assms by (intro emits_intros)

lemma emits_InstanceOwnedOLSOperatorComplete [emits_intros]:
  assumes "A GetConfig" "A NewClient" "A (ListCSVs [])"
  shows "emits A (InstanceOwnedOLSOperatorComplete D inst)"
  unfolding InstanceOwnedOLSOperatorComplete_def using assms by (intro emits_intros)

lemma emits_IsUserInstalledOLSOperatorMode [emits_intros]:
  assumes "A GetConfig" "A NewClient" "A (ListCSVs [])" "\<And>k. A (GetSubscription k)"
  shows "emits A (IsUserInstalledOLSOperatorMode D inst)"
  unfolding IsUserInstalledOLSOperatorMode_def Let_def using assms by (intro emits_intros)

lemma install_reads_only:
  "reads_only (GetOLSOperatorCSV D)" "reads_only (GetOLSOperatorInstallPlan D inst)"
  "reads_only (InstanceOwnedOLSOperatorComplete D inst)"
  "reads_only (IsUserInstalledOLSOperatorMode D inst)"
  by (intro emits_intros; simp)+

lemma GetOLSOperatorCSV_GoOk:
  "GetOLSOperatorCSV D s = (GoOk r, t) \<longleftrightarrow>
     (\<exists>s'. GetRawClient D s = (GoOk (), s') \<and>
       ((\<exists>items w'. raw_list_csvs (cli D) [] (world s') = (Inr items, w') \<and> r = find_ols_csv items \<and>
            t = s'\<lparr>world := w', calls := calls s' @ [ListCSVs []]\<rparr>) \<or>
        (\<exists>e w'. raw_list_csvs (cli D) [] (world s') = (Inl e, w') \<and> IsNotFound D e \<and> r = None \<and>
            t = s'\<lparr>world := w', calls := calls s' @ [ListCSVs []]\<rparr>)))"
  unfolding GetOLSOperatorCSV_def andThen_eq_GoOk onErr_eq_GoOk perform_eq_GoOk perform_eq_GoErr
  by (auto split: if_splits)

lemma returns_GetOLSOperatorCSV:
  "returns (\<lambda>r. \<forall>csv. r = Some csv \<longrightarrow> is_ols_csv csv) (GetOLSOperatorCSV D)"
  unfolding returns_def GetOLSOperatorCSV_GoOk by (auto dest: csv_search.search_SomeD csv_search.search_SomeD [OF sym])

lemma GetOLSOperatorInstallPlan_GoOk:
  "GetOLSOperatorInstallPlan D inst s = (GoOk r, t) \<longleftrightarrow>
     (\<exists>items w' v. list_install_plans (cli D) (osl_Namespace inst) (world s) = (Inr items, w') \<and>
        GetRecommendedOLSVersion D = GoOk v \<and> r = find_ols_plan v items \<and>
        t = s\<lparr>world := w', calls := calls s @ [ListInstallPlans (osl_Namespace inst)]\<rparr>)"
  unfolding GetOLSOperatorInstallPlan_def andThen_eq_GoOk perform_eq_GoOk by auto

text \<open>A plan for the recommended version, as the operator recognises it.\<close>

definition recommended_plan :: "'w deps \<Rightarrow> InstallPlan \<Rightarrow> bool" where
  "recommended_plan D plan \<longleftrightarrow>
     (case GetRecommendedOLSVersion D of GoOk v \<Rightarrow> is_ols_plan v plan | _ \<Rightarrow> False)"

lemma returns_GetOLSOperatorInstallPlan:
  "returns (\<lambda>r. \<forall>plan. r = Some plan \<longrightarrow> recommended_plan D plan) (GetOLSOperatorInstallPlan D inst)"
  unfolding returns_def GetOLSOperatorInstallPlan_GoOk
  by (auto simp: recommended_plan_def dest: plan_search.search_SomeD plan_search.search_SomeD [OF sym])

section \<open>Installing\<close>

text \<open>
  What an installation may write, as a protocol: first the subscription of this instance,
  then the approval of a plan for the recommended version, then the owner reference of the
  cluster service version. It may stop after any step and never skips one.
\<close>

definition subscription_for :: "OpenStackLightspeed \<Rightarrow> Subscription \<Rightarrow> bool" where
  "subscription_for inst sub \<longleftrightarrow>
     GetOLSSubscriptionName inst = GoOk (meta_Name (sub_Meta sub)) \<and>
     meta_Namespace (sub_Meta sub) = osl_Namespace inst"

inductive install_protocol :: "'w deps \<Rightarrow> OpenStackLightspeed \<Rightarrow> api_call list \<Rightarrow> bool"
  for D :: "'w deps" and inst where
  idle: "install_protocol D inst []"
| subscribed: "subscription_for inst sub \<Longrightarrow> install_protocol D inst [CreateOrUpdateSubscription sub]"
| approved:
    "install_protocol D inst [CreateOrUpdateSubscription sub] \<Longrightarrow>
     recommended_plan D plan \<Longrightarrow> ip_Approved plan \<Longrightarrow>
     install_protocol D inst [CreateOrUpdateSubscription sub, UpdateInstallPlan plan]"
| adopted:
    "install_protocol D inst [CreateOrUpdateSubscription sub, UpdateInstallPlan plan] \<Longrightarrow>
     is_ols_csv csv \<Longrightarrow> meta_OwnerReferences (csv_Meta csv) = instanceOwnerReference inst \<Longrightarrow>
     install_protocol D inst
       [CreateOrUpdateSubscription sub, UpdateInstallPlan plan, UpdateCSV csv]"

inductive_cases install_protocol_threeE: "install_protocol D inst [a, b, c]"

lemma returns_lift_res: "returns (\<lambda>x. r = GoOk x) (lift_res r)"
  by (simp add: returns_def)

lemma owner_reference_owns:
  "meta_OwnerReferences m = instanceOwnerReference inst \<Longrightarrow> IsOwnedBy m (osl_Meta inst)"
  by (simp add: IsOwnedBy_iff instanceOwnerReference_def)

text \<open>
  The installation in three parts: subscribing, approving, adopting. \<open>install_parts\<close> says that
  the function is their composition.
\<close>

definition owned_csv :: "OpenStackLightspeed \<Rightarrow> ClusterServiceVersion \<Rightarrow> ClusterServiceVersion" where
  "owned_csv inst csv =
     csv\<lparr>csv_Meta := (csv_Meta csv)\<lparr>meta_OwnerReferences := instanceOwnerReference inst\<rparr>\<rparr>"

definition new_subscription :: "OpenStackLightspeed \<Rightarrow> string \<Rightarrow> Subscription" where
  "new_subscription inst name = empty_Subscription\<lparr>sub_Meta :=
     empty_ObjectMeta\<lparr>meta_Name := name, meta_Namespace := osl_Namespace inst\<rparr>\<rparr>"

definition adopt_csv :: "'w deps \<Rightarrow> OpenStackLightspeed \<Rightarrow> ClusterServiceVersion \<Rightarrow> ('w, bool) op" where
  "adopt_csv D inst csv =
     onErr (perform (UpdateCSV (owned_csv inst csv)) (update_csv (cli D) (owned_csv inst csv)))
       (\<lambda>err. if IsConflict D err then ret False else fail err)
       (\<lambda>_. InstanceOwnedOLSOperatorComplete D inst)"

definition adopt :: "'w deps \<Rightarrow> OpenStackLightspeed \<Rightarrow> ('w, bool) op" where
  "adopt D inst = andThen (GetOLSOperatorCSV D)
     (\<lambda>csvOpt. case csvOpt of None \<Rightarrow> ret False | Some csv \<Rightarrow> adopt_csv D inst csv)"

definition approve_and_adopt :: "'w deps \<Rightarrow> OpenStackLightspeed \<Rightarrow> ('w, bool) op" where
  "approve_and_adopt D inst = andThen (GetOLSOperatorInstallPlan D inst) (\<lambda>planOpt. case planOpt of
       None \<Rightarrow> ret False
     | Some plan \<Rightarrow> andThen (perform (UpdateInstallPlan (plan\<lparr>ip_Approved := True\<rparr>))
         (update_install_plan (cli D) (plan\<lparr>ip_Approved := True\<rparr>))) (\<lambda>_. adopt D inst))"

lemma install_parts:
  "InstallInstanceOwnedOLSOperator D inst =
     andThen (lift_res (GetOLSSubscriptionName inst)) (\<lambda>name.
     andThen (perform (CreateOrUpdateSubscription (new_subscription inst name))
         (create_or_update_subscription (cli D) (new_subscription inst name) (subscription_mutate D inst)))
       (\<lambda>(opResult, sub). if opResult \<noteq> OperationResultNone \<or> sub_InstallPlanRef sub = None
          then ret False else approve_and_adopt D inst))"
proof -
  have "andThen (ApproveOLSOperatorInstallPlan D inst) (\<lambda>ok. if \<not> ok then ret False else adopt D inst) =
      approve_and_adopt D inst"
    unfolding ApproveOLSOperatorInstallPlan_def approve_and_adopt_def andThen_assoc Let_def
    by (rule arg_cong [where f = "andThen (GetOLSOperatorInstallPlan D inst)"])
      (auto simp: fun_eq_iff andThen_assoc split: option.split)
  note parts = this [symmetric]
  show ?thesis
    unfolding InstallInstanceOwnedOLSOperator_def parts adopt_def adopt_csv_def owned_csv_def
      new_subscription_def Let_def
    by (rule refl)
qed

lemma recommended_plan_approve [simp]:
  "recommended_plan D (plan\<lparr>ip_Approved := b\<rparr>) = recommended_plan D plan"
  by (simp add: recommended_plan_def split: gores.split)

lemma owned_csv_simps [simp]:
  "is_ols_csv (owned_csv inst csv) = is_ols_csv csv"
  "meta_OwnerReferences (csv_Meta (owned_csv inst csv)) = instanceOwnerReference inst"
  by (simp_all add: owned_csv_def)

lemma writing_adopt_csv: "P [] \<Longrightarrow> P [UpdateCSV (owned_csv inst csv)] \<Longrightarrow> writing P (adopt_csv D inst csv)"
  unfolding adopt_csv_def
  by (intro writing_write_onErr) (auto intro: writing_pure writing_reads install_reads_only)

lemma writing_adopt:
  assumes "P []" and "\<And>csv. is_ols_csv csv \<Longrightarrow> P [UpdateCSV (owned_csv inst csv)]"
  shows "writing P (adopt D inst)"
  unfolding adopt_def using assms
  by (intro writing_read_andThen [where P = P, OF install_reads_only(1) returns_GetOLSOperatorCSV])
    (auto intro: writing_pure writing_adopt_csv split: option.split)

lemma writing_approve_and_adopt:
  assumes "P []"
    and "\<And>plan. recommended_plan D plan \<Longrightarrow> ip_Approved plan \<Longrightarrow> P [UpdateInstallPlan plan]"
    and "\<And>plan csv. recommended_plan D plan \<Longrightarrow> ip_Approved plan \<Longrightarrow> is_ols_csv csv \<Longrightarrow>
      P [UpdateInstallPlan plan, UpdateCSV (owned_csv inst csv)]"
  shows "writing P (approve_and_adopt D inst)"
  unfolding approve_and_adopt_def using assms
  by (intro writing_read_andThen [where P = P, OF install_reads_only(2) returns_GetOLSOperatorInstallPlan])
    (auto intro!: writing_pure writing_write_andThen writing_adopt split: option.split)

lemma writing_install: "writing (install_protocol D inst) (InstallInstanceOwnedOLSOperator D inst)"
  unfolding install_parts
proof (rule writing_read_andThen [where P = "install_protocol D inst",
      OF emits_pure(4) returns_lift_res])
  fix name assume name: "GetOLSSubscriptionName inst = GoOk name"
  let ?c = "CreateOrUpdateSubscription (new_subscription inst name)"
  have sub: "install_protocol D inst [?c]"
    using name by (intro subscribed) (simp add: subscription_for_def new_subscription_def)
  then have "writing (\<lambda>l. install_protocol D inst (?c # l)) (approve_and_adopt D inst)"
    by (auto intro!: writing_approve_and_adopt approved adopted)
  with sub show "writing (install_protocol D inst)
      (andThen (perform ?c (create_or_update_subscription (cli D) (new_subscription inst name)
           (subscription_mutate D inst)))
         (\<lambda>(opResult, sub). if opResult \<noteq> OperationResultNone \<or> sub_InstallPlanRef sub = None
            then ret False else approve_and_adopt D inst))"
    by (intro writing_write_andThen) (auto intro: writing_pure)
qed (rule idle)

text \<open>
  C10: whatever happens, the writes of an installation follow the protocol: the subscription of
  this instance, then at most the approval of a plan for the recommended version, then at most
  the owner reference of the operator's cluster service version, in this order.
\<close>

theorem install_write_protocol:
  "\<exists>new. writes (snd (InstallInstanceOwnedOLSOperator D inst s)) = writes s @ new \<and>
     install_protocol D inst new"
  using writing_install by (rule writingE) blast

lemma writes_after_read: "m s = (r, t) \<Longrightarrow> reads_only m \<Longrightarrow> writes t = writes s"
  by (metis writes_reads_only snd_conv)

lemma complete_GoOk_True:
  "InstanceOwnedOLSOperatorComplete D inst s = (GoOk True, t) \<longleftrightarrow>
     (\<exists>csv. GetOLSOperatorCSV D s = (GoOk (Some csv), t) \<and>
        IsOwnedBy (csv_Meta csv) (osl_Meta inst) \<and> csv_Phase csv = CSVPhaseSucceeded)"
  by (auto simp: InstanceOwnedOLSOperatorComplete_def andThen_eq_GoOk split: option.splits)

lemma adopt_GoOk_True:
  "adopt D inst s = (GoOk True, t) \<longleftrightarrow>
     (\<exists>csv s1 w'. GetOLSOperatorCSV D s = (GoOk (Some csv), s1) \<and>
        update_csv (cli D) (owned_csv inst csv) (world s1) = (Inr (), w') \<and>
        InstanceOwnedOLSOperatorComplete D inst
          (s1\<lparr>world := w', calls := calls s1 @ [UpdateCSV (owned_csv inst csv)]\<rparr>) = (GoOk True, t))"
  unfolding adopt_def adopt_csv_def andThen_eq_GoOk
  by (fastforce simp: onErr_eq_GoOk perform_eq_GoOk split: option.splits if_splits)

lemma approve_and_adopt_GoOk_True:
  "approve_and_adopt D inst s = (GoOk True, t) \<longleftrightarrow>
     (\<exists>plan s1 w'. GetOLSOperatorInstallPlan D inst s = (GoOk (Some plan), s1) \<and>
        update_install_plan (cli D) (plan\<lparr>ip_Approved := True\<rparr>) (world s1) = (Inr (), w') \<and>
        adopt D inst (s1\<lparr>world := w', calls := calls s1 @
          [UpdateInstallPlan (plan\<lparr>ip_Approved := True\<rparr>)]\<rparr>) = (GoOk True, t))"
  unfolding approve_and_adopt_def andThen_eq_GoOk
  by (fastforce simp: andThen_eq_GoOk perform_eq_GoOk split: option.splits)

text \<open>
  The installation answers true exactly when every step went through: the subscription is
  settled and linked to a plan, a plan was approved, the cluster service version was adopted
  and a last look finds it owned by the instance and succeeded.
\<close>

lemma install_GoOk_True:
  "InstallInstanceOwnedOLSOperator D inst s = (GoOk True, t) \<longleftrightarrow>
     (\<exists>name sub w'. GetOLSSubscriptionName inst = GoOk name \<and>
        create_or_update_subscription (cli D) (new_subscription inst name)
          (subscription_mutate D inst) (world s) = (Inr (OperationResultNone, sub), w') \<and>
        sub_InstallPlanRef sub \<noteq> None \<and>
        approve_and_adopt D inst (s\<lparr>world := w', calls := calls s @
          [CreateOrUpdateSubscription (new_subscription inst name)]\<rparr>) = (GoOk True, t))"
  unfolding install_parts andThen_eq_GoOk
  by (fastforce simp: andThen_eq_GoOk perform_eq_GoOk split: prod.splits if_splits)

lemma install_True_shape:
  assumes "InstallInstanceOwnedOLSOperator D inst s = (GoOk True, t)"
  obtains sub plan csv s' csv' where
    "writes t = writes s @ [CreateOrUpdateSubscription sub, UpdateInstallPlan plan, UpdateCSV csv]"
    "install_protocol D inst [CreateOrUpdateSubscription sub, UpdateInstallPlan plan, UpdateCSV csv]"
    "GetOLSOperatorCSV D s' = (GoOk (Some csv'), t)"
    "IsOwnedBy (csv_Meta csv') (osl_Meta inst)" "csv_Phase csv' = CSVPhaseSucceeded"
proof -
  from assms obtain sub w1 plan s2 w2 csv s3 w3 csv' where
    a: "GetOLSOperatorInstallPlan D inst (s\<lparr>world := w1, calls := calls s @
         [CreateOrUpdateSubscription sub]\<rparr>) = (GoOk (Some plan), s2)"
    and b: "GetOLSOperatorCSV D (s2\<lparr>world := w2, calls := calls s2 @
         [UpdateInstallPlan (plan\<lparr>ip_Approved := True\<rparr>)]\<rparr>) = (GoOk (Some csv), s3)"
    and c: "GetOLSOperatorCSV D (s3\<lparr>world := w3, calls := calls s3 @
         [UpdateCSV (owned_csv inst csv)]\<rparr>) = (GoOk (Some csv'), t)"
    and d: "IsOwnedBy (csv_Meta csv') (osl_Meta inst)" "csv_Phase csv' = CSVPhaseSucceeded"
    unfolding install_GoOk_True approve_and_adopt_GoOk_True adopt_GoOk_True complete_GoOk_True by blast
  have w: "writes t = writes s @ [CreateOrUpdateSubscription sub,
      UpdateInstallPlan (plan\<lparr>ip_Approved := True\<rparr>), UpdateCSV (owned_csv inst csv)]"
    using a b c by (auto simp: writes_def dest!: writes_after_read [OF _ install_reads_only(1)]
        writes_after_read [OF _ install_reads_only(2)])
  moreover obtain new where "writes t = writes s @ new" "install_protocol D inst new"
    using writing_install [of D inst] assms by (metis writingE snd_conv)
  ultimately show thesis using that c d by simp
qed

lemma approve_run:
  assumes "GetOLSOperatorInstallPlan D inst s = (GoOk (Some plan), s1)"
  shows "ApproveOLSOperatorInstallPlan D inst s =
     (case fst (update_install_plan (cli D) (plan\<lparr>ip_Approved := True\<rparr>) (world s1)) of
        Inr _ \<Rightarrow> GoOk True | Inl e \<Rightarrow> GoErr e,
      s1\<lparr>world := snd (update_install_plan (cli D) (plan\<lparr>ip_Approved := True\<rparr>) (world s1)),
        calls := calls s1 @ [UpdateInstallPlan (plan\<lparr>ip_Approved := True\<rparr>)]\<rparr>)"
  using assms
  by (simp add: ApproveOLSOperatorInstallPlan_def andThen_run perform_def Let_def split: prod.split sum.split)

text \<open>
  C9: the installation reports completion only after exactly three writes, in this order: the
  subscription of this instance, an approved plan for the recommended version, and the cluster
  service version with this instance as its owner; and only if the last listing of the cluster
  shows a cluster service version of the operator that the instance owns and whose phase is
  Succeeded.
\<close>

theorem install_complete:
  assumes "InstallInstanceOwnedOLSOperator D inst s = (GoOk True, t)"
  shows "\<exists>sub plan csv s' csv'.
     writes t = writes s @ [CreateOrUpdateSubscription sub, UpdateInstallPlan plan, UpdateCSV csv] \<and>
     subscription_for inst sub \<and> recommended_plan D plan \<and> ip_Approved plan \<and>
     IsOwnedBy (csv_Meta csv) (osl_Meta inst) \<and>
     GetOLSOperatorCSV D s' = (GoOk (Some csv'), t) \<and>
     IsOwnedBy (csv_Meta csv') (osl_Meta inst) \<and> csv_Phase csv' = CSVPhaseSucceeded"
  using assms
proof (rule install_True_shape, goal_cases)
  case (1 sub plan csv s' csv')
  from 1(2) have "subscription_for inst sub \<and> recommended_plan D plan \<and> ip_Approved plan \<and>
      IsOwnedBy (csv_Meta csv) (osl_Meta inst)"
    by (auto elim!: install_protocol.cases intro: owner_reference_owns)
  with 1 show ?case by blast
qed

text \<open>A cluster where the operator is installed for the sample instance.\<close>

definition sample_csv :: ClusterServiceVersion where
  "sample_csv = \<lparr>csv_Meta = empty_ObjectMeta\<lparr>meta_Name := ''lightspeed-operator.v1.0.1'',
     meta_Namespace := ''openshift-lightspeed'',
     meta_OwnerReferences := instanceOwnerReference sample_instance\<rparr>, csv_Phase = CSVPhaseSucceeded\<rparr>"

definition sample_plan :: InstallPlan where
  "sample_plan = \<lparr>ip_Meta = empty_ObjectMeta\<lparr>meta_Name := ''install-1'',
     meta_Namespace := ''openshift-lightspeed''\<rparr>,
     ip_ClusterServiceVersionNames = [''lightspeed-operator.v1.0.1''], ip_Approved = True\<rparr>"

definition sample_subscription :: Subscription where
  "sample_subscription = \<lparr>sub_Meta = empty_ObjectMeta\<lparr>meta_Name := ''lightspeed-operator-abcde'',
       meta_Namespace := ''openshift-lightspeed'',
       meta_OwnerReferences := instanceOwnerReference sample_instance\<rparr>,
     sub_Spec = Some \<lparr>subs_Channel = ''stable'', subs_InstallPlanApproval = ApprovalManual,
       subs_CatalogSource = ''redhat-operators'', subs_CatalogSourceNamespace = ''openshift-marketplace'',
       subs_Package = ''lightspeed-operator'', subs_StartingCSV = ''lightspeed-operator.v1.0.1''\<rparr>,
     sub_InstallPlanRef = Some ''install-1''\<rparr>"

definition installed_cluster :: "OpenStackLightspeed list \<Rightarrow> object option \<Rightarrow> cluster" where
  "installed_cluster insts cfg = empty_cluster\<lparr>c_csvs := [sample_csv], c_subs := [sample_subscription],
     c_plans := [sample_plan], c_instances := insts, c_config := cfg\<rparr>"

definition at_cluster :: "cluster \<Rightarrow> (cluster, api_call) sys" where
  "at_cluster w = \<lparr>world = w, calls = []\<rparr>"

lemma sample_version: "GetRecommendedOLSVersion (ref_deps sample_env) = GoOk ''1.0.1''"
  by (simp add: recommended_version_GoOk Getenv_def sample_env_def)

lemma sample_name: "GetOLSSubscriptionName sample_instance = GoOk ''lightspeed-operator-abcde''"
  by (simp add: subscription_name_cases sample_instance_def OLSOperatorName_def empty_ObjectMeta_def)

lemma sample_mutate:
  "subscription_mutate (ref_deps sample_env) sample_instance sample_subscription = GoOk sample_subscription"
  by (simp add: subscription_mutate_def SetStartingCSV_def sample_version Sprintf_starting_csv
      OLSOperatorName_def sample_subscription_def sample_instance_def sample_spec_def Let_def
      del: Sprintf.simps)

lemma ref_GetRawClient: "GetRawClient (ref_deps env) s = (GoOk (), s\<lparr>calls := calls s @ [GetConfig, NewClient]\<rparr>)"
  by (simp add: GetRawClient_def andThen_run perform_def ref_client_def)

lemma ref_GetOLSOperatorCSV:
  "GetOLSOperatorCSV (ref_deps env) s =
     (GoOk (find_ols_csv (c_csvs (world s))), s\<lparr>calls := calls s @ [GetConfig, NewClient, ListCSVs []]\<rparr>)"
  by (simp add: GetOLSOperatorCSV_def onErr_run ref_GetRawClient perform_def ref_client_def)

lemma ref_GetOLSOperatorInstallPlan:
  "GetOLSOperatorInstallPlan (ref_deps sample_env) inst s =
     (GoOk (find_ols_plan ''1.0.1'' (filter (\<lambda>p. meta_Namespace (ip_Meta p) = osl_Namespace inst)
        (c_plans (world s)))), s\<lparr>calls := calls s @ [ListInstallPlans (osl_Namespace inst)]\<rparr>)"
  by (simp add: GetOLSOperatorInstallPlan_def andThen_run perform_def ref_client_def sample_version)

lemma installed_cluster_sel [simp]:
  "c_csvs (installed_cluster insts cfg) = [sample_csv]" "c_subs (installed_cluster insts cfg) = [sample_subscription]"
  "c_plans (installed_cluster insts cfg) = [sample_plan]"
  by (simp_all add: installed_cluster_def)

lemma sample_found [simp]:
  "is_ols_csv sample_csv" "is_ols_plan ''1.0.1'' sample_plan"
  "owned_csv sample_instance sample_csv = sample_csv"
  "sample_plan\<lparr>ip_Approved := True\<rparr> = sample_plan"
  "meta_Namespace (ip_Meta sample_plan) = osl_Namespace sample_instance"
  "IsOwnedBy (csv_Meta sample_csv) (osl_Meta sample_instance)" "csv_Phase sample_csv = CSVPhaseSucceeded"
  by (simp_all add: sample_csv_def sample_plan_def OLSOperatorName_def HasPrefix_def HasSuffix_def
      owned_csv_def IsOwnedBy_def instanceOwnerReference_def sample_instance_def)

lemma ref_update_single [simp]: "ref_update meta x [x] = [x]"
  by (simp add: ref_update_def)

lemma installed_cluster_again [simp]:
  "(installed_cluster insts cfg)\<lparr>c_plans := [sample_plan]\<rparr> = (installed_cluster insts cfg)"
  "(installed_cluster insts cfg)\<lparr>c_csvs := [sample_csv]\<rparr> = (installed_cluster insts cfg)"
  by (simp_all add: installed_cluster_def)

lemma sample_create_or_update:
  "ref_create_or_update_subscription (new_subscription sample_instance ''lightspeed-operator-abcde'')
     (subscription_mutate (ref_deps sample_env) sample_instance) (installed_cluster insts cfg) =
   (Inr (OperationResultNone, sample_subscription), (installed_cluster insts cfg))"
proof -
  have "same_key (sub_Meta sample_subscription)
      (sub_Meta (new_subscription sample_instance ''lightspeed-operator-abcde''))"
    by (simp add: same_key_def sample_subscription_def new_subscription_def sample_instance_def)
  then show ?thesis by (simp add: ref_create_or_update_subscription_def sample_mutate)
qed

definition sample_install_calls :: "api_call list" where
  "sample_install_calls =
     [CreateOrUpdateSubscription (new_subscription sample_instance ''lightspeed-operator-abcde''),
      ListInstallPlans (osl_Namespace sample_instance), UpdateInstallPlan sample_plan,
      GetConfig, NewClient, ListCSVs [], UpdateCSV sample_csv, GetConfig, NewClient, ListCSVs []]"

lemma sample_installs:
  "InstallInstanceOwnedOLSOperator (ref_deps sample_env) sample_instance
     \<lparr>world = installed_cluster insts cfg, calls = cs\<rparr> =
   (GoOk True, \<lparr>world = installed_cluster insts cfg, calls = cs @ sample_install_calls\<rparr>)"
  by (simp add: install_GoOk_True approve_and_adopt_GoOk_True adopt_GoOk_True complete_GoOk_True
      ref_GetOLSOperatorCSV ref_GetOLSOperatorInstallPlan sample_name ref_client_def
      sample_create_or_update sample_install_calls_def)
    (simp add: sample_subscription_def)

theorem install_complete_witness:
  "\<exists>sub plan csv s' csv'.
     writes \<lparr>world = installed_cluster [] None, calls = sample_install_calls\<rparr> =
       [CreateOrUpdateSubscription sub, UpdateInstallPlan plan, UpdateCSV csv] \<and>
     subscription_for sample_instance sub \<and> recommended_plan (ref_deps sample_env) plan \<and> ip_Approved plan \<and>
     IsOwnedBy (csv_Meta csv) (osl_Meta sample_instance) \<and>
     GetOLSOperatorCSV (ref_deps sample_env) s' =
       (GoOk (Some csv'), \<lparr>world = installed_cluster [] None, calls = sample_install_calls\<rparr>) \<and>
     IsOwnedBy (csv_Meta csv') (osl_Meta sample_instance) \<and> csv_Phase csv' = CSVPhaseSucceeded"
  using install_complete [OF sample_installs [of "[]" None "[]"]] by (simp add: writes_def)

text \<open>
  While the subscription has just been created or changed, or is not yet linked to a plan,
  the installation waits: it answers false without an error, and approves nothing.
\<close>

lemma install_waits_for_link:
  assumes "GetOLSSubscriptionName inst = GoOk name"
    and "create_or_update_subscription (cli D) (new_subscription inst name) (subscription_mutate D inst)
           (world s) = (Inr (opResult, sub), w')"
    and "opResult \<noteq> OperationResultNone \<or> sub_InstallPlanRef sub = None"
  shows "InstallInstanceOwnedOLSOperator D inst s =
     (GoOk False, s\<lparr>world := w', calls := calls s @
        [CreateOrUpdateSubscription (new_subscription inst name)]\<rparr>)"
  using assms by (auto simp: install_parts andThen_run perform_def)

lemma subscription_mutate_GoOk:
  "subscription_mutate D inst sub = GoOk sub' \<longleftrightarrow>
     (\<exists>v. GetRecommendedOLSVersion D = GoOk v \<and>
        sub' = sub\<lparr>sub_Spec := Some \<lparr>subs_Channel = ''stable'', subs_InstallPlanApproval = ApprovalManual,
              subs_CatalogSource = CatalogSourceName (Spec inst),
              subs_CatalogSourceNamespace = CatalogSourceNamespace (Spec inst),
              subs_Package = OLSOperatorName,
              subs_StartingCSV = (if v = [] then [] else OLSOperatorName @ ''.v'' @ v)\<rparr>,
            sub_Meta := (sub_Meta sub)\<lparr>meta_OwnerReferences := instanceOwnerReference inst\<rparr>\<rparr>)"
  unfolding subscription_mutate_def SetStartingCSV_def Let_def
  by (cases "GetRecommendedOLSVersion D")
    (auto simp: Sprintf_starting_csv simp del: Sprintf.simps)

text \<open>
  C30: the subscription that the operator writes asks for manual approval of install plans, is
  owned by the instance, and, unless the latest version is wanted, starts at the recommended
  version; a plan for that starting version is one that the operator recognises.
\<close>

theorem subscription_pinned:
  assumes "subscription_mutate D inst sub = GoOk sub'"
  shows "\<exists>spec v. sub_Spec sub' = Some spec \<and> GetRecommendedOLSVersion D = GoOk v \<and>
     subs_InstallPlanApproval spec = ApprovalManual \<and> subs_Package spec = OLSOperatorName \<and>
     subs_CatalogSource spec = CatalogSourceName (Spec inst) \<and>
     subs_StartingCSV spec = (if v = [] then [] else OLSOperatorName @ ''.v'' @ v) \<and>
     has_ols_csv_name v [OLSOperatorName @ ''.v'' @ v] \<and>
     IsOwnedBy (sub_Meta sub') (osl_Meta inst) \<and>
     meta_Name (sub_Meta sub') = meta_Name (sub_Meta sub)"
proof -
  from assms obtain v where v: "GetRecommendedOLSVersion D = GoOk v" "sub_Meta sub' =
      (sub_Meta sub)\<lparr>meta_OwnerReferences := instanceOwnerReference inst\<rparr>"
      "sub_Spec sub' = Some \<lparr>subs_Channel = ''stable'', subs_InstallPlanApproval = ApprovalManual,
              subs_CatalogSource = CatalogSourceName (Spec inst),
              subs_CatalogSourceNamespace = CatalogSourceNamespace (Spec inst),
              subs_Package = OLSOperatorName,
              subs_StartingCSV = (if v = [] then [] else OLSOperatorName @ ''.v'' @ v)\<rparr>"
    unfolding subscription_mutate_GoOk by force
  have "IsOwnedBy (sub_Meta sub') (osl_Meta inst)" by (rule owner_reference_owns) (simp add: v)
  moreover have "HasSuffix (OLSOperatorName @ ''.v'' @ v) v"
    using HasSuffix_append [of "OLSOperatorName @ ''.v''" v] by simp
  ultimately show ?thesis using v by simp
qed

theorem subscription_pinned_witness:
  "\<exists>spec v. sub_Spec sample_subscription = Some spec \<and>
     GetRecommendedOLSVersion (ref_deps sample_env) = GoOk v \<and>
     subs_InstallPlanApproval spec = ApprovalManual \<and> subs_Package spec = OLSOperatorName \<and>
     subs_CatalogSource spec = CatalogSourceName (Spec sample_instance) \<and>
     subs_StartingCSV spec = (if v = [] then [] else OLSOperatorName @ ''.v'' @ v) \<and>
     has_ols_csv_name v [OLSOperatorName @ ''.v'' @ v] \<and>
     IsOwnedBy (sub_Meta sample_subscription) (osl_Meta sample_instance) \<and>
     meta_Name (sub_Meta sample_subscription) = meta_Name (sub_Meta sample_subscription)"
  by (rule subscription_pinned [OF sample_mutate])

text \<open>
  C39: which plan is approved. It is the first one listed that names something that starts like the
  operator and ends in the recommended version, with anything in between: with 1.0.1
  recommended, a plan for 11.0.1, or for another package with the same start, is approved when it
  is listed first. Plans that only name something else with this version are passed over, the
  update is the only other call, and its answer is the outcome.
\<close>

theorem first_matching_plan_approved:
  assumes "GetRecommendedOLSVersion D = GoOk v"
    and "list_install_plans (cli D) (osl_Namespace inst) (world s) = (Inr (before @ plan # after), w)"
    and "\<forall>p\<in>set before. \<forall>n\<in>set (ip_ClusterServiceVersionNames p).
           \<not> (prefix ''lightspeed-operator'' n \<and> suffix v n)"
    and "''lightspeed-operator'' @ u @ v \<in> set (ip_ClusterServiceVersionNames plan)"
  shows "ApproveOLSOperatorInstallPlan D inst s =
     (case fst (update_install_plan (cli D) (plan\<lparr>ip_Approved := True\<rparr>) w) of
        Inr _ \<Rightarrow> GoOk True | Inl e \<Rightarrow> GoErr e,
      s\<lparr>world := snd (update_install_plan (cli D) (plan\<lparr>ip_Approved := True\<rparr>) w),
        calls := calls s @ [ListInstallPlans (osl_Namespace inst), UpdateInstallPlan (plan\<lparr>ip_Approved := True\<rparr>)]\<rparr>)"
proof -
  have op: "OLSOperatorName = ''lightspeed-operator''" by (simp add: OLSOperatorName_def)
  have "\<not> is_ols_plan v p" if "p \<in> set before" for p
    using assms(3) that unfolding has_ols_csv_name_iff HasPrefix_iff_prefix HasSuffix_iff_suffix op by blast
  moreover have "is_ols_plan v plan"
    unfolding has_ols_csv_name_iff HasPrefix_iff_prefix HasSuffix_iff_suffix op
    by (rule bexI [OF _ assms(4)]) (simp add: suffix_def)
  ultimately have "find_ols_plan v (before @ plan # after) = Some plan"
    by (induction before) auto
  with assms(1,2) have "GetOLSOperatorInstallPlan D inst s =
      (GoOk (Some plan), s\<lparr>world := w, calls := calls s @ [ListInstallPlans (osl_Namespace inst)]\<rparr>)"
    by (simp add: GetOLSOperatorInstallPlan_GoOk)
  from approve_run [OF this] show ?thesis by simp
qed

definition newer_plan :: InstallPlan where
  "newer_plan = sample_plan\<lparr>ip_ClusterServiceVersionNames := [''lightspeed-operator.v11.0.1''], ip_Approved := False\<rparr>"

definition other_plan :: InstallPlan where
  "other_plan = sample_plan\<lparr>ip_ClusterServiceVersionNames := [''another-operator.v1.0.1''], ip_Approved := False\<rparr>"

theorem first_matching_plan_approved_witness:
  "fst (ApproveOLSOperatorInstallPlan (ref_deps sample_env) sample_instance
      (at_cluster (empty_cluster\<lparr>c_plans := [other_plan, newer_plan, sample_plan]\<rparr>))) = GoOk True \<and>
   last (calls (snd (ApproveOLSOperatorInstallPlan (ref_deps sample_env) sample_instance
      (at_cluster (empty_cluster\<lparr>c_plans := [other_plan, newer_plan, sample_plan]\<rparr>))))) =
     UpdateInstallPlan (newer_plan\<lparr>ip_Approved := True\<rparr>)"
proof -
  let ?s = "at_cluster (empty_cluster\<lparr>c_plans := [other_plan, newer_plan, sample_plan]\<rparr>)"
  have l: "list_install_plans (cli (ref_deps sample_env)) (osl_Namespace sample_instance) (world ?s) =
      (Inr ([other_plan] @ newer_plan # [sample_plan]), world ?s)"
    by (simp add: ref_client_def at_cluster_def other_plan_def newer_plan_def sample_plan_def
        sample_instance_def empty_ObjectMeta_def)
  have o: "\<forall>p\<in>set [other_plan]. \<forall>n\<in>set (ip_ClusterServiceVersionNames p).
      \<not> (prefix ''lightspeed-operator'' n \<and> suffix ''1.0.1'' n)"
    by (simp add: other_plan_def)
  have n: "''lightspeed-operator'' @ ''.v1'' @ ''1.0.1'' \<in> set (ip_ClusterServiceVersionNames newer_plan)"
    by (simp add: newer_plan_def)
  show ?thesis
    unfolding first_matching_plan_approved [OF sample_version l o n] by (simp add: ref_client_def)
qed

section \<open>Installations of somebody else\<close>

lemma user_installed_True:
  assumes "GetOLSOperatorCSV D s = (GoOk (Some csv), s')"
    and "\<not> IsOwnedBy (csv_Meta csv) (osl_Meta inst)"
    and "GetOLSSubscriptionName inst = GoOk name"
    and "get_subscription (cli D) \<lparr>nn_Namespace = osl_Namespace inst, nn_Name = name\<rparr> (world s') = (r, w')"
    and "case r of Inl e \<Rightarrow> IsNotFound D e | Inr sub \<Rightarrow> \<not> IsOwnedBy (sub_Meta sub) (osl_Meta inst)"
  shows "IsUserInstalledOLSOperatorMode D inst s = (GoOk True, s'\<lparr>world := w', calls := calls s' @
     [GetSubscription \<lparr>nn_Namespace = osl_Namespace inst, nn_Name = name\<rparr>]\<rparr>)"
proof -
  have "IsUserInstalledOLSOperatorMode D inst s =
     (let key = \<lparr>nn_Namespace = osl_Namespace inst, nn_Name = name\<rparr> in
      onErr (perform (GetSubscription key) (get_subscription (cli D) key))
        (\<lambda>err. if \<not> IsNotFound D err then fail err else ret True)
        (\<lambda>sub. ret (\<not> IsOwnedBy (sub_Meta sub) (osl_Meta inst)))) s'"
    using assms(1,2,3)
    by (simp add: IsUserInstalledOLSOperatorMode_def Let_def andThen_run empty_Subscription_def cong: if_cong)
  with assms(4,5) show ?thesis
    by (cases r) (simp_all add: onErr_run perform_def Let_def)
qed

text \<open>
  C29: when a cluster service version of the operator is found that the instance does not own,
  and the subscription of the instance does not exist or is not owned by it either, the
  operator reports the foreign installation and writes nothing.
\<close>

theorem foreign_installation_refused:
  assumes "GetOLSOperatorCSV D s = (GoOk (Some csv), s')"
    and "\<not> IsOwnedBy (csv_Meta csv) (osl_Meta inst)"
    and "GetOLSSubscriptionName inst = GoOk name"
    and "get_subscription (cli D) \<lparr>nn_Namespace = osl_Namespace inst, nn_Name = name\<rparr> (world s') = (r, w')"
    and "case r of Inl e \<Rightarrow> IsNotFound D e | Inr sub \<Rightarrow> \<not> IsOwnedBy (sub_Meta sub) (osl_Meta inst)"
  shows "fst (EnsureOLSOperatorInstalled D inst s) = GoErr user_installed_error \<and>
         writes (snd (EnsureOLSOperatorInstalled D inst s)) = writes s"
proof -
  let ?t = "s'\<lparr>world := w', calls := calls s' @
     [GetSubscription \<lparr>nn_Namespace = osl_Namespace inst, nn_Name = name\<rparr>]\<rparr>"
  have t: "IsUserInstalledOLSOperatorMode D inst s = (GoOk True, ?t)"
    using assms by (rule user_installed_True)
  then have "EnsureOLSOperatorInstalled D inst s = (GoErr user_installed_error, ?t)"
    by (simp add: EnsureOLSOperatorInstalled_def)
  with writes_after_read [OF t install_reads_only(4)] show ?thesis by simp
qed

definition foreign_csv :: ClusterServiceVersion where
  "foreign_csv = sample_csv\<lparr>csv_Meta := (csv_Meta sample_csv)\<lparr>meta_OwnerReferences := []\<rparr>\<rparr>"

lemma foreign_csv_simps [simp]:
  "is_ols_csv foreign_csv" "\<not> IsOwnedBy (csv_Meta foreign_csv) owner"
  using sample_found(1) by (simp_all add: foreign_csv_def IsOwnedBy_def)

theorem foreign_installation_refused_witness:
  "fst (EnsureOLSOperatorInstalled (ref_deps sample_env) sample_instance
       (at_cluster (empty_cluster\<lparr>c_csvs := [foreign_csv]\<rparr>))) = GoErr user_installed_error \<and>
   writes (snd (EnsureOLSOperatorInstalled (ref_deps sample_env) sample_instance
       (at_cluster (empty_cluster\<lparr>c_csvs := [foreign_csv]\<rparr>)))) =
   writes (at_cluster (empty_cluster\<lparr>c_csvs := [foreign_csv]\<rparr>))"
proof (rule foreign_installation_refused [OF _ _ sample_name,
      where r = "Inl (ref_NotFound ''lightspeed-operator-abcde'')"])
  show "GetOLSOperatorCSV (ref_deps sample_env) (at_cluster (empty_cluster\<lparr>c_csvs := [foreign_csv]\<rparr>)) =
    (GoOk (Some foreign_csv), (at_cluster (empty_cluster\<lparr>c_csvs := [foreign_csv]\<rparr>))\<lparr>
       calls := [GetConfig, NewClient, ListCSVs []]\<rparr>)"
    by (simp add: ref_GetOLSOperatorCSV at_cluster_def)
qed (simp_all add: ref_client_def at_cluster_def empty_cluster_def ref_deps_def ref_NotFound_def)

section \<open>The calls of an installation\<close>

lemma emits_InstallInstanceOwnedOLSOperator [emits_intros]:
  assumes "A GetConfig" "A NewClient" "A (ListCSVs [])" "A (ListInstallPlans (osl_Namespace inst))"
    "\<And>x. A (CreateOrUpdateSubscription x)" "\<And>p. A (UpdateInstallPlan p)" "\<And>c. A (UpdateCSV c)"
  shows "emits A (InstallInstanceOwnedOLSOperator D inst)"
  unfolding install_parts approve_and_adopt_def adopt_def adopt_csv_def
  using assms by (intro emits_intros)

lemma emits_EnsureOLSOperatorInstalled [emits_intros]:
  assumes "A GetConfig" "A NewClient" "A (ListCSVs [])" "A (ListInstallPlans (osl_Namespace inst))"
    "\<And>x. A (CreateOrUpdateSubscription x)" "\<And>p. A (UpdateInstallPlan p)" "\<And>c. A (UpdateCSV c)"
    "\<And>k. A (GetSubscription k)"
  shows "emits A (EnsureOLSOperatorInstalled D inst)"
  unfolding EnsureOLSOperatorInstalled_def using assms by (intro emits_intros)

lemma ensure_GoOk:
  "EnsureOLSOperatorInstalled D inst s = (GoOk b, t) \<longleftrightarrow>
     (\<exists>s'. IsUserInstalledOLSOperatorMode D inst s = (GoOk False, s') \<and>
        InstallInstanceOwnedOLSOperator D inst s' = (GoOk b, t))"
  unfolding EnsureOLSOperatorInstalled_def andThen_eq_GoOk
  by (auto simp: andThen_eq_GoOk split: if_splits)

text \<open>
  A complete pass through the installation, from \<open>s\<close> to \<open>t\<close>: nobody else has installed the operator,
  the subscription is settled and linked, a plan is approved, the cluster service version is
  adopted, and then the one that is found is \<open>csv\<close>. Each state is the one that the step before
  has left.
\<close>

definition install_saw ::
  "'w deps \<Rightarrow> OpenStackLightspeed \<Rightarrow> 'w state \<Rightarrow> ClusterServiceVersion \<Rightarrow> 'w state \<Rightarrow> bool" where
  "install_saw D inst s csv t \<longleftrightarrow>
     (\<exists>s1 name sub s2 s3 found s4 s5.
        IsUserInstalledOLSOperatorMode D inst s = (GoOk False, s1) \<and>
        GetOLSSubscriptionName inst = GoOk name \<and>
        perform (CreateOrUpdateSubscription (new_subscription inst name))
          (create_or_update_subscription (cli D) (new_subscription inst name) (subscription_mutate D inst)) s1 =
          (GoOk (OperationResultNone, sub), s2) \<and>
        sub_InstallPlanRef sub \<noteq> None \<and>
        ApproveOLSOperatorInstallPlan D inst s2 = (GoOk True, s3) \<and>
        GetOLSOperatorCSV D s3 = (GoOk (Some found), s4) \<and>
        perform (UpdateCSV (owned_csv inst found)) (update_csv (cli D) (owned_csv inst found)) s4 = (GoOk (), s5) \<and>
        GetOLSOperatorCSV D s5 = (GoOk (Some csv), t))"

lemma ensure_True_saw:
  assumes "EnsureOLSOperatorInstalled D inst s = (GoOk True, t)"
  obtains csv where "install_saw D inst s csv t"
    "IsOwnedBy (csv_Meta csv) (osl_Meta inst)" "csv_Phase csv = CSVPhaseSucceeded"
proof -
  from assms obtain s1 where u: "IsUserInstalledOLSOperatorMode D inst s = (GoOk False, s1)"
    and i: "InstallInstanceOwnedOLSOperator D inst s1 = (GoOk True, t)" unfolding ensure_GoOk by blast
  from i obtain name sub w1 plan s2 w2 found s4 w3 csv where
    n: "GetOLSSubscriptionName inst = GoOk name"
    and c: "create_or_update_subscription (cli D) (new_subscription inst name) (subscription_mutate D inst) (world s1) =
         (Inr (OperationResultNone, sub), w1)" "sub_InstallPlanRef sub \<noteq> None"
    and p: "GetOLSOperatorInstallPlan D inst (s1\<lparr>world := w1, calls := calls s1 @
         [CreateOrUpdateSubscription (new_subscription inst name)]\<rparr>) = (GoOk (Some plan), s2)"
      "update_install_plan (cli D) (plan\<lparr>ip_Approved := True\<rparr>) (world s2) = (Inr (), w2)"
    and f: "GetOLSOperatorCSV D (s2\<lparr>world := w2, calls := calls s2 @
         [UpdateInstallPlan (plan\<lparr>ip_Approved := True\<rparr>)]\<rparr>) = (GoOk (Some found), s4)"
      "update_csv (cli D) (owned_csv inst found) (world s4) = (Inr (), w3)"
    and l: "GetOLSOperatorCSV D (s4\<lparr>world := w3, calls := calls s4 @
         [UpdateCSV (owned_csv inst found)]\<rparr>) = (GoOk (Some csv), t)"
    and d: "IsOwnedBy (csv_Meta csv) (osl_Meta inst)" "csv_Phase csv = CSVPhaseSucceeded"
    unfolding install_GoOk_True approve_and_adopt_GoOk_True adopt_GoOk_True complete_GoOk_True by blast
  have "install_saw D inst s csv t"
    unfolding install_saw_def
    by (intro exI conjI, rule u, rule n, simp add: perform_def c(1), rule c(2), simp add: approve_run [OF p(1)] p(2),
        simp add: p(2) f(1), simp add: perform_def f(2), rule l)
  with d that show thesis by blast
qed

lemma writing_ensure: "writing (install_protocol D inst) (EnsureOLSOperatorInstalled D inst)"
  unfolding EnsureOLSOperatorInstalled_def
proof (rule writing_read_andThen [where P = "install_protocol D inst", OF install_reads_only(4) returns_True])
  fix b :: bool
  have "andThen (InstallInstanceOwnedOLSOperator D inst) ret = InstallInstanceOwnedOLSOperator D inst"
    by (rule ext) (simp add: andThen_run split: prod.split gores.split)
  then show "writing (install_protocol D inst) (if b then fail user_installed_error
      else andThen (InstallInstanceOwnedOLSOperator D inst) ret)"
    by (auto intro: writing_install writing_pure idle)
qed (rule idle)

text \<open>
  The installation looks at the identity of the instance and at the catalog it names, not at
  the rest of its specification or its status.
\<close>

definition same_identity :: "OpenStackLightspeed \<Rightarrow> OpenStackLightspeed \<Rightarrow> bool" where
  "same_identity i j \<longleftrightarrow>
     osl_TypeMeta i = osl_TypeMeta j \<and> meta_Name (osl_Meta i) = meta_Name (osl_Meta j) \<and>
     osl_Namespace i = osl_Namespace j \<and> osl_UID i = osl_UID j \<and>
     CatalogSourceName (Spec i) = CatalogSourceName (Spec j) \<and>
     CatalogSourceNamespace (Spec i) = CatalogSourceNamespace (Spec j)"

lemma ensure_identity:
  assumes "same_identity i j"
  shows "EnsureOLSOperatorInstalled D i = EnsureOLSOperatorInstalled D j"
proof -
  note ids = assms [unfolded same_identity_def]
  have ref: "instanceOwnerReference i = instanceOwnerReference j"
    using ids by (simp add: instanceOwnerReference_def)
  have mut: "subscription_mutate D i = subscription_mutate D j"
    using ids ref by (simp add: fun_eq_iff subscription_mutate_def)
  have name: "GetOLSSubscriptionName i = GetOLSSubscriptionName j"
    using ids by (simp add: GetOLSSubscriptionName_def)
  have own: "IsOwnedBy m (osl_Meta i) = IsOwnedBy m (osl_Meta j)" for m
    using ids by (simp add: IsOwnedBy_def)
  from ids have ns: "osl_Namespace i = osl_Namespace j" by simp
  show ?thesis
    unfolding EnsureOLSOperatorInstalled_def IsUserInstalledOLSOperatorMode_def
      InstallInstanceOwnedOLSOperator_def ApproveOLSOperatorInstallPlan_def
      GetOLSOperatorInstallPlan_def InstanceOwnedOLSOperatorComplete_def ref mut name own ns
    by (rule refl)
qed

lemma sample_not_user_installed:
  "IsUserInstalledOLSOperatorMode (ref_deps sample_env) sample_instance
     \<lparr>world = installed_cluster insts cfg, calls = cs\<rparr> =
   (GoOk False, \<lparr>world = installed_cluster insts cfg, calls = cs @ [GetConfig, NewClient, ListCSVs [],
      GetSubscription \<lparr>nn_Namespace = osl_Namespace sample_instance, nn_Name = ''lightspeed-operator-abcde''\<rparr>]\<rparr>)"
  by (simp add: IsUserInstalledOLSOperatorMode_def andThen_run ref_GetOLSOperatorCSV sample_name
      onErr_run perform_def ref_client_def Let_def split: sum.split list.split)
    (simp add: sample_subscription_def sample_instance_def)

lemma sample_ensures:
  "same_identity inst sample_instance \<Longrightarrow>
   \<exists>more. EnsureOLSOperatorInstalled (ref_deps sample_env) inst
     \<lparr>world = installed_cluster insts cfg, calls = cs\<rparr> =
   (GoOk True, \<lparr>world = installed_cluster insts cfg, calls = cs @ more\<rparr>)"
  by (simp add: ensure_identity ensure_GoOk sample_not_user_installed sample_installs)

section \<open>Uninstalling\<close>

text \<open>
  What an uninstallation may write: it deletes a plan for the recommended version, then the
  operator's cluster service version, and the latter only if the instance owns it.
\<close>

inductive uninstall_protocol :: "'w deps \<Rightarrow> OpenStackLightspeed \<Rightarrow> api_call list \<Rightarrow> bool"
  for D :: "'w deps" and inst where
  un_nothing: "uninstall_protocol D inst []"
| un_plan: "recommended_plan D plan \<Longrightarrow> uninstall_protocol D inst [DeleteInstallPlan plan]"
| un_csv:
    "uninstall_protocol D inst plans \<Longrightarrow> list_all (\<lambda>c. \<exists>plan. c = DeleteInstallPlan plan) plans \<Longrightarrow>
     is_ols_csv csv \<Longrightarrow> IsOwnedBy (csv_Meta csv) (osl_Meta inst) \<Longrightarrow>
     uninstall_protocol D inst (plans @ [DeleteCSV csv])"

lemma emits_DeleteOLSOperatorInstallPlan [emits_intros]:
  assumes "A (ListInstallPlans (osl_Namespace inst))" "\<And>p. A (DeleteInstallPlan p)"
  shows "emits A (DeleteOLSOperatorInstallPlan D inst)"
  unfolding DeleteOLSOperatorInstallPlan_def using assms by (intro emits_intros)

lemma emits_UninstallInstanceOwnedOLSOperator [emits_intros]:
  assumes "A GetConfig" "A NewClient" "A (ListCSVs [])" "A (ListInstallPlans (osl_Namespace inst))"
    "\<And>p. A (DeleteInstallPlan p)" "\<And>c. A (DeleteCSV c)"
  shows "emits A (UninstallInstanceOwnedOLSOperator D inst)"
  unfolding UninstallInstanceOwnedOLSOperator_def using assms by (intro emits_intros)

definition plan_deletion :: "'w deps \<Rightarrow> api_call list \<Rightarrow> bool" where
  "plan_deletion D l \<longleftrightarrow> l = [] \<or> (\<exists>plan. recommended_plan D plan \<and> l = [DeleteInstallPlan plan])"

lemma writing_delete_plan: "writing (plan_deletion D) (DeleteOLSOperatorInstallPlan D inst)"
  unfolding DeleteOLSOperatorInstallPlan_def
  by (intro writing_read_andThen [where P = "plan_deletion D", OF install_reads_only(2)
        returns_GetOLSOperatorInstallPlan])
    (auto simp: plan_deletion_def intro!: writing_pure writing_write_onErr split: option.split)

lemma uninstall_protocol_steps:
  "plan_deletion D l \<Longrightarrow> uninstall_protocol D inst l"
  "plan_deletion D l \<Longrightarrow> is_ols_csv csv \<Longrightarrow> IsOwnedBy (csv_Meta csv) (osl_Meta inst) \<Longrightarrow>
   uninstall_protocol D inst (l @ [DeleteCSV csv])"
  using un_csv [OF un_nothing, of csv inst D] un_csv [OF un_plan, of D _ csv inst]
  by (auto simp: plan_deletion_def intro: un_nothing un_plan)

lemma writing_uninstall:
  "writing (uninstall_protocol D inst) (UninstallInstanceOwnedOLSOperator D inst)"
  unfolding UninstallInstanceOwnedOLSOperator_def
proof (rule writing_read_andThen [where P = "uninstall_protocol D inst",
      OF install_reads_only(1) returns_GetOLSOperatorCSV])
  fix r :: "ClusterServiceVersion option" assume r: "\<forall>csv. r = Some csv \<longrightarrow> is_ols_csv csv"
  let ?check = "andThen (GetOLSOperatorCSV D) (\<lambda>csvOpt'. case csvOpt' of Some _ \<Rightarrow> ret False
     | None \<Rightarrow> andThen (GetOLSOperatorInstallPlan D inst) (\<lambda>planOpt.
         case planOpt of Some _ \<Rightarrow> ret False | None \<Rightarrow> ret True))"
  have check: "reads_only ?check" by (intro emits_intros) simp_all
  have "writing (uninstall_protocol D inst) (andThen (DeleteOLSOperatorInstallPlan D inst) (\<lambda>_.
       andThen (perform (DeleteCSV csv) (delete_csv (cli D) csv)) (\<lambda>_. ?check)))"
    if "is_ols_csv csv" "IsOwnedBy (csv_Meta csv) (osl_Meta inst)" for csv
    using that check uninstall_protocol_steps
    by (intro writing_andThen [OF writing_delete_plan] writing_write_andThen writing_reads) auto
  with r show "writing (uninstall_protocol D inst) (case r of None \<Rightarrow> ret True | Some csv \<Rightarrow>
      if \<not> IsOwnedBy (csv_Meta csv) (osl_Meta inst) then ret True
      else andThen (DeleteOLSOperatorInstallPlan D inst) (\<lambda>_.
           andThen (perform (DeleteCSV csv) (delete_csv (cli D) csv)) (\<lambda>_. ?check)))"
    by (auto intro: writing_pure un_nothing split: option.split)
qed (rule un_nothing)

text \<open>
  C11: whatever happens, an uninstallation writes at most a deletion of a plan for the
  recommended version, followed by a deletion of a cluster service version of the operator
  that the instance owns.
\<close>

theorem uninstall_write_protocol:
  "\<exists>new. writes (snd (UninstallInstanceOwnedOLSOperator D inst s)) = writes s @ new \<and>
     uninstall_protocol D inst new"
  using writing_uninstall by (rule writingE) blast

text \<open>
  An uninstallation leaves an installation alone that the instance does not own: it
  succeeds at once, and the only thing it did was to look.
\<close>

lemma uninstall_leaves_foreign:
  assumes "GetOLSOperatorCSV D s = (GoOk (Some csv), t)" and "\<not> IsOwnedBy (csv_Meta csv) (osl_Meta inst)"
  shows "UninstallInstanceOwnedOLSOperator D inst s = (GoOk True, t) \<and> writes t = writes s"
  using assms writes_after_read [OF assms(1) install_reads_only(1)]
  by (simp add: UninstallInstanceOwnedOLSOperator_def)

text \<open>
  An uninstallation answers true only if the operator is gone, as far as the instance is
  concerned: the first look found no cluster service version of the instance, or the last
  looks found no cluster service version of the operator and no plan for it.
\<close>

lemma uninstall_true_means_gone:
  assumes "UninstallInstanceOwnedOLSOperator D inst s = (GoOk True, t)"
  shows "(\<exists>r. GetOLSOperatorCSV D s = (GoOk r, t) \<and>
            (case r of None \<Rightarrow> True | Some csv \<Rightarrow> \<not> IsOwnedBy (csv_Meta csv) (osl_Meta inst))) \<or>
         (\<exists>s1 s2. GetOLSOperatorCSV D s1 = (GoOk None, s2) \<and>
            GetOLSOperatorInstallPlan D inst s2 = (GoOk None, t))"
proof -
  from assms obtain r s' where r: "GetOLSOperatorCSV D s = (GoOk r, s')"
    and rest: "(case r of None \<Rightarrow> ret True | Some csv \<Rightarrow>
       if \<not> IsOwnedBy (csv_Meta csv) (osl_Meta inst) then ret True
         else
           andThen (DeleteOLSOperatorInstallPlan D inst) (\<lambda>_.
           andThen (perform (DeleteCSV csv) (delete_csv (cli D) csv)) (\<lambda>_.
           andThen (GetOLSOperatorCSV D) (\<lambda>csvOpt'.
           case csvOpt' of
             Some _ \<Rightarrow> ret False
           | None \<Rightarrow>
               andThen (GetOLSOperatorInstallPlan D inst) (\<lambda>planOpt.
               case planOpt of Some _ \<Rightarrow> ret False | None \<Rightarrow> ret True))))) s' = (GoOk True, t)"
    unfolding UninstallInstanceOwnedOLSOperator_def andThen_eq_GoOk [of "GetOLSOperatorCSV D" _ s] by blast
  show ?thesis
  proof (cases "\<exists>csv. r = Some csv \<and> IsOwnedBy (csv_Meta csv) (osl_Meta inst)")
    case True
    with rest have "\<exists>s1 s2. GetOLSOperatorCSV D s1 = (GoOk None, s2) \<and>
        GetOLSOperatorInstallPlan D inst s2 = (GoOk None, t)"
      by (fastforce simp: andThen_eq_GoOk split: option.splits)
    then show ?thesis ..
  next
    case False
    with r rest show ?thesis by (auto split: option.splits if_splits)
  qed
qed

text \<open>
  Two instances get the same subscription name exactly when their identifiers agree in the
  first five characters, and an identifier shorter than that makes the operator panic.
\<close>

lemma subscription_name_collision:
  "((\<exists>name. GetOLSSubscriptionName i = GoOk name \<and> GetOLSSubscriptionName j = GoOk name) \<longleftrightarrow>
     5 \<le> length (osl_UID i) \<and> 5 \<le> length (osl_UID j) \<and> take 5 (osl_UID i) = take 5 (osl_UID j)) \<and>
   (is_panic (GetOLSSubscriptionName i) \<longleftrightarrow> length (osl_UID i) < 5)"
  by (auto simp: subscription_name_cases)

end
