(* ===== verification/Reconciler.thy ===== *)
theory Reconciler
  imports OLS_Config OLS_Install
begin

text \<open>
  \<^verbatim>\<open>internal/controller/openstacklightspeed_controller.go\<close>: the reconciler. \<^verbatim>\<open>Reconcile\<close> reads the
  instance, runs the body with the instance as its mutable state, and finally computes the
  overall condition and patches the instance, whatever the body returned. The body is a
  computation that returns a result, an optional error and the instance as it left it: an
  error of the body does not stop the deferred update, a panic does.
\<close>

section \<open>Results\<close>

text \<open>\<^verbatim>\<open>ctrl.Result\<close>; durations are in nanoseconds.\<close>

record ReconcileResult =
  Requeue :: bool
  RequeueAfter :: goint

definition Second :: goint where
  "Second = 1000000000"

definition empty_Result :: ReconcileResult where
  "empty_Result = \<lparr>Requeue = False, RequeueAfter = 0\<rparr>"

type_synonym outcome = "(ReconcileResult \<times> goerr option) \<times> OpenStackLightspeed"

section \<open>resolveOCPVersion\<close>

definition resolveOCPVersion ::
  "'w deps \<Rightarrow> OpenStackLightspeed \<Rightarrow> ('w, string \<times> OpenStackLightspeed) op" where
  "resolveOCPVersion D inst =
     (let C = condl D in
      if \<not> EnableOCPRAG (Spec inst) then
        ret ([], set_ActiveOCPRAGVersion []
          (set_Conditions (MarkTrue C (osl_Conditions inst) OCPRAGCondition OCPRAGDisabledMessage) inst))
      else
        onErr (DetectOCPVersion D)
          (\<lambda>err.
            let cond = FalseCondition C OCPRAGCondition (ErrorReason C) (SeverityError C)
                         OCPRAGDetectionFailedMessage [];
                cond' = cond\<lparr>cond_Message := Sprintf ''%s: %s'' [OCPRAGDetectionFailedMessage, Error err]\<rparr> in
            ret ([], set_ActiveOCPRAGVersion []
              (set_Conditions (SetCondition C (osl_Conditions inst) cond') inst)))
          (\<lambda>detectedVersion.
            onErr (lift_res (ResolveOCPVersion detectedVersion (OCPRAGVersionOverride (Spec inst))
                     (EnableOCPRAG (Spec inst))))
              (\<lambda>err.
                let cond = FalseCondition C OCPRAGCondition (ErrorReason C) (SeverityError C)
                             OCPRAGOverrideInvalidMessage [];
                    cond' = cond\<lparr>cond_Message :=
                      Sprintf ''%s: %s'' [OCPRAGOverrideInvalidMessage, Error err]\<rparr> in
                ret ([], set_ActiveOCPRAGVersion []
                  (set_Conditions (SetCondition C (osl_Conditions inst) cond') inst)))
              (\<lambda>(activeVersion, isFallback).
                let inst' = set_ActiveOCPRAGVersion activeVersion inst;
                    cond = (if isFallback
                      then (TrueCondition C OCPRAGCondition ''Fallback'' [])\<lparr>cond_Message :=
                        Sprintf OCPRAGVersionFallbackMessage
                          [detectedVersion, show_strings SupportedOCPVersions]\<rparr>
                      else (TrueCondition C OCPRAGCondition ''Resolved'' [])\<lparr>cond_Message :=
                        Sprintf OCPRAGVersionResolvedMessage [activeVersion]\<rparr>) in
                ret (activeVersion, set_Conditions (SetCondition C (osl_Conditions inst') cond) inst'))))"

section \<open>reconcileDelete\<close>

definition reconcileDelete ::
  "'w deps \<Rightarrow> Helper \<Rightarrow> OpenStackLightspeed \<Rightarrow> ('w, outcome) op" where
  "reconcileDelete D helper inst =
     onErr (RemoveOLSConfig D helper inst)
       (\<lambda>err. ret ((empty_Result, Some err), inst))
       (\<lambda>isRemoved.
         if \<not> isRemoved then ret ((empty_Result\<lparr>RequeueAfter := Second * 10\<rparr>, None), inst)
         else
           onErr (UninstallInstanceOwnedOLSOperator D inst)
             (\<lambda>err. ret ((empty_Result, Some err), inst))
             (\<lambda>isUninstalled.
               if \<not> isUninstalled then ret ((empty_Result\<lparr>RequeueAfter := Second * 10\<rparr>, None), inst)
               else ret ((empty_Result, None), snd (RemoveFinalizer D inst (GetFinalizer D helper)))))"

section \<open>The OLSConfig of the instance\<close>

definition olsConfigGVK :: GroupVersionKind where
  "olsConfigGVK = \<lparr>gvk_Group = ''ols.openshift.io'', gvk_Version = ''v1alpha1'', gvk_Kind = ''OLSConfig''\<rparr>"

definition new_olsConfig :: "'w deps \<Rightarrow> object" where
  "new_olsConfig D =
     SetName (unsl D) (SetGroupVersionKind (unsl D) Map.empty olsConfigGVK) OLSConfigName"

text \<open>The mutate function given to \<^verbatim>\<open>CreateOrPatch\<close>: the ownership check, then the patch.\<close>

definition olsConfig_mutate ::
  "'w deps \<Rightarrow> Helper \<Rightarrow> OpenStackLightspeed \<Rightarrow> object \<Rightarrow> object gores" where
  "olsConfig_mutate D helper inst olsConfig =
     (let ownerLabel = label_of (GetLabels (unsl D) olsConfig) OpenStackLightspeedOwnerIDLabel in
      if ownerLabel \<noteq> [] \<and> ownerLabel \<noteq> osl_UID inst
      then GoErr (Errorf ''OLSConfig is managed by different OpenStackLightspeed instance'' [])
      else PatchOLSConfig D helper inst olsConfig)"

section \<open>Reconcile\<close>

text \<open>The start of the body: conditions, observed generation.\<close>

definition initialise_status :: "'w deps \<Rightarrow> OpenStackLightspeed \<Rightarrow> OpenStackLightspeed" where
  "initialise_status D inst =
     (let C = condl D;
          cl = CreateList C [UnknownCondition C OpenStackLightspeedReadyCondition (InitReason C)
                 OpenStackLightspeedReadyInitMessage []];
          inst' = set_Conditions (Init C (osl_Conditions inst) cl) inst in
      set_ObservedGeneration (meta_Generation (osl_Meta inst')) inst')"

text \<open>The two defaults that are filled in when the specification leaves them empty.\<close>

definition apply_defaults ::
  "OpenStackLightspeedDefaults \<Rightarrow> OpenStackLightspeed \<Rightarrow> OpenStackLightspeed" where
  "apply_defaults dflt inst =
     (let inst' = (if RAGImage (Spec inst) = []
                   then inst\<lparr>Spec := (Spec inst)\<lparr>RAGImage := RAGImageURL dflt\<rparr>\<rparr> else inst) in
      if MaxTokensForResponse (Spec inst') = 0
      then inst'\<lparr>Spec := (Spec inst')\<lparr>MaxTokensForResponse := DefaultMaxTokensForResponse dflt\<rparr>\<rparr>
      else inst')"

text \<open>From the creation of the \<^verbatim>\<open>OLSConfig\<close> to the end of the body.\<close>

definition reconcile_olsConfig ::
  "'w deps \<Rightarrow> Helper \<Rightarrow> OpenStackLightspeed \<Rightarrow> ('w, outcome) op" where
  "reconcile_olsConfig D helper inst =
     (let C = condl D in
      onErr (perform (CreateOrPatchOLSConfig (new_olsConfig D))
              (create_or_patch_olsconfig (cli D) (new_olsConfig D) (olsConfig_mutate D helper inst)))
        (\<lambda>err. ret ((empty_Result, Some err),
           set_Conditions (SetCondition C (osl_Conditions inst)
             (FalseCondition C OpenStackLightspeedReadyCondition (ErrorReason C) (SeverityWarning C)
                (DeploymentReadyErrorMessage C) [Error err])) inst))
        (\<lambda>_.
          onErr (IsOLSConfigReady D)
            (\<lambda>err. ret ((empty_Result, Some err), inst))
            (\<lambda>OLSConfigReady.
              if OLSConfigReady then
                ret ((empty_Result, None),
                  set_Conditions (MarkTrue C (osl_Conditions inst) OpenStackLightspeedReadyCondition
                    OpenStackLightspeedReadyMessage) inst)
              else ret ((empty_Result\<lparr>RequeueAfter := Second * 5\<rparr>, None), inst))))"

text \<open>The installation of the OpenShift Lightspeed operator, then the rest.\<close>

definition reconcile_install ::
  "'w deps \<Rightarrow> Helper \<Rightarrow> OpenStackLightspeed \<Rightarrow> ('w, outcome) op" where
  "reconcile_install D helper inst =
     (let C = condl D in
      onErr (EnsureOLSOperatorInstalled D inst)
        (\<lambda>err. ret ((empty_Result, None),
           set_Conditions (SetCondition C (osl_Conditions inst)
             (FalseCondition C OpenShiftLightspeedOperatorReadyCondition (ErrorReason C)
                (SeverityWarning C) (DeploymentReadyErrorMessage C) [Error err])) inst))
        (\<lambda>isOLSOperatorInstalled.
          if \<not> isOLSOperatorInstalled then
            ret ((\<lparr>Requeue = True, RequeueAfter = 10 * Second\<rparr>, None),
              set_Conditions (SetCondition C (osl_Conditions inst)
                (FalseCondition C OpenShiftLightspeedOperatorReadyCondition (RequestedReason C)
                   (SeverityInfo C) OpenShiftLightspeedOperatorWaiting [])) inst)
          else
            reconcile_olsConfig D helper
              (set_Conditions (MarkTrue C (osl_Conditions inst) OpenShiftLightspeedOperatorReadyCondition
                 OpenShiftLightspeedOperatorReady) inst)))"

definition reconcile_body ::
  "'w deps \<Rightarrow> OpenStackLightspeedDefaults \<Rightarrow> Helper \<Rightarrow> OpenStackLightspeed \<Rightarrow> ('w, outcome) op" where
  "reconcile_body D dflt helper inst =
     andThen (resolveOCPVersion D (initialise_status D inst)) (\<lambda>(_, inst).
     if \<not> Time_IsZero D (meta_DeletionTimestamp (osl_Meta inst)) then reconcileDelete D helper inst
     else
       (let (added, inst) = AddFinalizer D inst (GetFinalizer D helper) in
        if added then ret ((empty_Result, None), inst)
        else reconcile_install D helper (apply_defaults dflt inst)))"

text \<open>The deferred function, when there is no panic; the error of the patch is dropped.\<close>

definition overall_conditions :: "condition_lib \<Rightarrow> Conditions \<Rightarrow> Conditions \<Rightarrow> Conditions" where
  "overall_conditions C saved conds =
     (let cs = RestoreLastTransitionTimes C conds saved in
      if AllSubConditionIsTrue C cs then MarkTrue C cs (ReadyCondition C) (ReadyMessage C)
      else
        (let cs' = MarkUnknown C cs (ReadyCondition C) (InitReason C) (ReadyInitMessage C) in
         SetCondition C cs' (Mirror C cs' (ReadyCondition C))))"

definition deferred_update ::
  "'w deps \<Rightarrow> Helper \<Rightarrow> Conditions \<Rightarrow> OpenStackLightspeed \<Rightarrow> ('w, unit) op" where
  "deferred_update D helper saved inst =
     (let inst' = set_Conditions (overall_conditions (condl D) saved (osl_Conditions inst)) inst in
      onErr (perform (PatchInstance inst') (patch_instance (cli D) helper inst'))
        (\<lambda>err. ret ()) (\<lambda>_. ret ()))"

definition Reconcile ::
  "'w deps \<Rightarrow> OpenStackLightspeedDefaults \<Rightarrow> NamespacedName \<Rightarrow> ('w, ReconcileResult) op" where
  "Reconcile D dflt req =
     onErr (perform (GetInstance req) (get_instance (cli D) req))
       (\<lambda>err. if IsNotFound D err then ret empty_Result else fail err)
       (\<lambda>inst. case NewHelper D inst of
          Inl err \<Rightarrow> fail err
        | Inr helper \<Rightarrow>
            (let savedConditions = osl_Conditions inst in
             andThen (reconcile_body D dflt helper inst) (\<lambda>((result, err), inst').
             andThen (deferred_update D helper savedConditions inst') (\<lambda>_.
             case err of None \<Rightarrow> ret result | Some e \<Rightarrow> fail e))))"

section \<open>Watches\<close>

text \<open>
  What starts a reconciliation: \<^verbatim>\<open>For\<close> the object itself, \<^verbatim>\<open>Owns\<close> through the controller owner
  reference, \<^verbatim>\<open>Watches\<close> through \<^verbatim>\<open>NotifyAllOpenStackLightspeeds\<close> when the resource version of the
  object changed. \<open>Complete\<close> is the builder of controller-runtime.
\<close>

datatype watch =
    For GroupVersionKind
  | Owns GroupVersionKind
  | WatchesNotifyAll GroupVersionKind

definition operators_kind :: "string \<Rightarrow> GroupVersionKind" where
  "operators_kind k = \<lparr>gvk_Group = ''operators.coreos.com'', gvk_Version = ''v1alpha1'', gvk_Kind = k\<rparr>"

definition SetupWithManager :: "(watch list \<Rightarrow> 'r) \<Rightarrow> 'r" where
  "SetupWithManager Complete =
     (let clusterVersion = \<lparr>gvk_Group = ''config.openshift.io'', gvk_Version = ''v1'',
            gvk_Kind = ''ClusterVersion''\<rparr> in
      Complete [For \<lparr>gvk_Group = fst GroupVersion, gvk_Version = snd GroupVersion,
                  gvk_Kind = ''OpenStackLightspeed''\<rparr>,
                Owns (operators_kind ''ClusterServiceVersion''),
                Owns (operators_kind ''Subscription''),
                WatchesNotifyAll (operators_kind ''InstallPlan''),
                WatchesNotifyAll clusterVersion])"

text \<open>The loop that builds the requests.\<close>

fun notify_requests :: "OpenStackLightspeed list \<Rightarrow> NamespacedName list \<Rightarrow> NamespacedName list" where
  "notify_requests [] requests = requests"
| "notify_requests (item # items) requests =
     notify_requests items
       (requests @ [\<lparr>nn_Namespace = osl_Namespace item, nn_Name = meta_Name (osl_Meta item)\<rparr>])"

definition NotifyAllOpenStackLightspeeds :: "'w deps \<Rightarrow> string \<Rightarrow> ('w, NamespacedName list) op" where
  "NotifyAllOpenStackLightspeeds D objNamespace =
     (let ns = (if objNamespace = [] then None else Some objNamespace) in
      onErr (perform (ListInstances ns) (list_instances (cli D) ns))
        (\<lambda>err. ret [])
        (\<lambda>items. ret (notify_requests items [])))"

section \<open>The OCP version\<close>

lemma setters_commute:
  "set_ActiveOCPRAGVersion v (set_Conditions cs i) = set_Conditions cs (set_ActiveOCPRAGVersion v i)"
  by (simp add: set_ActiveOCPRAGVersion_def set_Conditions_def)

text \<open>
  What \<^verbatim>\<open>resolveOCPVersion\<close> leaves behind: a version in the status and one changed condition, and
  nothing else. The version is active exactly when the condition says so.
\<close>

definition ocp_outcome :: "'w deps \<Rightarrow> OpenStackLightspeed \<Rightarrow> string \<Rightarrow> OpenStackLightspeed \<Rightarrow> bool" where
  "ocp_outcome D inst v inst' \<longleftrightarrow>
     (\<exists>cs. inst' = set_Conditions cs (set_ActiveOCPRAGVersion v inst) \<and>
       (cs = MarkTrue (condl D) (osl_Conditions inst) OCPRAGCondition OCPRAGDisabledMessage \<or>
        (\<exists>f m c. cs = SetCondition (condl D) (osl_Conditions inst) (c\<lparr>cond_Message := m\<rparr>) \<and>
           (c = TrueCondition (condl D) OCPRAGCondition f [] \<or>
            c = FalseCondition (condl D) OCPRAGCondition (ErrorReason (condl D)) (SeverityError (condl D)) f []))))"

lemma returns_resolveOCPVersion:
  "returns (\<lambda>(v, inst'). ocp_outcome D inst v inst') (resolveOCPVersion D inst)"
  unfolding returns_def resolveOCPVersion_def Let_def
  by (auto simp: onErr_eq_GoOk ocp_outcome_def setters_commute split: if_splits prod.splits)

lemma resolve_no_error: "resolveOCPVersion D inst s \<noteq> (GoErr e, t)"
  unfolding resolveOCPVersion_def Let_def
  by (auto simp: onErr_run split: prod.splits gores.splits if_splits)

context conditions_contract
begin

lemma is_true_initial: "\<not> IsTrue C (Init C cs (CreateList C
     [UnknownCondition C OpenStackLightspeedReadyCondition r m []])) OpenStackLightspeedReadyCondition"
  using is_true_init [of "UnknownCondition C OpenStackLightspeedReadyCondition r m []"
      "[UnknownCondition C OpenStackLightspeedReadyCondition r m []]" cs] ready_is_top(1)
  by (simp add: unknown_type unknown_status)

lemma is_true_overall:
  "t \<noteq> ReadyCondition C \<Longrightarrow> IsTrue C (overall_conditions C saved cs) t \<longleftrightarrow> IsTrue C cs t"
  by (simp add: overall_conditions_def Let_def is_true_mark_true is_true_mark_unknown is_true_set
      mirror_type is_true_restore)

end

lemma ocp_outcome_frame:
  assumes "ocp_outcome D inst v inst'"
  shows "osl_Meta inst' = osl_Meta inst" "Spec inst' = Spec inst" "osl_TypeMeta inst' = osl_TypeMeta inst"
    "ActiveOCPRAGVersion (Status inst') = v"
    "ObservedGeneration (Status inst') = ObservedGeneration (Status inst)"
  using assms by (auto simp: ocp_outcome_def)

lemma ocp_outcome_other_conditions:
  assumes "conditions_contract (condl D)" and "ocp_outcome D inst v inst'" and "t \<noteq> OCPRAGCondition"
  shows "IsTrue (condl D) (osl_Conditions inst') t \<longleftrightarrow> IsTrue (condl D) (osl_Conditions inst) t"
  using assms(2,3)
  by (auto simp: ocp_outcome_def conditions_contract.is_true_mark_true [OF assms(1)]
      conditions_contract.is_true_set [OF assms(1)] conditions_contract.true_type [OF assms(1)]
      conditions_contract.false_type [OF assms(1)])

lemma initialise_status_frame [simp]:
  "osl_Meta (initialise_status D inst) = osl_Meta inst" "Spec (initialise_status D inst) = Spec inst"
  "osl_TypeMeta (initialise_status D inst) = osl_TypeMeta inst"
  "ObservedGeneration (Status (initialise_status D inst)) = meta_Generation (osl_Meta inst)"
  by (simp_all add: initialise_status_def Let_def)

lemma initialise_status_not_ready:
  "conditions_contract (condl D) \<Longrightarrow>
   \<not> IsTrue (condl D) (osl_Conditions (initialise_status D inst)) OpenStackLightspeedReadyCondition"
  by (simp add: initialise_status_def Let_def conditions_contract.is_true_initial)

lemma apply_defaults_frame [simp]:
  "osl_Meta (apply_defaults d inst) = osl_Meta inst" "Status (apply_defaults d inst) = Status inst"
  "osl_TypeMeta (apply_defaults d inst) = osl_TypeMeta inst"
  by (simp_all add: apply_defaults_def Let_def)

section \<open>The calls of a reconciliation\<close>

lemma emits_resolveOCPVersion [emits_intros]:
  assumes "A GetConfig" "A NewClient" "A (GetClusterVersion ''version'')"
  shows "emits A (resolveOCPVersion D inst)"
  unfolding resolveOCPVersion_def Let_def using assms by (intro emits_intros)

lemma emits_reconcileDelete [emits_intros]:
  assumes "A GetConfig" "A NewClient" "A (ListCSVs [])" "A (ListInstallPlans (osl_Namespace inst))"
    "\<And>p. A (DeleteInstallPlan p)" "\<And>c. A (DeleteCSV c)"
    "A ListOLSConfigs" "\<And>obj. A (CreateOrPatchOLSConfig obj)" "\<And>obj. A (DeleteOLSConfig obj)"
  shows "emits A (reconcileDelete D helper inst)"
  unfolding reconcileDelete_def using assms by (intro emits_intros)

lemma emits_reconcile_olsConfig [emits_intros]:
  assumes "A ListOLSConfigs" "\<And>obj. A (CreateOrPatchOLSConfig obj)" "\<And>m. A (RandInt m)"
    "\<And>obj. A (UpdateOLSConfig obj)"
  shows "emits A (reconcile_olsConfig D helper inst)"
  unfolding reconcile_olsConfig_def Let_def using assms by (intro emits_intros)

lemma emits_reconcile_install [emits_intros]:
  assumes "A GetConfig" "A NewClient" "A (ListCSVs [])" "A (ListInstallPlans (osl_Namespace inst))"
    "\<And>x. A (CreateOrUpdateSubscription x)" "\<And>p. A (UpdateInstallPlan p)" "\<And>c. A (UpdateCSV c)"
    "\<And>k. A (GetSubscription k)" "A ListOLSConfigs" "\<And>obj. A (CreateOrPatchOLSConfig obj)"
    "\<And>m. A (RandInt m)" "\<And>obj. A (UpdateOLSConfig obj)"
  shows "emits A (reconcile_install D helper inst)"
  unfolding reconcile_install_def Let_def using assms by (intro emits_intros)

text \<open>No call of the body is one on the instance itself.\<close>

fun is_body_call :: "api_call \<Rightarrow> bool" where
  "is_body_call (PatchInstance i) = False"
| "is_body_call (GetInstance k) = False"
| "is_body_call c = True"

lemma emits_reconcile_body: "emits is_body_call (reconcile_body D dflt helper inst)"
  unfolding reconcile_body_def
  by (intro emits_intros) (simp_all add: case_prod_beta emits_intros)

interpretation body: footprint "reconcile_body D dflt helper inst" is_body_call
  for D :: "'w deps" and dflt helper inst
  by unfold_locales (rule emits_reconcile_body)

section \<open>The body never returns an error on its own\<close>

definition no_error :: "('w, 'a) op \<Rightarrow> bool" where
  "no_error m \<longleftrightarrow> (\<forall>s e t. m s \<noteq> (GoErr e, t))"

lemma no_error_ret [intro]: "no_error (ret x)"
  by (simp add: no_error_def)

lemma no_error_onErr [intro]:
  "(\<And>e. no_error (h e)) \<Longrightarrow> (\<And>x. no_error (f x)) \<Longrightarrow> no_error (onErr m h f)"
  unfolding no_error_def by (fastforce simp: onErr_run split: prod.splits gores.splits)

lemma no_error_andThen [intro]:
  "no_error m \<Longrightarrow> (\<And>x. no_error (f x)) \<Longrightarrow> no_error (andThen m f)"
  unfolding no_error_def by (fastforce simp: andThen_run split: prod.splits gores.splits)

lemma no_error_if [intro]: "no_error m \<Longrightarrow> no_error n \<Longrightarrow> no_error (if b then m else n)"
  by simp

lemma no_error_reconcile_olsConfig [intro]: "no_error (reconcile_olsConfig D helper inst)"
  unfolding reconcile_olsConfig_def Let_def by (intro no_error_onErr no_error_ret no_error_if)

lemma no_error_reconcile_install [intro]: "no_error (reconcile_install D helper inst)"
  unfolding reconcile_install_def Let_def
  by (intro no_error_onErr no_error_ret no_error_if no_error_reconcile_olsConfig)

lemma no_error_reconcileDelete [intro]: "no_error (reconcileDelete D helper inst)"
  unfolding reconcileDelete_def by (intro no_error_onErr no_error_ret no_error_if)

lemma no_error_reconcile_body: "no_error (reconcile_body D dflt helper inst)"
  unfolding reconcile_body_def Let_def
proof (intro no_error_andThen)
  show "no_error (resolveOCPVersion D (initialise_status D inst))"
    by (simp add: no_error_def resolve_no_error)
qed (auto simp: case_prod_beta)

section \<open>A run of Reconcile\<close>

text \<open>The instance as the deferred function patches it.\<close>

definition patched :: "'w deps \<Rightarrow> OpenStackLightspeed \<Rightarrow> OpenStackLightspeed \<Rightarrow> OpenStackLightspeed" where
  "patched D inst inst' =
     set_Conditions (overall_conditions (condl D) (osl_Conditions inst) (osl_Conditions inst')) inst'"

lemma patched_frame [simp]:
  "osl_Meta (patched D inst inst') = osl_Meta inst'" "Spec (patched D inst inst') = Spec inst'"
  "ObservedGeneration (Status (patched D inst inst')) = ObservedGeneration (Status inst')"
  "ActiveOCPRAGVersion (Status (patched D inst inst')) = ActiveOCPRAGVersion (Status inst')"
  by (simp_all add: patched_def)

lemma deferred_update_run:
  "deferred_update D helper (osl_Conditions inst) inst' s =
     (GoOk (), s\<lparr>world := snd (patch_instance (cli D) helper (patched D inst inst') (world s)),
        calls := calls s @ [PatchInstance (patched D inst inst')]\<rparr>)"
  by (simp add: deferred_update_def patched_def Let_def onErr_run perform_def split: prod.split sum.split)

definition result_of :: "ReconcileResult \<times> goerr option \<Rightarrow> ReconcileResult gores" where
  "result_of p = (case snd p of None \<Rightarrow> GoOk (fst p) | Some e \<Rightarrow> GoErr e)"

definition after_get :: "NamespacedName \<Rightarrow> 'w \<Rightarrow> 'w state \<Rightarrow> 'w state" where
  "after_get req w s = s\<lparr>world := w, calls := calls s @ [GetInstance req]\<rparr>"

text \<open>
  With an instance to work on, a run is: read the instance, run the body, patch the instance.
\<close>

lemma Reconcile_run:
  assumes "get_instance (cli D) req (world s) = (Inr inst, w)" and "NewHelper D inst = Inr helper"
    and "reconcile_body D dflt helper inst (after_get req w s) = (GoOk (p, inst'), s')"
  shows "Reconcile D dflt req s =
     (result_of p, s'\<lparr>world := snd (patch_instance (cli D) helper (patched D inst inst') (world s')),
        calls := calls s' @ [PatchInstance (patched D inst inst')]\<rparr>)"
  using assms unfolding after_get_def
  by (auto simp: Reconcile_def onErr_run andThen_run perform_def deferred_update_run Let_def
      result_of_def case_prod_beta split: option.split)

lemma Reconcile_panic:
  assumes "get_instance (cli D) req (world s) = (Inr inst, w)" and "NewHelper D inst = Inr helper"
    and "reconcile_body D dflt helper inst (after_get req w s) = (GoPanic p, s')"
  shows "Reconcile D dflt req s = (GoPanic p, s')"
  using assms unfolding after_get_def
  by (simp add: Reconcile_def onErr_run andThen_run perform_def Let_def)

lemma Reconcile_cases:
  assumes "get_instance (cli D) req (world s) = (Inr inst, w)" and "NewHelper D inst = Inr helper"
    and "Reconcile D dflt req s = (r, t)"
  obtains
    (panicked) p where "r = GoPanic p" "reconcile_body D dflt helper inst (after_get req w s) = (GoPanic p, t)"
  | (finished) p inst' s' where "r = result_of p"
      "reconcile_body D dflt helper inst (after_get req w s) = (GoOk (p, inst'), s')"
      "t = s'\<lparr>world := snd (patch_instance (cli D) helper (patched D inst inst') (world s')),
        calls := calls s' @ [PatchInstance (patched D inst inst')]\<rparr>"
proof -
  obtain b s' where b: "reconcile_body D dflt helper inst (after_get req w s) = (b, s')"
    by (cases "reconcile_body D dflt helper inst (after_get req w s)")
  show thesis
  proof (cases b)
    case (GoOk x)
    then obtain p inst' where "b = GoOk (p, inst')" by (cases x) simp
    with b have run: "reconcile_body D dflt helper inst (after_get req w s) = (GoOk (p, inst'), s')"
      by simp
    with Reconcile_run [OF assms(1,2) run] assms(3) show thesis by (intro finished [OF _ run]) simp_all
  next
    case (GoErr e)
    with b no_error_reconcile_body [of D dflt helper inst] show thesis by (auto simp: no_error_def)
  next
    case (GoPanic p)
    with b Reconcile_panic [OF assms(1,2)] assms(3) panicked show thesis by auto
  qed
qed

text \<open>A run whose last call is the patch of an instance has finished with that patch.\<close>

definition after_patch :: "'w deps \<Rightarrow> Helper \<Rightarrow> OpenStackLightspeed \<Rightarrow> 'w state \<Rightarrow> 'w state" where
  "after_patch D helper inst s =
     s\<lparr>world := snd (patch_instance (cli D) helper inst (world s)), calls := calls s @ [PatchInstance inst]\<rparr>"

lemma after_patch_calls [simp]: "calls (after_patch D helper inst s) = calls s @ [PatchInstance inst]"
  by (simp add: after_patch_def)

lemma patched_run_state:
  assumes "get_instance (cli D) req (world s) = (Inr inst, w)" and "NewHelper D inst = Inr helper"
    and "Reconcile D dflt req s = (r, t)" and "last (calls t) = PatchInstance inst'"
  obtains p inst0 s' where "r = result_of p"
    "reconcile_body D dflt helper inst (after_get req w s) = (GoOk (p, inst0), s')"
    "inst' = patched D inst inst0" "t = after_patch D helper inst' s'"
  using assms(1-3)
proof (cases rule: Reconcile_cases)
  case (panicked p)
  obtain new where "calls t = (calls s @ [GetInstance req]) @ new" "list_all is_body_call new"
    using body.calls_extend [of D dflt helper inst "after_get req w s"] panicked(2)
    by (auto simp: after_get_def)
  with assms(4) show ?thesis by (cases new rule: rev_cases) auto
next
  case (finished p inst0 s')
  with assms(4) show ?thesis by (intro that [OF finished(1,2)]) (simp_all add: after_patch_def)
qed

lemma patched_run:
  assumes "get_instance (cli D) req (world s) = (Inr inst, w)" and "NewHelper D inst = Inr helper"
    and "Reconcile D dflt req s = (r, t)" and "last (calls t) = PatchInstance inst'"
  obtains p inst0 s' where "r = result_of p"
    "reconcile_body D dflt helper inst (after_get req w s) = (GoOk (p, inst0), s')"
    "inst' = patched D inst inst0" "calls t = calls s' @ [PatchInstance inst']"
  by (rule patched_run_state [OF assms]) (simp add: that)

section \<open>Properties of a run\<close>

text \<open>
  For a request whose instance does not exist any more there is nothing to do: no error,
  no retry and no further call.
\<close>

lemma reconcile_not_found:
  assumes "get_instance (cli D) req (world s) = (Inl err, w)" and "IsNotFound D err"
  shows "Reconcile D dflt req s = (GoOk empty_Result, s\<lparr>world := w, calls := calls s @ [GetInstance req]\<rparr>)"
  using assms by (simp add: Reconcile_def onErr_run perform_def)

definition sample_request :: NamespacedName where
  "sample_request = \<lparr>nn_Namespace = ''openshift-lightspeed'', nn_Name = ''osl''\<rparr>"

definition sample_defaults :: OpenStackLightspeedDefaults where
  "sample_defaults = SetupDefaults (\<lambda>name dflt. dflt)"

lemma after_get_calls [simp]: "calls (after_get req w s) = calls s @ [GetInstance req]"
  by (simp add: after_get_def)

lemma result_of_no_panic [simp]: "result_of p \<noteq> GoPanic q"
  by (simp add: result_of_def split: option.split)

lemma set_Conditions_again [simp]: "set_Conditions c (set_Conditions c' i) = set_Conditions c i"
  by (simp add: set_Conditions_def)

lemma set_Conditions_same: "\<exists>cs. i = set_Conditions cs i"
  by (rule exI [of _ "osl_Conditions i"]) (simp add: set_Conditions_def)

lemma olsConfig_outcome:
  "reconcile_olsConfig D helper inst s = (GoOk (p, inst'), t) \<Longrightarrow> \<exists>cs. inst' = set_Conditions cs inst"
  unfolding reconcile_olsConfig_def Let_def onErr_eq_GoOk
  by (auto simp: onErr_eq_GoOk intro: set_Conditions_same split: if_splits)

lemma install_outcome:
  "reconcile_install D helper inst s = (GoOk (p, inst'), t) \<Longrightarrow> \<exists>cs. inst' = set_Conditions cs inst"
  unfolding reconcile_install_def Let_def onErr_eq_GoOk
  by (fastforce split: if_splits dest: olsConfig_outcome)

lemma delete_outcome:
  assumes "reconcileDelete D helper inst s = (GoOk (p, inst'), t)"
  shows "inst' = inst \<or>
    (p = (empty_Result, None) \<and> inst' = snd (RemoveFinalizer D inst (GetFinalizer D helper)) \<and>
     (\<exists>s'. RemoveOLSConfig D helper inst s = (GoOk True, s') \<and>
        UninstallInstanceOwnedOLSOperator D inst s' = (GoOk True, t)))"
  using assms unfolding reconcileDelete_def onErr_eq_GoOk
  by (fastforce simp: onErr_eq_GoOk split: if_splits)

text \<open>The four ways through the body.\<close>

lemma body_cases:
  assumes "reconcile_body D dflt helper inst s = (GoOk (p, inst'), t)"
  obtains v inst1 s1 where "resolveOCPVersion D (initialise_status D inst) s = (GoOk (v, inst1), s1)"
    "ocp_outcome D (initialise_status D inst) v inst1"
    "(\<not> Time_IsZero D (meta_DeletionTimestamp (osl_Meta inst)) \<and>
        reconcileDelete D helper inst1 s1 = (GoOk (p, inst'), t)) \<or>
     (Time_IsZero D (meta_DeletionTimestamp (osl_Meta inst)) \<and>
        fst (AddFinalizer D inst1 (GetFinalizer D helper)) \<and> p = (empty_Result, None) \<and> t = s1 \<and>
        inst' = snd (AddFinalizer D inst1 (GetFinalizer D helper))) \<or>
     (Time_IsZero D (meta_DeletionTimestamp (osl_Meta inst)) \<and>
        \<not> fst (AddFinalizer D inst1 (GetFinalizer D helper)) \<and>
        reconcile_install D helper (apply_defaults dflt (snd (AddFinalizer D inst1 (GetFinalizer D helper)))) s1 =
          (GoOk (p, inst'), t))"
proof -
  from assms obtain v inst1 s1 where
    r: "resolveOCPVersion D (initialise_status D inst) s = (GoOk (v, inst1), s1)"
    and rest: "(if \<not> Time_IsZero D (meta_DeletionTimestamp (osl_Meta inst1)) then reconcileDelete D helper inst1
       else (let (added, inst) = AddFinalizer D inst1 (GetFinalizer D helper) in
        if added then ret ((empty_Result, None), inst)
        else reconcile_install D helper (apply_defaults dflt inst))) s1 = (GoOk (p, inst'), t)"
    unfolding reconcile_body_def andThen_eq_GoOk by auto
  from r have o: "ocp_outcome D (initialise_status D inst) v inst1"
    using returns_resolveOCPVersion by (fastforce simp: returns_def)
  with rest show thesis
    by (intro that [OF r o]) (auto simp: ocp_outcome_frame case_prod_beta split: if_splits)
qed

lemma add_finalizer_frame:
  assumes "finalizers_contract D"
  shows "Status (snd (AddFinalizer D i f)) = Status i" "Spec (snd (AddFinalizer D i f)) = Spec i"
    "osl_Namespace (snd (AddFinalizer D i f)) = osl_Namespace i" "osl_UID (snd (AddFinalizer D i f)) = osl_UID i"
    "set (meta_Finalizers (osl_Meta (snd (AddFinalizer D i f)))) = insert f (set (meta_Finalizers (osl_Meta i)))"
  by (auto simp: finalizers_contract.add_object [OF assms])

lemma remove_finalizer_frame:
  assumes "finalizers_contract D"
  shows "Status (snd (RemoveFinalizer D i f)) = Status i"
    "meta_Finalizers (osl_Meta (snd (RemoveFinalizer D i f))) = filter (\<lambda>x. x \<noteq> f) (meta_Finalizers (osl_Meta i))"
  by (auto simp: finalizers_contract.remove_object [OF assms])

lemma body_observed_generation:
  assumes "finalizers_contract D" and "reconcile_body D dflt helper inst s = (GoOk (p, inst'), t)"
  shows "ObservedGeneration (Status inst') = meta_Generation (osl_Meta inst)"
proof -
  from assms(2) show ?thesis
  proof (rule body_cases, goal_cases)
    case (1 v inst1 s1)
    have "ObservedGeneration (Status inst1) = meta_Generation (osl_Meta inst)"
      using 1(2) by (simp add: ocp_outcome_frame)
    with 1(3) show ?case
      by (auto dest!: delete_outcome install_outcome
          simp: add_finalizer_frame [OF assms(1)] remove_finalizer_frame [OF assms(1)])
  qed
qed

text \<open>
  C15: unless it panics, a run with an instance always ends by patching the instance, whatever
  the body returned: the patch is the last call and the only one on the instance after it was
  read, and it records the generation that the run has observed.
\<close>

theorem status_always_persisted:
  assumes "get_instance (cli D) req (world s) = (Inr inst, w)" and "NewHelper D inst = Inr helper"
    and "Reconcile D dflt req s = (r, t)" and "\<not> is_panic r" and "finalizers_contract D"
  shows "\<exists>mid inst'. calls t = calls s @ GetInstance req # mid @ [PatchInstance inst'] \<and>
           list_all is_body_call mid \<and>
           ObservedGeneration (Status inst') = meta_Generation (osl_Meta inst)"
  using assms(1-3)
proof (cases rule: Reconcile_cases)
  case (panicked p)
  with assms(4) show ?thesis by simp
next
  case (finished p inst' s')
  obtain mid where "calls s' = calls s @ GetInstance req # mid" "list_all is_body_call mid"
    using body.calls_extend [of D dflt helper inst "after_get req w s"] finished(2) by auto
  with finished(3) body_observed_generation [OF assms(5) finished(2)] show ?thesis by auto
qed

definition operator_marked :: "'w deps \<Rightarrow> OpenStackLightspeed \<Rightarrow> OpenStackLightspeed" where
  "operator_marked D inst = set_Conditions (MarkTrue (condl D) (osl_Conditions inst)
     OpenShiftLightspeedOperatorReadyCondition OpenShiftLightspeedOperatorReady) inst"

lemma add_finalizer_present:
  assumes "finalizers_contract D" and "f \<in> set (meta_Finalizers (osl_Meta i))"
  shows "AddFinalizer D i f = (False, i)"
  using assms(2) finalizers_contract.add_result [OF assms(1), of i f] finalizers_contract.add_object [OF assms(1), of i f]
  by (cases "AddFinalizer D i f") simp

text \<open>
  The call that creates or patches the \<^verbatim>\<open>OLSConfig\<close>, with the mutate function for an instance. A run
  comes to it through the steps before it, each from the state that the one before has left.
\<close>

abbreviation patch_call ::
  "'w deps \<Rightarrow> Helper \<Rightarrow> OpenStackLightspeed \<Rightarrow> ('w, OperationResult \<times> object) op" where
  "patch_call D helper inst \<equiv>
     perform (CreateOrPatchOLSConfig (new_olsConfig D)) (create_or_patch_olsconfig (cli D)
       (new_olsConfig D) (olsConfig_mutate D helper inst))"

lemma olsConfig_ready:
  assumes "conditions_contract (condl D)" and "reconcile_olsConfig D helper inst s = (GoOk (p, inst'), t)"
    and "IsTrue (condl D) (osl_Conditions inst') OpenStackLightspeedReadyCondition"
    and "\<not> IsTrue (condl D) (osl_Conditions inst) OpenStackLightspeedReadyCondition"
  shows "p = (empty_Result, None) \<and>
     (\<exists>x s'. patch_call D helper inst s = (GoOk x, s') \<and> IsOLSConfigReady D s' = (GoOk True, t))"
proof -
  note [simp] = conditions_contract.is_true_set [OF assms(1)] conditions_contract.false_type [OF assms(1)]
    conditions_contract.false_status [OF assms(1)]
  show ?thesis
    using assms(2-) unfolding reconcile_olsConfig_def Let_def onErr_eq_GoOk
    by (auto simp: onErr_eq_GoOk split: if_splits)
qed

lemma install_ready:
  assumes "conditions_contract (condl D)" and "reconcile_install D helper inst s = (GoOk (p, inst'), t)"
    and "IsTrue (condl D) (osl_Conditions inst') OpenStackLightspeedReadyCondition"
    and "\<not> IsTrue (condl D) (osl_Conditions inst) OpenStackLightspeedReadyCondition"
  shows "p = (empty_Result, None) \<and> (\<exists>s1 x s2. EnsureOLSOperatorInstalled D inst s = (GoOk True, s1) \<and>
     patch_call D helper (operator_marked D inst) s1 = (GoOk x, s2) \<and> IsOLSConfigReady D s2 = (GoOk True, t))"
proof -
  note [simp] = conditions_contract.is_true_set [OF assms(1)] conditions_contract.false_type [OF assms(1)]
    conditions_contract.false_status [OF assms(1)] conditions_contract.is_true_mark_true [OF assms(1)]
  show ?thesis
    using assms(2-) unfolding reconcile_install_def Let_def onErr_eq_GoOk operator_marked_def
    by (auto split: if_splits dest!: olsConfig_ready [OF assms(1)])
qed

text \<open>The instance that goes into the installation has its finalizer already, and is unchanged by that step.\<close>

lemma body_install_cases:
  assumes fc: "finalizers_contract D" and "reconcile_body D dflt helper inst s = (GoOk (p, inst'), t)"
  obtains v inst1 s1 where "resolveOCPVersion D (initialise_status D inst) s = (GoOk (v, inst1), s1)"
    "ocp_outcome D (initialise_status D inst) v inst1"
    "(\<not> Time_IsZero D (meta_DeletionTimestamp (osl_Meta inst)) \<and> reconcileDelete D helper inst1 s1 = (GoOk (p, inst'), t)) \<or>
     (p = (empty_Result, None) \<and> t = s1 \<and> inst' = snd (AddFinalizer D inst1 (GetFinalizer D helper))) \<or>
     reconcile_install D helper (apply_defaults dflt inst1) s1 = (GoOk (p, inst'), t)"
  using assms(2)
proof (rule body_cases, goal_cases)
  case (1 v inst1 s1)
  let ?f = "GetFinalizer D helper"
  have "snd (AddFinalizer D inst1 ?f) = inst1" if "\<not> fst (AddFinalizer D inst1 ?f)"
    using that finalizers_contract.add_result [OF fc, of inst1 ?f] add_finalizer_present [OF fc, of ?f inst1] by auto
  with 1(4) show ?case by (intro 1(1) [OF 1(2,3)]) auto
qed

lemma body_ready:
  assumes "conditions_contract (condl D)" and fc: "finalizers_contract D"
    and "reconcile_body D dflt helper inst s = (GoOk (p, inst'), t)"
    and "IsTrue (condl D) (osl_Conditions inst') OpenStackLightspeedReadyCondition"
  obtains v inst1 s1 s2 x s3 where "p = (empty_Result, None)" "osl_UID inst1 = osl_UID inst"
    "resolveOCPVersion D (initialise_status D inst) s = (GoOk (v, inst1), s1)"
    "EnsureOLSOperatorInstalled D (apply_defaults dflt inst1) s1 = (GoOk True, s2)"
    "patch_call D helper (operator_marked D (apply_defaults dflt inst1)) s2 = (GoOk x, s3)"
    "IsOLSConfigReady D s3 = (GoOk True, t)"
  using assms(2,3)
proof (rule body_install_cases, goal_cases)
  case (1 v inst1 s1)
  have nr: "\<not> IsTrue (condl D) (osl_Conditions inst1) OpenStackLightspeedReadyCondition"
    using ocp_outcome_other_conditions [OF assms(1) 1(3)] initialise_status_not_ready [OF assms(1)] by simp
  have "osl_Conditions inst' = osl_Conditions inst1" if "reconcileDelete D helper inst1 s1 = (GoOk (p, inst'), t)"
    using delete_outcome [OF that] by (auto simp: remove_finalizer_frame [OF fc])
  with 1(4) nr assms(4) have "reconcile_install D helper (apply_defaults dflt inst1) s1 = (GoOk (p, inst'), t)"
    by (auto simp: add_finalizer_frame [OF fc])
  from install_ready [OF assms(1) this assms(4)] nr 1(1) [OF _ _ 1(2)] 1(3) show ?case
    by (auto simp: ocp_outcome_frame)
qed

lemma ready_config_read:
  assumes "nested_fields (unsl D)" and "IsOLSConfigReady D s = (GoOk True, t)"
  shows "\<exists>cfg. GetOLSConfig D s = (GoOk cfg, t) \<and>
           at_path cfg [''status'', ''overallStatus''] = Some (JString ''Ready'')"
  using assms(2) unfolding IsOLSConfigReady_def andThen_eq_GoOk
  by (auto simp: andThen_eq_GoOk nested_fields.string_found [OF assms(1)] split: if_splits)

text \<open>The mutate function is the patch, for an object that nobody else owns.\<close>

lemma olsConfig_mutate_GoOk:
  "olsConfig_mutate D helper inst pre = GoOk post \<longleftrightarrow>
     PatchOLSConfig D helper inst pre = GoOk post \<and>
     label_of (GetLabels (unsl D) pre) OpenStackLightspeedOwnerIDLabel \<in> {[], osl_UID inst}"
  by (auto simp: olsConfig_mutate_def Let_def)

text \<open>
  C1: readiness is earned. If the patched instance says that it is ready, then the run was this
  one: it resolved the version; with the instance this gave, and the defaults, it went through the
  whole installation, and the cluster service version that it found last is owned by the
  instance and succeeded; it had the \<^verbatim>\<open>OLSConfig\<close> created or patched with a function that patches only
  objects without another owner and was applied to one; it then read the overall status of the
  \<^verbatim>\<open>OLSConfig\<close> as Ready; and it patched the instance, without an error and without a retry. Each state
  is the one that the step before has left, the first being the one after reading the instance
  and the last the one at the end of the run.
\<close>

theorem ready_is_earned:
  assumes "conditions_contract (condl D)" and "finalizers_contract D" and "nested_fields (unsl D)"
    and "client_contract D" and "get_instance (cli D) req (world s) = (Inr inst, w)" and "NewHelper D inst = Inr helper"
    and "Reconcile D dflt req s = (r, t)" and "last (calls t) = PatchInstance inst'"
    and "IsReady (IsTrue (condl D)) inst'"
  shows "r = GoOk empty_Result \<and>
     (\<exists>v inst1 s1 csv s2 x s3 cfg s4.
        resolveOCPVersion D (initialise_status D inst) (after_get req w s) = (GoOk (v, inst1), s1) \<and>
        install_saw D (apply_defaults dflt inst1) s1 csv s2 \<and>
        IsOwnedBy (csv_Meta csv) (osl_Meta inst) \<and> csv_Phase csv = CSVPhaseSucceeded \<and>
        patch_call D helper (operator_marked D (apply_defaults dflt inst1)) s2 = (GoOk x, s3) \<and>
        (\<exists>pre post. olsConfig_mutate D helper (operator_marked D (apply_defaults dflt inst1)) pre = GoOk post) \<and>
        (\<forall>pre post. olsConfig_mutate D helper (operator_marked D (apply_defaults dflt inst1)) pre = GoOk post \<longrightarrow>
           PatchOLSConfig D helper (operator_marked D (apply_defaults dflt inst1)) pre = GoOk post \<and>
           label_of (GetLabels (unsl D) pre) OpenStackLightspeedOwnerIDLabel \<in> {[], osl_UID inst}) \<and>
        GetOLSConfig D s3 = (GoOk cfg, s4) \<and>
        at_path cfg [''status'', ''overallStatus''] = Some (JString ''Ready'') \<and>
        t = after_patch D helper inst' s4)"
proof -
  obtain p inst0 s' where finished: "r = result_of p"
    "reconcile_body D dflt helper inst (after_get req w s) = (GoOk (p, inst0), s')"
    "inst' = patched D inst inst0" "t = after_patch D helper inst' s'"
    by (rule patched_run_state [OF assms(5-8)])
  from assms(9) have "IsTrue (condl D) (osl_Conditions inst0) OpenStackLightspeedReadyCondition"
    using conditions_contract.ready_is_top(1) [OF assms(1)]
    by (simp add: finished(3) IsReady_def patched_def conditions_contract.is_true_overall [OF assms(1)])
  with assms(1,2) finished(2) obtain v inst1 s1 s2 x s3 where run: "p = (empty_Result, None)"
    "osl_UID inst1 = osl_UID inst"
    "resolveOCPVersion D (initialise_status D inst) (after_get req w s) = (GoOk (v, inst1), s1)"
    "EnsureOLSOperatorInstalled D (apply_defaults dflt inst1) s1 = (GoOk True, s2)"
    "patch_call D helper (operator_marked D (apply_defaults dflt inst1)) s2 = (GoOk x, s3)"
    "IsOLSConfigReady D s3 = (GoOk True, s')"
    by (rule body_ready)
  let ?i = "operator_marked D (apply_defaults dflt inst1)"
  have uid: "osl_UID ?i = osl_UID inst" using run(2) by (simp add: operator_marked_def)
  obtain csv where csv: "install_saw D (apply_defaults dflt inst1) s1 csv s2"
    "IsOwnedBy (csv_Meta csv) (osl_Meta inst)" "csv_Phase csv = CSVPhaseSucceeded"
    using run(2) by (auto intro: ensure_True_saw [OF run(4)] simp: IsOwnedBy_def)
  obtain pre post where mut: "olsConfig_mutate D helper ?i pre = GoOk post"
    using run(5) client_contract.create_or_patch_mutates [OF assms(4)]
    by (cases x) (fastforce simp: perform_eq_GoOk)
  obtain cfg where cfg: "GetOLSConfig D s3 = (GoOk cfg, s')"
    "at_path cfg [''status'', ''overallStatus''] = Some (JString ''Ready'')"
    using ready_config_read [OF assms(3) run(6)] by blast
  have "r = GoOk empty_Result" by (simp add: finished(1) run(1) result_of_def)
  moreover have "PatchOLSConfig D helper ?i pre = GoOk post \<and>
      label_of (GetLabels (unsl D) pre) OpenStackLightspeedOwnerIDLabel \<in> {[], osl_UID inst}"
    if "olsConfig_mutate D helper ?i pre = GoOk post" for pre post
    using that unfolding olsConfig_mutate_GoOk uid .
  ultimately show ?thesis using run(3,5) csv mut cfg finished(4) by blast
qed

text \<open>With the finalizer in place and no deletion, the body goes on to the installation.\<close>

lemma body_installing:
  assumes "finalizers_contract D" and "Time_IsZero D (meta_DeletionTimestamp (osl_Meta inst))"
    and "GetFinalizer D helper \<in> set (meta_Finalizers (osl_Meta inst))"
    and "resolveOCPVersion D (initialise_status D inst) s = (GoOk (v, inst1), s1)"
  shows "reconcile_body D dflt helper inst s = reconcile_install D helper (apply_defaults dflt inst1) s1"
proof -
  have o: "ocp_outcome D (initialise_status D inst) v inst1"
    using returns_resolveOCPVersion assms(4) by (fastforce simp: returns_def)
  with assms(3) have "AddFinalizer D inst1 (GetFinalizer D helper) = (False, inst1)"
    by (intro add_finalizer_present [OF assms(1)]) (simp add: ocp_outcome_frame)
  with assms(2,4) o show ?thesis by (simp add: reconcile_body_def andThen_run ocp_outcome_frame)
qed

lemma Reconcile_ready_run:
  assumes "conditions_contract (condl D)" and "finalizers_contract D"
    and "get_instance (cli D) req (world s) = (Inr inst, w)" and "NewHelper D inst = Inr helper"
    and "Time_IsZero D (meta_DeletionTimestamp (osl_Meta inst))"
    and "GetFinalizer D helper \<in> set (meta_Finalizers (osl_Meta inst))"
    and "resolveOCPVersion D (initialise_status D inst) (after_get req w s) = (GoOk (v, inst1), s1)"
    and "EnsureOLSOperatorInstalled D (apply_defaults dflt inst1) s1 = (GoOk True, s2)"
    and "perform (CreateOrPatchOLSConfig (new_olsConfig D)) (create_or_patch_olsconfig (cli D)
           (new_olsConfig D) (olsConfig_mutate D helper (operator_marked D (apply_defaults dflt inst1)))) s2 =
           (GoOk x, s3)"
    and "IsOLSConfigReady D s3 = (GoOk True, s4)"
  shows "\<exists>inst' t. Reconcile D dflt req s = (GoOk empty_Result, t) \<and>
     calls t = calls s4 @ [PatchInstance inst'] \<and> IsReady (IsTrue (condl D)) inst'"
proof -
  let ?inst2 = "operator_marked D (apply_defaults dflt inst1)"
  let ?inst' = "set_Conditions (MarkTrue (condl D) (osl_Conditions ?inst2)
    OpenStackLightspeedReadyCondition OpenStackLightspeedReadyMessage) ?inst2"
  have "reconcile_olsConfig D helper ?inst2 s2 = (GoOk ((empty_Result, None), ?inst'), s4)"
    using assms(9,10) by (simp add: reconcile_olsConfig_def Let_def onErr_run)
  then have "reconcile_install D helper (apply_defaults dflt inst1) s1 = (GoOk ((empty_Result, None), ?inst'), s4)"
    using assms(8) by (simp add: reconcile_install_def Let_def onErr_run operator_marked_def)
  then have "reconcile_body D dflt helper inst (after_get req w s) = (GoOk ((empty_Result, None), ?inst'), s4)"
    by (simp add: body_installing [OF assms(2,5,6,7)])
  moreover have "IsReady (IsTrue (condl D)) (patched D inst ?inst')"
    using conditions_contract.ready_is_top(1) [OF assms(1)]
    by (simp add: IsReady_def patched_def conditions_contract.is_true_overall [OF assms(1)]
        conditions_contract.is_true_mark_true [OF assms(1)])
  ultimately show ?thesis
    using Reconcile_run [OF assms(3,4), of dflt "(empty_Result, None)"] by (fastforce simp: result_of_def)
qed

text \<open>A cluster in which everything is in place for the sample instance.\<close>

definition managed_instance :: OpenStackLightspeed where
  "managed_instance = ref_set_finalizers [ref_finalizer] sample_instance"

definition running_cluster :: cluster where
  "running_cluster = installed_cluster [managed_instance] (Some ready_config)"

lemma managed_instance_simps [simp]:
  "osl_TypeMeta managed_instance = osl_TypeMeta sample_instance" "Spec managed_instance = sample_spec"
  "meta_Name (osl_Meta managed_instance) = ''osl''" "osl_Namespace managed_instance = ''openshift-lightspeed''"
  "osl_UID managed_instance = ''abcde-1''" "meta_Finalizers (osl_Meta managed_instance) = [ref_finalizer]"
  "meta_DeletionTimestamp (osl_Meta managed_instance) = None"
  by (simp_all add: managed_instance_def ref_set_finalizers_def sample_instance_def empty_ObjectMeta_def)

lemma ref_deps_more [simp]:
  "NewHelper (ref_deps env) i = Inr i" "GetFinalizer (ref_deps env) h = ref_finalizer"
  "Time_IsZero (ref_deps env) t = (case t of None \<Rightarrow> True | Some n \<Rightarrow> n = 0)"
  by (simp_all add: ref_deps_def)

lemma sample_get:
  "get_instance ref_client sample_request running_cluster = (Inr managed_instance, running_cluster)"
  by (simp add: ref_client_def running_cluster_def installed_cluster_def sample_request_def)

lemma patch_ready_config:
  assumes "osl_Conditions inst \<noteq> None"
  obtains cfg' where "olsConfig_mutate (ref_deps env) h inst ready_config = GoOk cfg'"
    "at_path cfg' [''status'', ''overallStatus''] = Some (JString ''Ready'')"
proof -
  have settable: "list_all (\<lambda>f. settable ready_config (fst f)) (desired_fields inst)"
    by (auto simp: desired_fields_def Let_def ready_config_def)
  obtain cfg' where cfg': "PatchOLSConfig (ref_deps env) h inst ready_config = GoOk cfg'"
    using PatchOLSConfig_ok [of "ref_deps env" inst ready_config h] assms settable
    by (auto simp: ready_config_def label_path_def)
  have "at_path cfg' [''status'', ''overallStatus''] = at_path ready_config [''status'', ''overallStatus'']"
    by (rule PatchOLSConfig_other [OF _ cfg'])
      (auto simp: desired_fields_def Let_def apart_def label_path_def finalizer_path_def)
  moreover have "ref_labels ready_config = None"
    by (simp add: ref_labels_def label_path_def ready_config_def)
  ultimately show thesis
    using that cfg' by (simp add: olsConfig_mutate_def label_of_def ready_config_def)
qed

definition sample_resolved :: OpenStackLightspeed where
  "sample_resolved = (let i = initialise_status (ref_deps sample_env) managed_instance in
     set_ActiveOCPRAGVersion []
       (set_Conditions (MarkTrue ref_cond (osl_Conditions i) OCPRAGCondition OCPRAGDisabledMessage) i))"

lemma sample_resolves:
  "resolveOCPVersion (ref_deps sample_env) (initialise_status (ref_deps sample_env) managed_instance) s =
     (GoOk ([], sample_resolved), s)"
  by (simp add: resolveOCPVersion_def sample_resolved_def Let_def sample_spec_def)

lemma sample_identity: "same_identity (apply_defaults d sample_resolved) sample_instance"
  by (simp add: same_identity_def sample_resolved_def apply_defaults_def Let_def)
    (simp add: sample_instance_def sample_spec_def)

lemma ref_IsOLSConfigReady:
  assumes "c_config w = Some cfg" and "at_path cfg [''status'', ''overallStatus''] = Some (JString ''Ready'')"
  shows "IsOLSConfigReady (ref_deps env) \<lparr>world = w, calls = cs\<rparr> =
    (GoOk True, \<lparr>world = w, calls = cs @ [ListOLSConfigs]\<rparr>)"
  using assms by (simp add: IsOLSConfigReady_def GetOLSConfig_def andThen_run perform_def ref_client_def)

text \<open>The steps of the sample run.\<close>

lemma sample_steps:
  obtains s2 s3 s4 x where
    "EnsureOLSOperatorInstalled (ref_deps sample_env) (apply_defaults d sample_resolved)
       (after_get sample_request running_cluster \<lparr>world = running_cluster, calls = []\<rparr>) = (GoOk True, s2)"
    "perform (CreateOrPatchOLSConfig (new_olsConfig (ref_deps sample_env))) (create_or_patch_olsconfig ref_client
       (new_olsConfig (ref_deps sample_env)) (olsConfig_mutate (ref_deps sample_env) managed_instance
         (operator_marked (ref_deps sample_env) (apply_defaults d sample_resolved)))) s2 = (GoOk x, s3)"
    "IsOLSConfigReady (ref_deps sample_env) s3 = (GoOk True, s4)"
proof -
  let ?D = "ref_deps sample_env"
  let ?i = "operator_marked ?D (apply_defaults d sample_resolved)"
  obtain more where e: "EnsureOLSOperatorInstalled ?D (apply_defaults d sample_resolved)
      (after_get sample_request running_cluster \<lparr>world = running_cluster, calls = []\<rparr>) =
      (GoOk True, \<lparr>world = running_cluster, calls = GetInstance sample_request # more\<rparr>)"
    using sample_ensures [OF sample_identity [of d], of "[managed_instance]" "Some ready_config" "[GetInstance sample_request]"]
    by (auto simp: after_get_def running_cluster_def)
  have "osl_Conditions ?i \<noteq> None"
    by (simp add: operator_marked_def ref_cond_def)
  then obtain cfg' where m: "olsConfig_mutate ?D managed_instance ?i ready_config = GoOk cfg'"
    and st: "at_path cfg' [''status'', ''overallStatus''] = Some (JString ''Ready'')"
    by (rule patch_ready_config)
  let ?w = "running_cluster\<lparr>c_config := Some cfg'\<rparr>"
  have "create_or_patch_olsconfig ref_client (new_olsConfig ?D) (olsConfig_mutate ?D managed_instance ?i)
      running_cluster = (Inr (OperationResultUpdated, cfg'), ?w)"
    using m by (simp add: ref_client_def ref_create_or_patch_olsconfig_def running_cluster_def installed_cluster_def)
  then show thesis
    using that [OF e] ref_IsOLSConfigReady [OF _ st, of ?w] by (auto simp: perform_def)
qed

theorem ready_is_earned_witness:
  "\<exists>t. Reconcile (ref_deps sample_env) sample_defaults sample_request
       \<lparr>world = running_cluster, calls = []\<rparr> = (GoOk empty_Result, t) \<and>
     (\<exists>v inst1 s1 csv s2 s3 cfg s4 inst'.
        resolveOCPVersion (ref_deps sample_env) (initialise_status (ref_deps sample_env) managed_instance)
          (after_get sample_request running_cluster \<lparr>world = running_cluster, calls = []\<rparr>) = (GoOk (v, inst1), s1) \<and>
        install_saw (ref_deps sample_env) (apply_defaults sample_defaults inst1) s1 csv s2 \<and>
        IsOwnedBy (csv_Meta csv) (osl_Meta managed_instance) \<and> csv_Phase csv = CSVPhaseSucceeded \<and>
        GetOLSConfig (ref_deps sample_env) s3 = (GoOk cfg, s4) \<and>
        at_path cfg [''status'', ''overallStatus''] = Some (JString ''Ready'') \<and>
        t = after_patch (ref_deps sample_env) managed_instance inst' s4)"
proof -
  let ?D = "ref_deps sample_env"
  let ?s = "\<lparr>world = running_cluster, calls = []\<rparr>"
  obtain s2 s3 s4 x where steps:
    "EnsureOLSOperatorInstalled ?D (apply_defaults sample_defaults sample_resolved)
       (after_get sample_request running_cluster ?s) = (GoOk True, s2)"
    "perform (CreateOrPatchOLSConfig (new_olsConfig ?D)) (create_or_patch_olsconfig ref_client (new_olsConfig ?D)
       (olsConfig_mutate ?D managed_instance (operator_marked ?D (apply_defaults sample_defaults sample_resolved))))
       s2 = (GoOk x, s3)"
    "IsOLSConfigReady ?D s3 = (GoOk True, s4)"
    by (rule sample_steps)
  obtain inst' t where run: "Reconcile ?D sample_defaults sample_request ?s = (GoOk empty_Result, t)"
    and l: "calls t = calls s4 @ [PatchInstance inst']" and r: "IsReady (IsTrue ref_cond) inst'"
    using Reconcile_ready_run [of ?D sample_request ?s managed_instance running_cluster managed_instance
        "[]" sample_resolved _ sample_defaults s2 x s3 s4] steps
    by (auto simp: sample_get sample_resolves)
  have "last (calls t) = PatchInstance inst'" using l by simp
  from ready_is_earned [OF _ _ _ _ _ _ run this, of managed_instance running_cluster managed_instance] r
  have "\<exists>v inst1 s1 csv s2 x s3 cfg s4.
      resolveOCPVersion ?D (initialise_status ?D managed_instance) (after_get sample_request running_cluster ?s) =
        (GoOk (v, inst1), s1) \<and>
      install_saw ?D (apply_defaults sample_defaults inst1) s1 csv s2 \<and>
      IsOwnedBy (csv_Meta csv) (osl_Meta managed_instance) \<and> csv_Phase csv = CSVPhaseSucceeded \<and>
      patch_call ?D managed_instance (operator_marked ?D (apply_defaults sample_defaults inst1)) s2 = (GoOk x, s3) \<and>
      (\<exists>pre post. olsConfig_mutate ?D managed_instance (operator_marked ?D (apply_defaults sample_defaults inst1)) pre = GoOk post) \<and>
      (\<forall>pre post. olsConfig_mutate ?D managed_instance (operator_marked ?D (apply_defaults sample_defaults inst1)) pre = GoOk post \<longrightarrow>
         PatchOLSConfig ?D managed_instance (operator_marked ?D (apply_defaults sample_defaults inst1)) pre = GoOk post \<and>
         label_of (GetLabels (unsl ?D) pre) OpenStackLightspeedOwnerIDLabel \<in> {[], osl_UID managed_instance}) \<and>
      GetOLSConfig ?D s3 = (GoOk cfg, s4) \<and>
      at_path cfg [''status'', ''overallStatus''] = Some (JString ''Ready'') \<and>
      t = after_patch ?D managed_instance inst' s4"
    by (simp add: sample_get del: at_path.simps)
  with run show ?thesis by blast
qed

text \<open>
  C17: and readiness is reached. For an instance that is not being deleted and has its
  finalizer, if the operator is found installed, the \<^verbatim>\<open>OLSConfig\<close> is created or patched and its
  status is Ready, then the run succeeds without a retry and the patched instance is ready.
\<close>

theorem ready_is_reached:
  assumes "conditions_contract (condl D)" and "finalizers_contract D"
    and "get_instance (cli D) req (world s) = (Inr inst, w)" and "NewHelper D inst = Inr helper"
    and "Time_IsZero D (meta_DeletionTimestamp (osl_Meta inst))"
    and "GetFinalizer D helper \<in> set (meta_Finalizers (osl_Meta inst))"
    and "resolveOCPVersion D (initialise_status D inst) (after_get req w s) = (GoOk (v, inst1), s1)"
    and "EnsureOLSOperatorInstalled D (apply_defaults dflt inst1) s1 = (GoOk True, s2)"
    and "perform (CreateOrPatchOLSConfig (new_olsConfig D)) (create_or_patch_olsconfig (cli D)
           (new_olsConfig D) (olsConfig_mutate D helper (operator_marked D (apply_defaults dflt inst1)))) s2 =
           (GoOk x, s3)"
    and "IsOLSConfigReady D s3 = (GoOk True, s4)"
  shows "\<exists>inst' t. Reconcile D dflt req s = (GoOk empty_Result, t) \<and>
     calls t = calls s4 @ [PatchInstance inst'] \<and> IsReady (IsTrue (condl D)) inst'"
  using assms by (rule Reconcile_ready_run)

theorem ready_is_reached_witness:
  "\<exists>inst' t cs. Reconcile (ref_deps sample_env) sample_defaults sample_request
       \<lparr>world = running_cluster, calls = []\<rparr> = (GoOk empty_Result, t) \<and>
     calls t = cs @ [PatchInstance inst'] \<and> IsReady (IsTrue ref_cond) inst'"
proof -
  let ?D = "ref_deps sample_env"
  let ?s = "\<lparr>world = running_cluster, calls = []\<rparr>"
  obtain s2 s3 s4 x where steps:
    "EnsureOLSOperatorInstalled ?D (apply_defaults sample_defaults sample_resolved)
       (after_get sample_request running_cluster ?s) = (GoOk True, s2)"
    "perform (CreateOrPatchOLSConfig (new_olsConfig ?D)) (create_or_patch_olsconfig ref_client (new_olsConfig ?D)
       (olsConfig_mutate ?D managed_instance (operator_marked ?D (apply_defaults sample_defaults sample_resolved))))
       s2 = (GoOk x, s3)"
    "IsOLSConfigReady ?D s3 = (GoOk True, s4)"
    by (rule sample_steps)
  with ready_is_reached [of ?D sample_request ?s managed_instance running_cluster managed_instance
        "[]" sample_resolved _ sample_defaults s2 x s3 s4]
  show ?thesis by (auto simp: sample_get sample_resolves)
qed

section \<open>Deletion and the finalizer\<close>

lemma body_not_deleting:
  assumes "Time_IsZero D (meta_DeletionTimestamp (osl_Meta inst))"
  shows "emits (\<lambda>c. \<not> is_delete c) (reconcile_body D dflt helper inst)"
  unfolding reconcile_body_def
proof (rule emits_andThen_returns [OF _ returns_resolveOCPVersion])
  show "emits (\<lambda>c. \<not> is_delete c) (resolveOCPVersion D (initialise_status D inst))"
    by (intro emits_intros) simp_all
  fix x :: "string \<times> OpenStackLightspeed"
  assume x: "case x of (v, inst') \<Rightarrow> ocp_outcome D (initialise_status D inst) v inst'"
  have "emits (\<lambda>c. \<not> is_delete c) (reconcile_install D helper i)" for i
    by (intro emits_intros) simp_all
  with x assms show "emits (\<lambda>c. \<not> is_delete c) (case x of (_, inst) \<Rightarrow>
     if \<not> Time_IsZero D (meta_DeletionTimestamp (osl_Meta inst)) then reconcileDelete D helper inst
     else (let (added, inst) = AddFinalizer D inst (GetFinalizer D helper) in
        if added then ret ((empty_Result, None), inst)
        else reconcile_install D helper (apply_defaults dflt inst)))"
    by (auto simp: ocp_outcome_frame case_prod_beta intro!: emits_pure split: prod.split)
qed

text \<open>
  C13: a run for an instance that is not being deleted deletes nothing.
\<close>

theorem no_deletion_unless_asked:
  assumes "get_instance (cli D) req (world s) = (Inr inst, w)"
    and "Time_IsZero D (meta_DeletionTimestamp (osl_Meta inst))"
  shows "filter is_delete (calls (snd (Reconcile D dflt req s))) = filter is_delete (calls s)"
proof (cases "NewHelper D inst")
  case (Inl e)
  with assms(1) show ?thesis by (simp add: Reconcile_def onErr_run perform_def)
next
  case (Inr helper)
  let ?s1 = "after_get req w s"
  have "filter is_delete (calls (snd (reconcile_body D dflt helper inst ?s1))) = filter is_delete (calls ?s1)"
    using body_not_deleting [OF assms(2)]
    by (intro footprint.filter_disallowed_unchanged [of _ "\<lambda>c. \<not> is_delete c"] footprint.intro) auto
  then have b: "reconcile_body D dflt helper inst ?s1 = (x, s') \<Longrightarrow>
      filter is_delete (calls s') = filter is_delete (calls s)" for x s'
    by simp
  obtain r t where "Reconcile D dflt req s = (r, t)" by (cases "Reconcile D dflt req s")
  with assms(1) Inr this show ?thesis
    by (cases rule: Reconcile_cases) (auto dest: b)
qed

definition sample_cluster :: "OpenStackLightspeed \<Rightarrow> cluster" where
  "sample_cluster inst = empty_cluster\<lparr>c_instances := [inst]\<rparr>"

lemma sample_cluster_get:
  "meta_Name (osl_Meta inst) = ''osl'' \<Longrightarrow> osl_Namespace inst = ''openshift-lightspeed'' \<Longrightarrow>
   get_instance ref_client sample_request (sample_cluster inst) = (Inr inst, sample_cluster inst)"
  by (simp add: ref_client_def sample_cluster_def sample_request_def)

lemma sample_instance_simps [simp]:
  "meta_Name (osl_Meta sample_instance) = ''osl''" "osl_Namespace sample_instance = ''openshift-lightspeed''"
  "meta_DeletionTimestamp (osl_Meta sample_instance) = None" "meta_Finalizers (osl_Meta sample_instance) = []"
  by (simp_all add: sample_instance_def empty_ObjectMeta_def)

theorem no_deletion_unless_asked_witness:
  "filter is_delete (calls (snd (Reconcile (ref_deps sample_env) sample_defaults sample_request
     \<lparr>world = sample_cluster managed_instance, calls = []\<rparr>))) = []"
  by (subst no_deletion_unless_asked [where inst = managed_instance and w = "sample_cluster managed_instance"])
    (simp_all add: sample_cluster_get)

text \<open>
  C14: the first write of all for a new instance is its finalizer. A run that finds an instance
  without it only adds the finalizer and patches the instance; nothing else in the cluster is
  touched before the finalizer is there.
\<close>

theorem finalizer_comes_first:
  assumes "finalizers_contract D" and "get_instance (cli D) req (world s) = (Inr inst, w)"
    and "NewHelper D inst = Inr helper" and "Time_IsZero D (meta_DeletionTimestamp (osl_Meta inst))"
    and "GetFinalizer D helper \<notin> set (meta_Finalizers (osl_Meta inst))"
    and "Reconcile D dflt req s = (r, t)" and "\<not> is_panic r"
  shows "r = GoOk empty_Result \<and>
     (\<exists>inst'. writes t = writes s @ [PatchInstance inst'] \<and>
        GetFinalizer D helper \<in> set (meta_Finalizers (osl_Meta inst')))"
  using assms(2,3,6)
proof (cases rule: Reconcile_cases)
  case (panicked p)
  with assms(7) show ?thesis by simp
next
  case (finished p inst' s')
  from finished(2) show ?thesis
  proof (rule body_cases, goal_cases)
    case (1 v inst1 s1)
    have "fst (AddFinalizer D inst1 (GetFinalizer D helper))"
      using 1(2) assms(5) by (simp add: finalizers_contract.add_result [OF assms(1)] ocp_outcome_frame)
    with 1(3) assms(4) have p: "p = (empty_Result, None)" "s' = s1"
      "inst' = snd (AddFinalizer D inst1 (GetFinalizer D helper))" by auto
    have "reads_only (resolveOCPVersion D (initialise_status D inst))"
      by (intro emits_intros) simp_all
    with 1(1) have "writes s1 = writes (after_get req w s)" by (rule writes_after_read)
    with p finished(1,3) show ?case
      by (auto simp: result_of_def writes_def add_finalizer_frame [OF assms(1)])
  qed
qed

text \<open>The first run for the sample instance.\<close>

lemma sample_first_run:
  "\<exists>t. Reconcile (ref_deps sample_env) sample_defaults sample_request
     \<lparr>world = sample_cluster sample_instance, calls = []\<rparr> = (GoOk empty_Result, t)"
proof -
  let ?D = "ref_deps sample_env"
  let ?s1 = "after_get sample_request (sample_cluster sample_instance)
    \<lparr>world = sample_cluster sample_instance, calls = []\<rparr>"
  have g: "get_instance (cli ?D) sample_request (world \<lparr>world = sample_cluster sample_instance, calls = []\<rparr>) =
      (Inr sample_instance, sample_cluster sample_instance)"
    by (simp add: sample_cluster_get)
  have sp: "EnableOCPRAG (Spec sample_instance) = False"
    by (simp add: sample_instance_def sample_spec_def)
  have "\<exists>inst'. reconcile_body ?D sample_defaults sample_instance sample_instance ?s1 =
      (GoOk ((empty_Result, None), inst'), ?s1)"
    by (simp add: reconcile_body_def resolveOCPVersion_def sp Let_def case_prod_beta
        finalizers_contract.add_result [OF ref_typed_finalizers.finalizers_contract_axioms])
  with Reconcile_run [OF g] show ?thesis by (fastforce simp: result_of_def)
qed

theorem finalizer_comes_first_witness:
  "\<exists>t inst'. Reconcile (ref_deps sample_env) sample_defaults sample_request
       \<lparr>world = sample_cluster sample_instance, calls = []\<rparr> = (GoOk empty_Result, t) \<and>
     writes t = [PatchInstance inst'] \<and> ref_finalizer \<in> set (meta_Finalizers (osl_Meta inst'))"
proof -
  obtain t where t: "Reconcile (ref_deps sample_env) sample_defaults sample_request
     \<lparr>world = sample_cluster sample_instance, calls = []\<rparr> = (GoOk empty_Result, t)"
    using sample_first_run by blast
  from finalizer_comes_first [where D = "ref_deps sample_env" and helper = sample_instance,
      OF _ _ _ _ _ t] t
  show ?thesis by (simp add: sample_cluster_get writes_def)
qed

theorem status_always_persisted_witness:
  "\<exists>t mid inst'. Reconcile (ref_deps sample_env) sample_defaults sample_request
       \<lparr>world = sample_cluster sample_instance, calls = []\<rparr> = (GoOk empty_Result, t) \<and>
     calls t = GetInstance sample_request # mid @ [PatchInstance inst'] \<and>
     list_all is_body_call mid \<and>
     ObservedGeneration (Status inst') = meta_Generation (osl_Meta sample_instance)"
proof -
  obtain t where t: "Reconcile (ref_deps sample_env) sample_defaults sample_request
     \<lparr>world = sample_cluster sample_instance, calls = []\<rparr> = (GoOk empty_Result, t)"
    using sample_first_run by blast
  from status_always_persisted [where D = "ref_deps sample_env" and helper = sample_instance, OF _ _ t] t
  show ?thesis by (simp add: sample_cluster_get)
qed

text \<open>When the finalizer is given up, the clean-up has been seen to succeed.\<close>

lemma finalizer_released:
  assumes "finalizers_contract D" and "get_instance (cli D) req (world s) = (Inr inst, w)"
    and "NewHelper D inst = Inr helper" and "GetFinalizer D helper \<in> set (meta_Finalizers (osl_Meta inst))"
    and "Reconcile D dflt req s = (r, t)" and "last (calls t) = PatchInstance inst'"
    and "GetFinalizer D helper \<notin> set (meta_Finalizers (osl_Meta inst'))"
  shows "r = GoOk empty_Result \<and> \<not> Time_IsZero D (meta_DeletionTimestamp (osl_Meta inst)) \<and>
     (\<exists>inst1 s1 s2 s3. osl_UID inst1 = osl_UID inst \<and>
        RemoveOLSConfig D helper inst1 s1 = (GoOk True, s2) \<and>
        UninstallInstanceOwnedOLSOperator D inst1 s2 = (GoOk True, s3) \<and>
        calls t = calls s3 @ [PatchInstance inst'])"
proof -
  obtain p inst0 s' where finished: "r = result_of p"
    "reconcile_body D dflt helper inst (after_get req w s) = (GoOk (p, inst0), s')"
    "inst' = patched D inst inst0" "calls t = calls s' @ [PatchInstance inst']"
    by (rule patched_run [OF assms(2,3,5,6)])
  note i = finished(4)
  have lost: "GetFinalizer D helper \<notin> set (meta_Finalizers (osl_Meta inst0))"
    using assms(7) finished(3) by simp
  from finished(2) show ?thesis
  proof (rule body_cases, goal_cases)
    case (1 v inst1 s1)
    note m = ocp_outcome_frame(1) [OF 1(2), simplified]
    have "\<not> (\<exists>cs. inst0 = set_Conditions cs (apply_defaults dflt (snd (AddFinalizer D inst1 (GetFinalizer D helper)))))"
      using lost by (auto simp: add_finalizer_frame [OF assms(1)])
    moreover have "inst0 \<noteq> snd (AddFinalizer D inst1 (GetFinalizer D helper))"
      using lost by (auto simp: add_finalizer_frame [OF assms(1)])
    ultimately have del: "\<not> Time_IsZero D (meta_DeletionTimestamp (osl_Meta inst))"
      "reconcileDelete D helper inst1 s1 = (GoOk (p, inst0), s')"
      using 1(3) by (auto dest: install_outcome)
    from assms(4) lost m have "inst0 \<noteq> inst1" by auto
    with delete_outcome [OF del(2)] obtain s2 where "p = (empty_Result, None)"
      "RemoveOLSConfig D helper inst1 s1 = (GoOk True, s2)"
      "UninstallInstanceOwnedOLSOperator D inst1 s2 = (GoOk True, s')" by blast
    moreover from m have "osl_UID inst1 = osl_UID inst" by simp
    moreover from \<open>p = (empty_Result, None)\<close> finished(1) have "r = GoOk empty_Result"
      by (simp add: result_of_def)
    ultimately show ?case using del(1) i by blast
  qed
qed

text \<open>
  C4: the finalizer goes last. If the patched instance lacks the finalizer that the instance had
  when it was read, then the instance was being deleted, and this run saw the removal of the
  \<^verbatim>\<open>OLSConfig\<close> and then the uninstallation of the operator both report success, the latter as its
  last step before the patch.
\<close>

theorem finalizer_goes_last:
  assumes "finalizers_contract D" and "get_instance (cli D) req (world s) = (Inr inst, w)"
    and "NewHelper D inst = Inr helper" and "GetFinalizer D helper \<in> set (meta_Finalizers (osl_Meta inst))"
    and "Reconcile D dflt req s = (r, t)" and "last (calls t) = PatchInstance inst'"
    and "GetFinalizer D helper \<notin> set (meta_Finalizers (osl_Meta inst'))"
  shows "r = GoOk empty_Result \<and> \<not> Time_IsZero D (meta_DeletionTimestamp (osl_Meta inst)) \<and>
     (\<exists>inst1 s1 s2 s3. osl_UID inst1 = osl_UID inst \<and>
        RemoveOLSConfig D helper inst1 s1 = (GoOk True, s2) \<and>
        UninstallInstanceOwnedOLSOperator D inst1 s2 = (GoOk True, s3) \<and>
        calls t = calls s3 @ [PatchInstance inst'])"
  using assms by (rule finalizer_released)

definition deleting_instance :: OpenStackLightspeed where
  "deleting_instance = managed_instance\<lparr>osl_Meta := (osl_Meta managed_instance)\<lparr>meta_DeletionTimestamp := Some 1\<rparr>\<rparr>"

lemma sample_deletion_steps:
  fixes i cs
  defines "w \<equiv> sample_cluster deleting_instance"
  shows "RemoveOLSConfig (ref_deps sample_env) deleting_instance i \<lparr>world = w, calls = cs\<rparr> =
      (GoOk True, \<lparr>world = w, calls = cs @ [ListOLSConfigs]\<rparr>)"
    and "UninstallInstanceOwnedOLSOperator (ref_deps sample_env) i \<lparr>world = w, calls = cs\<rparr> =
      (GoOk True, \<lparr>world = w, calls = cs @ [GetConfig, NewClient, ListCSVs []]\<rparr>)"
proof -
  have cl: "c_config w = None" "c_csvs w = []"
    by (simp_all add: w_def sample_cluster_def empty_cluster_def)
  show "RemoveOLSConfig (ref_deps sample_env) deleting_instance i \<lparr>world = w, calls = cs\<rparr> =
      (GoOk True, \<lparr>world = w, calls = cs @ [ListOLSConfigs]\<rparr>)"
    by (subst remove_when_none [where w' = w]) (simp_all add: ref_client_def cl)
  show "UninstallInstanceOwnedOLSOperator (ref_deps sample_env) i \<lparr>world = w, calls = cs\<rparr> =
      (GoOk True, \<lparr>world = w, calls = cs @ [GetConfig, NewClient, ListCSVs []]\<rparr>)"
    by (simp add: UninstallInstanceOwnedOLSOperator_def andThen_run ref_GetOLSOperatorCSV cl)
qed

lemma sample_deletion_get:
  "get_instance ref_client sample_request (sample_cluster deleting_instance) =
     (Inr deleting_instance, sample_cluster deleting_instance)"
  "EnableOCPRAG (Spec deleting_instance) = False"
  "meta_DeletionTimestamp (osl_Meta deleting_instance) = Some 1"
  "meta_Finalizers (osl_Meta deleting_instance) = [ref_finalizer]"
  by (simp_all add: sample_cluster_get deleting_instance_def sample_spec_def)

lemma sample_deletion_run:
  "\<exists>t inst'. Reconcile (ref_deps sample_env) sample_defaults sample_request
       \<lparr>world = sample_cluster deleting_instance, calls = []\<rparr> = (GoOk empty_Result, t) \<and>
     last (calls t) = PatchInstance inst' \<and> ref_finalizer \<notin> set (meta_Finalizers (osl_Meta inst'))"
proof -
  let ?D = "ref_deps sample_env"
  let ?w = "sample_cluster deleting_instance"
  let ?s = "\<lparr>world = ?w, calls = []\<rparr>"
  let ?s1 = "after_get sample_request ?w ?s"
  have g: "get_instance (cli ?D) sample_request (world ?s) = (Inr deleting_instance, ?w)"
    by (simp add: sample_deletion_get)
  have "\<exists>i s'. reconcile_body ?D sample_defaults deleting_instance deleting_instance ?s1 =
      (GoOk ((empty_Result, None), snd (RemoveFinalizer ?D i ref_finalizer)), s')"
    by (simp add: reconcile_body_def resolveOCPVersion_def Let_def reconcileDelete_def onErr_run
        after_get_def sample_deletion_get sample_deletion_steps) blast
  then obtain i s' where b: "reconcile_body ?D sample_defaults deleting_instance deleting_instance ?s1 =
      (GoOk ((empty_Result, None), snd (RemoveFinalizer ?D i ref_finalizer)), s')" by blast
  have "ref_finalizer \<notin> set (meta_Finalizers (osl_Meta (snd (RemoveFinalizer ?D i ref_finalizer))))"
    by (simp add: remove_finalizer_frame [OF ref_typed_finalizers.finalizers_contract_axioms])
  with Reconcile_run [OF g _ b] show ?thesis by (fastforce simp: result_of_def)
qed

theorem finalizer_goes_last_witness:
  "\<exists>inst1 s1 s2 s3. osl_UID inst1 = osl_UID deleting_instance \<and>
     RemoveOLSConfig (ref_deps sample_env) deleting_instance inst1 s1 = (GoOk True, s2) \<and>
     UninstallInstanceOwnedOLSOperator (ref_deps sample_env) inst1 s2 = (GoOk True, s3)"
proof -
  let ?D = "ref_deps sample_env"
  obtain t inst' where "Reconcile ?D sample_defaults sample_request
       \<lparr>world = sample_cluster deleting_instance, calls = []\<rparr> = (GoOk empty_Result, t)"
     "last (calls t) = PatchInstance inst'" "ref_finalizer \<notin> set (meta_Finalizers (osl_Meta inst'))"
    using sample_deletion_run by blast
  from finalizer_goes_last [where D = ?D and helper = deleting_instance and inst = deleting_instance, OF _ _ _ _ this(1,2)] this(3)
  show ?thesis by (simp add: sample_cluster_get deleting_instance_def) blast
qed

section \<open>Errors\<close>

text \<open>
  C36: an error of the installation is reported in the status only. The run itself ends without
  an error and without a retry, whatever the error was.
\<close>

theorem install_error_not_retried:
  assumes "conditions_contract (condl D)" and "finalizers_contract D"
    and "get_instance (cli D) req (world s) = (Inr inst, w)" and "NewHelper D inst = Inr helper"
    and "Time_IsZero D (meta_DeletionTimestamp (osl_Meta inst))"
    and "GetFinalizer D helper \<in> set (meta_Finalizers (osl_Meta inst))"
    and "resolveOCPVersion D (initialise_status D inst) (after_get req w s) = (GoOk (v, inst1), s1)"
    and "EnsureOLSOperatorInstalled D (apply_defaults dflt inst1) s1 = (GoErr e, s2)"
  shows "\<exists>inst' t. Reconcile D dflt req s = (GoOk empty_Result, t) \<and>
     calls t = calls s2 @ [PatchInstance inst'] \<and>
     \<not> IsTrue (condl D) (osl_Conditions inst') OpenShiftLightspeedOperatorReadyCondition"
proof -
  let ?inst2 = "apply_defaults dflt inst1"
  let ?inst' = "set_Conditions (SetCondition (condl D) (osl_Conditions ?inst2)
    (FalseCondition (condl D) OpenShiftLightspeedOperatorReadyCondition (ErrorReason (condl D))
      (SeverityWarning (condl D)) (DeploymentReadyErrorMessage (condl D)) [Error e])) ?inst2"
  have "reconcile_install D helper ?inst2 s1 = (GoOk ((empty_Result, None), ?inst'), s2)"
    using assms(8) by (simp add: reconcile_install_def Let_def onErr_run)
  then have "reconcile_body D dflt helper inst (after_get req w s) = (GoOk ((empty_Result, None), ?inst'), s2)"
    by (simp add: body_installing [OF assms(2,5,6,7)])
  moreover have "\<not> IsTrue (condl D) (osl_Conditions (patched D inst ?inst'))
      OpenShiftLightspeedOperatorReadyCondition"
    using conditions_contract.ready_is_top(2) [OF assms(1)]
    by (simp add: patched_def conditions_contract.is_true_overall [OF assms(1)]
        conditions_contract.is_true_set [OF assms(1)] conditions_contract.false_type [OF assms(1)]
        conditions_contract.false_status [OF assms(1)])
  ultimately show ?thesis
    using Reconcile_run [OF assms(3,4), of dflt "(empty_Result, None)"] by (fastforce simp: result_of_def)
qed

definition foreign_cluster :: cluster where
  "foreign_cluster = empty_cluster\<lparr>c_csvs := [foreign_csv], c_instances := [managed_instance]\<rparr>"

lemma sample_foreign_refused:
  assumes "same_identity inst sample_instance"
  shows "\<exists>t. EnsureOLSOperatorInstalled (ref_deps sample_env) inst \<lparr>world = foreign_cluster, calls = cs\<rparr> =
    (GoErr user_installed_error, t)"
proof -
  let ?D = "ref_deps sample_env"
  have l: "GetOLSOperatorCSV ?D \<lparr>world = foreign_cluster, calls = cs\<rparr> = (GoOk (Some foreign_csv),
      \<lparr>world = foreign_cluster, calls = cs @ [GetConfig, NewClient, ListCSVs []]\<rparr>)"
    by (simp add: ref_GetOLSOperatorCSV foreign_cluster_def)
  have "IsUserInstalledOLSOperatorMode ?D sample_instance \<lparr>world = foreign_cluster, calls = cs\<rparr> = (GoOk True,
      \<lparr>world = foreign_cluster, calls = cs @ [GetConfig, NewClient, ListCSVs []]\<rparr>\<lparr>world := foreign_cluster,
        calls := calls \<lparr>world = foreign_cluster, calls = cs @ [GetConfig, NewClient, ListCSVs []]\<rparr> @
          [GetSubscription \<lparr>nn_Namespace = osl_Namespace sample_instance, nn_Name = ''lightspeed-operator-abcde''\<rparr>]\<rparr>)"
    by (rule user_installed_True [OF l _ sample_name, where r = "Inl (ref_NotFound ''lightspeed-operator-abcde'')"])
      (simp_all add: ref_client_def foreign_cluster_def empty_cluster_def ref_deps_def ref_NotFound_def)
  then show ?thesis
    unfolding ensure_identity [OF assms] by (simp add: EnsureOLSOperatorInstalled_def)
qed

theorem install_error_not_retried_witness:
  "\<exists>t inst'. Reconcile (ref_deps sample_env) sample_defaults sample_request
       \<lparr>world = foreign_cluster, calls = []\<rparr> = (GoOk empty_Result, t) \<and>
     last (calls t) = PatchInstance inst' \<and>
     \<not> IsTrue ref_cond (osl_Conditions inst') OpenShiftLightspeedOperatorReadyCondition"
proof -
  let ?D = "ref_deps sample_env"
  let ?s = "\<lparr>world = foreign_cluster, calls = []\<rparr>"
  have g: "get_instance ref_client sample_request foreign_cluster = (Inr managed_instance, foreign_cluster)"
    by (simp add: ref_client_def foreign_cluster_def sample_request_def)
  obtain s2 where "EnsureOLSOperatorInstalled ?D (apply_defaults sample_defaults sample_resolved)
      (after_get sample_request foreign_cluster ?s) = (GoErr user_installed_error, s2)"
    using sample_foreign_refused [OF sample_identity [of sample_defaults], of "[GetInstance sample_request]"]
    by (auto simp: after_get_def)
  with install_error_not_retried [of ?D sample_request ?s managed_instance foreign_cluster managed_instance
      "[]" sample_resolved _ sample_defaults user_installed_error s2]
  show ?thesis by (fastforce simp: g sample_resolves)
qed

section \<open>The outcome of the version resolution\<close>

text \<open>The version that a detected version resolves to.\<close>

definition version_for :: "OpenStackLightspeedSpec \<Rightarrow> string \<Rightarrow> string" where
  "version_for sp detected =
     (if OCPRAGVersionOverride sp \<noteq> [] then OCPRAGVersionOverride sp
      else if IsSupportedOCPVersion detected then detected else OCPVersionLatest)"

text \<open>
  C27: the resolution of the OpenShift version never makes a run fail. The version it returns is
  the one in the status. With the documentation disabled it is empty and the condition holds;
  with a detected version it is the forced one, or the detected one, or the latest, and the
  condition holds; and if the detection fails it is empty, even when a version is forced, and
  the condition does not hold.
\<close>

theorem ocp_version_outcome:
  assumes "conditions_contract (condl D)" and "resolveOCPVersion D inst s = (r, t)" and "\<not> is_panic r"
  shows "\<exists>v inst'. r = GoOk (v, inst') \<and> ActiveOCPRAGVersion (Status inst') = v \<and>
     osl_Meta inst' = osl_Meta inst \<and> Spec inst' = Spec inst \<and>
     (if \<not> EnableOCPRAG (Spec inst) then v = [] \<and> IsTrue (condl D) (osl_Conditions inst') OCPRAGCondition
      else case fst (DetectOCPVersion D s) of
        GoOk detected \<Rightarrow> v = version_for (Spec inst) detected \<and> v \<noteq> [] \<and>
          IsTrue (condl D) (osl_Conditions inst') OCPRAGCondition
      | GoErr e \<Rightarrow> v = [] \<and> \<not> IsTrue (condl D) (osl_Conditions inst') OCPRAGCondition
      | GoPanic p \<Rightarrow> False)"
proof -
  note conds [simp] = conditions_contract.is_true_mark_true [OF assms(1)]
    conditions_contract.is_true_set [OF assms(1)] conditions_contract.true_type [OF assms(1)]
    conditions_contract.true_status [OF assms(1)] conditions_contract.false_type [OF assms(1)]
    conditions_contract.false_status [OF assms(1)]
  obtain d s' where d: "DetectOCPVersion D s = (d, s')" by (cases "DetectOCPVersion D s")
  have ne: "v \<noteq> []" if "d = GoOk v" for v
    using DetectOCPVersion_GoOk d that major_minor_nonempty by blast
  show ?thesis
  proof (cases "EnableOCPRAG (Spec inst)")
    case False
    with assms(2) show ?thesis by (auto simp: resolveOCPVersion_def)
  next
    case True
    show ?thesis
    proof (cases d)
      case (GoOk v)
      have "ResolveOCPVersion v (OCPRAGVersionOverride (Spec inst)) True =
          GoOk (version_for (Spec inst) v, OCPRAGVersionOverride (Spec inst) = [] \<and> \<not> IsSupportedOCPVersion v)"
        using ne [OF GoOk] by (simp add: ResolveOCPVersion_def version_for_def)
      moreover have "version_for (Spec inst) v \<noteq> []"
        using ne [OF GoOk] by (simp add: version_for_def)
      ultimately show ?thesis
        using True GoOk assms(2) d by (auto simp: resolveOCPVersion_def Let_def onErr_run)
    qed (use True assms(2,3) d in \<open>auto simp: resolveOCPVersion_def Let_def onErr_run\<close>)
  qed
qed

theorem ocp_version_outcome_witness:
  "ActiveOCPRAGVersion (Status sample_resolved) = [] \<and>
   IsTrue ref_cond (osl_Conditions sample_resolved) OCPRAGCondition"
  using ocp_version_outcome [of "ref_deps sample_env" "initialise_status (ref_deps sample_env) managed_instance"
      "\<lparr>world = empty_cluster, calls = []\<rparr>" "GoOk ([], sample_resolved)" "\<lparr>world = empty_cluster, calls = []\<rparr>"]
  by (simp add: sample_resolves sample_spec_def)

section \<open>The token limit\<close>

text \<open>
  C35: the token limit that a run writes. Whatever object it patches with the instance it has
  filled in, the model of the provider gets as a \<^verbatim>\<open>float64\<close> the limit that the instance asks for, or
  the default limit when it asks for none: the exact number for every limit below 2 to the 53rd,
  and for any 64-bit limit with a relative error of at most 2 to the minus 53rd.
\<close>

theorem token_limit_rounding:
  assumes "object_metadata (unsl D)"
    and "olsConfig_mutate D helper (operator_marked D (apply_defaults dflt inst)) pre = GoOk post"
    and "m = sint (if MaxTokensForResponse (Spec inst) = 0 then DefaultMaxTokensForResponse dflt
           else MaxTokensForResponse (Spec inst))"
  shows "\<exists>provider n. at_path post [''spec'', ''llm'', ''providers''] = Some (JArray [JObject provider]) \<and>
     provider ''models'' = Some (JArray [JObject [''name'' \<mapsto> JString (ModelName (Spec inst)),
       ''parameters'' \<mapsto> JObject [''maxTokensForResponse'' \<mapsto> JFloat (of_int n)]]]) \<and>
     \<bar>n - m\<bar> * 2 ^ 53 \<le> \<bar>m\<bar> \<and> (\<bar>m\<bar> < 2 ^ 53 \<longrightarrow> n = m)"
proof -
  let ?i = "operator_marked D (apply_defaults dflt inst)"
  have "PatchOLSConfig D helper ?i pre = GoOk post" using assms(2) by (simp add: olsConfig_mutate_GoOk)
  then have "at_path post [''spec'', ''llm'', ''providers''] = Some (JArray [JObject (desired_provider ?i)])"
    by (rule PatchOLSConfig_desired [OF assms(1)]) (simp add: desired_fields_def Let_def)
  moreover have "sint (MaxTokensForResponse (Spec ?i)) = m" "ModelName (Spec ?i) = ModelName (Spec inst)"
    by (simp_all add: assms(3) operator_marked_def apply_defaults_def Let_def)
  then have "desired_provider ?i ''models'' = Some (JArray [JObject [''name'' \<mapsto> JString (ModelName (Spec inst)),
       ''parameters'' \<mapsto> JObject [''maxTokensForResponse'' \<mapsto> JFloat (of_int (float64_round m))]]])"
    by (simp add: desired_provider_def float64_of_int_def)
  ultimately show ?thesis using float64_round_error [of m] float64_round_exact [of m] by blast
qed

theorem token_limit_rounding_witness:
  "\<exists>post provider. olsConfig_mutate (ref_deps sample_env) sample_instance
       (operator_marked (ref_deps sample_env) (apply_defaults sample_defaults sample_instance)) Map.empty = GoOk post \<and>
     at_path post [''spec'', ''llm'', ''providers''] = Some (JArray [JObject provider]) \<and>
     provider ''models'' = Some (JArray [JObject [''name'' \<mapsto> JString ''granite'',
       ''parameters'' \<mapsto> JObject [''maxTokensForResponse'' \<mapsto> JFloat 2048]]])"
proof -
  let ?D = "ref_deps sample_env"
  let ?j = "operator_marked ?D (apply_defaults sample_defaults sample_instance)"
  have "list_all (\<lambda>f. settable Map.empty (fst f)) (desired_fields ?j)"
    by (simp add: desired_fields_def Let_def)
  moreover have "osl_Conditions ?j \<noteq> None" by (simp add: operator_marked_def ref_cond_def)
  ultimately obtain post where "PatchOLSConfig ?D sample_instance ?j Map.empty = GoOk post"
    using PatchOLSConfig_ok [of ?D ?j Map.empty sample_instance] by (auto simp: label_path_def)
  then have post: "olsConfig_mutate ?D sample_instance ?j Map.empty = GoOk post"
    by (simp add: olsConfig_mutate_GoOk ref_labels_def label_path_def label_of_def)
  have d: "sint (DefaultMaxTokensForResponse sample_defaults) = 2048"
    by (simp add: sample_defaults_def SetupDefaults_def MaxTokensForResponseDefault_def)
  have "Spec sample_instance = sample_spec" by (simp add: sample_instance_def)
  with token_limit_rounding [OF _ post refl] post d show ?thesis by (auto simp: sample_spec_def)
qed

section \<open>Notifications\<close>

lemma notify_requests_eq:
  "notify_requests items acc = acc @ map (\<lambda>i. \<lparr>nn_Namespace = osl_Namespace i, nn_Name = meta_Name (osl_Meta i)\<rparr>) items"
  by (induction items acc rule: notify_requests.induct) simp_all

text \<open>
  A change of a watched object asks for a reconciliation of every instance that is listed,
  in the namespace of the object, or everywhere for an object without one, and writes nothing.
  An error of the listing asks for nothing.
\<close>

lemma notify_all_instances:
  "fst (NotifyAllOpenStackLightspeeds D ns s) =
     (case fst (list_instances (cli D) (if ns = [] then None else Some ns) (world s)) of
        Inl err \<Rightarrow> GoOk []
      | Inr items \<Rightarrow> GoOk (map (\<lambda>i. \<lparr>nn_Namespace = osl_Namespace i, nn_Name = meta_Name (osl_Meta i)\<rparr>) items)) \<and>
   writes (snd (NotifyAllOpenStackLightspeeds D ns s)) = writes s"
  by (auto simp: NotifyAllOpenStackLightspeeds_def Let_def onErr_run perform_def notify_requests_eq writes_def
      split: prod.split sum.split)

end
