(* ===== verification/Manager.thy ===== *)
theory Manager
  imports Reconciler
begin

text \<open>
  \<^verbatim>\<open>cmd/main.go\<close>: the start of the process. The computation records the steps of the start-up
  instead of client calls. \<open>Parse\<close> is \<^verbatim>\<open>flag.Parse\<close>: from the defaults of the flags it makes the values
  of the command line. Ending with an error stands for logging it and \<^verbatim>\<open>os.Exit(1)\<close>. The
  manager of controller-runtime is a parameter; the package variable with the defaults is part
  of the state of the process.
\<close>

section \<open>Options\<close>

record tls_Config =
  MinVersion :: nat
  NextProtos :: "string list"

definition VersionTLS13 :: nat where
  "VersionTLS13 = 0x0304"

record Flags =
  metricsAddr :: string
  probeAddr :: string
  enableLeaderElection :: bool
  secureMetrics :: bool
  enableHTTP2 :: bool

text \<open>The values of the flags before the command line is parsed.\<close>

definition default_flags :: Flags where
  "default_flags = \<lparr>metricsAddr = ''0'', probeAddr = '':8081'', enableLeaderElection = False,
     secureMetrics = True, enableHTTP2 = False\<rparr>"

datatype FilterProvider = WithAuthenticationAndAuthorization

record metricsserver_Options =
  BindAddress :: string
  SecureServing :: bool
  TLSOpts :: "(tls_Config \<Rightarrow> tls_Config) list"
  Filter_Provider :: "FilterProvider option"

record ctrl_Options =
  opt_Scheme :: "string list"
  Metrics :: metricsserver_Options
  WebhookTLSOpts :: "(tls_Config \<Rightarrow> tls_Config) list"
  HealthProbeBindAddress :: string
  LeaderElection :: bool
  LeaderElectionID :: string
  DefaultNamespaces :: "string \<Rightarrow> unit option"

section \<open>init\<close>

text \<open>
  The scheme as the list of the groups added to it. \<^verbatim>\<open>Must\<close> of \<^verbatim>\<open>apimachinery\<close> and the functions
  \<^verbatim>\<open>AddToScheme\<close> of the three packages are parameters.
\<close>

definition init :: "(goerr option \<Rightarrow> unit gores) \<Rightarrow> (string \<Rightarrow> goerr option) \<Rightarrow> string list gores" where
  "init Must AddToScheme =
     resThen (Must (AddToScheme ''clientgoscheme'')) (\<lambda>_.
     resThen (Must (AddToScheme ''operators.coreos.com/v1alpha1'')) (\<lambda>_.
     resThen (Must (AddToScheme ''lightspeed.openstack.org/v1beta1'')) (\<lambda>_.
     GoOk [''clientgoscheme'', ''operators.coreos.com/v1alpha1'', ''lightspeed.openstack.org/v1beta1''])))"

section \<open>getWatchNamespaces\<close>

definition watchNamespaceEnvVar :: string where
  "watchNamespaceEnvVar = ''WATCH_NAMESPACE''"

definition getWatchNamespaces :: "(string \<Rightarrow> string option) \<Rightarrow> string list gores" where
  "getWatchNamespaces LookupEnv =
     (case LookupEnv watchNamespaceEnvVar of
        None \<Rightarrow> GoErr (Errorf ''%s must be set'' [watchNamespaceEnvVar])
      | Some ns \<Rightarrow> GoOk (Split (CHR '','') ns))"

text \<open>The loop that fills the map of the cache.\<close>

fun default_namespaces :: "string list \<Rightarrow> (string \<Rightarrow> unit option) \<Rightarrow> string \<Rightarrow> unit option" where
  "default_namespaces [] m = m"
| "default_namespaces (namespace # rest) m = default_namespaces rest (m(namespace \<mapsto> ()))"

section \<open>main\<close>

text \<open>The function appended to \<^verbatim>\<open>tlsOpts\<close>.\<close>

definition tlsOpt :: "bool \<Rightarrow> tls_Config \<Rightarrow> tls_Config" where
  "tlsOpt http2 c =
     (let c' = c\<lparr>MinVersion := VersionTLS13\<rparr> in
      if \<not> http2 then c'\<lparr>NextProtos := [''http/1.1'']\<rparr> else c')"

definition metrics_options :: "Flags \<Rightarrow> metricsserver_Options" where
  "metrics_options fl =
     (let o1 = \<lparr>BindAddress = metricsAddr fl, SecureServing = secureMetrics fl,
            TLSOpts = [tlsOpt (enableHTTP2 fl)], Filter_Provider = None\<rparr> in
      if secureMetrics fl then o1\<lparr>Filter_Provider := Some WithAuthenticationAndAuthorization\<rparr> else o1)"

definition manager_options :: "string list \<Rightarrow> Flags \<Rightarrow> string list \<Rightarrow> ctrl_Options" where
  "manager_options scheme fl namespaces =
     \<lparr>opt_Scheme = scheme, Metrics = metrics_options fl, WebhookTLSOpts = [tlsOpt (enableHTTP2 fl)],
      HealthProbeBindAddress = probeAddr fl, LeaderElection = enableLeaderElection fl,
      LeaderElectionID = ''c83b0a4f.lightspeed.openstack.org'',
      DefaultNamespaces = default_namespaces namespaces Map.empty\<rparr>"

datatype step =
    LoadConfig
  | NewManager ctrl_Options
  | SetDefaults OpenStackLightspeedDefaults
  | BuildController "watch list"
  | AddHealthzCheck string
  | AddReadyzCheck string
  | Start

text \<open>
  The functions of the manager, on its own state \<open>'m\<close>, and the process around it.
  \<open>load_config\<close> is \<^verbatim>\<open>GetConfigOrDie\<close>, which ends the process when there is no configuration.
\<close>

record 'm process =
  manager :: 'm
  OpenStackLightspeedDefaultValues :: "OpenStackLightspeedDefaults option"

record 'm manager_lib =
  load_config :: "'m process \<Rightarrow> (goerr + unit) \<times> 'm process"
  new_manager :: "ctrl_Options \<Rightarrow> 'm process \<Rightarrow> (goerr + unit) \<times> 'm process"
  complete :: "watch list \<Rightarrow> 'm process \<Rightarrow> (goerr + unit) \<times> 'm process"
  add_healthz :: "string \<Rightarrow> 'm process \<Rightarrow> (goerr + unit) \<times> 'm process"
  add_readyz :: "string \<Rightarrow> 'm process \<Rightarrow> (goerr + unit) \<times> 'm process"
  start_manager :: "'m process \<Rightarrow> (goerr + unit) \<times> 'm process"

definition main ::
  "'m manager_lib \<Rightarrow> (string \<Rightarrow> string option) \<Rightarrow> (string \<Rightarrow> string \<Rightarrow> string) \<Rightarrow> string list \<Rightarrow> (Flags \<Rightarrow> Flags) \<Rightarrow>
     ('m process, step, unit) go" where
  "main M LookupEnv GetEnvVar scheme Parse =
     andThen (lift_res (getWatchNamespaces LookupEnv)) (\<lambda>watchNamespaces.
     let options = manager_options scheme (Parse default_flags) watchNamespaces;
         dflt = SetupDefaults GetEnvVar in
     andThen (perform LoadConfig (load_config M)) (\<lambda>_.
     andThen (perform (NewManager options) (new_manager M options)) (\<lambda>_.
     andThen (perform (SetDefaults dflt)
        (\<lambda>p. (Inr (), p\<lparr>OpenStackLightspeedDefaultValues := Some dflt\<rparr>))) (\<lambda>_.
     andThen (SetupWithManager (\<lambda>ws. perform (BuildController ws) (complete M ws))) (\<lambda>_.
     andThen (perform (AddHealthzCheck ''healthz'') (add_healthz M ''healthz'')) (\<lambda>_.
     andThen (perform (AddReadyzCheck ''readyz'') (add_readyz M ''readyz'')) (\<lambda>_.
     perform Start (start_manager M))))))))"

section \<open>Properties\<close>

lemma default_namespaces_dom: "dom (default_namespaces ns m) = dom m \<union> set ns"
  by (induction ns arbitrary: m) simp_all

lemma getWatchNamespaces_GoOk:
  "getWatchNamespaces env = GoOk l \<longleftrightarrow>
     l \<noteq> [] \<and> list_all (\<lambda>n. CHR '','' \<notin> set n) l \<and> env watchNamespaceEnvVar = Some (Join (CHR '','') l)"
  (is "?lhs \<longleftrightarrow> ?rhs")
proof
  assume ?lhs
  then obtain ns where ns: "env watchNamespaceEnvVar = Some ns" "l = Split (CHR '','') ns"
    by (auto simp: getWatchNamespaces_def split: option.splits)
  then show ?rhs using Split_no_sep by (auto simp: list_all_iff)
next
  assume ?rhs
  then show ?lhs by (auto simp: getWatchNamespaces_def list_all_iff Split_Join)
qed

text \<open>
  The namespaces that the manager is told to watch are exactly the comma-separated parts of
  the variable \<^verbatim>\<open>WATCH_NAMESPACE\<close>: the list is not empty, no part has a comma, joined by commas
  they give the variable back, and the cache is restricted to exactly these names.
\<close>

lemma watched_namespaces_exact:
  "(getWatchNamespaces env = GoOk l \<longleftrightarrow>
      l \<noteq> [] \<and> list_all (\<lambda>n. CHR '','' \<notin> set n) l \<and>
      env watchNamespaceEnvVar = Some (Join (CHR '','') l)) \<and>
   dom (DefaultNamespaces (manager_options scheme fl l)) = set l"
  by (simp add: getWatchNamespaces_GoOk manager_options_def default_namespaces_dom)

text \<open>The steps of a complete start-up, and what they promise about the servers.\<close>

definition startup_steps ::
  "(string \<Rightarrow> string option) \<Rightarrow> (string \<Rightarrow> string \<Rightarrow> string) \<Rightarrow> string list \<Rightarrow> Flags \<Rightarrow> step list" where
  "startup_steps LookupEnv GetEnvVar scheme fl =
     (case getWatchNamespaces LookupEnv of
        GoOk ns \<Rightarrow> [LoadConfig, NewManager (manager_options scheme fl ns), SetDefaults (SetupDefaults GetEnvVar),
          BuildController (SetupWithManager id), AddHealthzCheck ''healthz'', AddReadyzCheck ''readyz'', Start]
      | _ \<Rightarrow> [])"

fun hardened :: "Flags \<Rightarrow> step \<Rightarrow> bool" where
  "hardened fl (NewManager o1) =
     (list_all (\<lambda>opt. \<forall>c. MinVersion (opt c) = VersionTLS13 \<and>
          NextProtos (opt c) = (if enableHTTP2 fl then NextProtos c else [''http/1.1'']))
        (TLSOpts (Metrics o1) @ WebhookTLSOpts o1) \<and>
      TLSOpts (Metrics o1) \<noteq> [] \<and> WebhookTLSOpts o1 \<noteq> [] \<and>
      (Filter_Provider (Metrics o1) = Some WithAuthenticationAndAuthorization) = SecureServing (Metrics o1))"
| "hardened fl st = True"

lemma hardened_options: "hardened fl (NewManager (manager_options scheme fl ns))"
  by (simp add: manager_options_def metrics_options_def tlsOpt_def Let_def)

lemma SetupWithManager_apply: "SetupWithManager f = f (SetupWithManager id)"
  by (simp add: SetupWithManager_def Let_def)

text \<open>
  Running a list of steps: after \<open>perform c a\<close> the calls have grown by \<open>c\<close>, and the rest runs
  only if it went well.
\<close>

definition stepwise :: "step list \<Rightarrow> ('m process, step, unit) go \<Rightarrow> bool" where
  "stepwise steps m \<longleftrightarrow> (\<forall>s. \<exists>new. calls (snd (m s)) = calls s @ new \<and> prefix new steps \<and>
     (case fst (m s) of GoOk _ \<Rightarrow> new = steps | _ \<Rightarrow> True))"

lemma stepwise_perform: "stepwise [c] (perform c a)"
  unfolding stepwise_def by (auto simp: perform_def split: prod.split sum.split)

lemma stepwise_andThen:
  assumes "stepwise steps m"
  shows "stepwise (c # steps) (andThen (perform c a) (\<lambda>_. m))"
  unfolding stepwise_def
proof
  fix s :: "('a process, step) sys"
  obtain r w where a: "a (world s) = (r, w)" by (cases "a (world s)")
  let ?s' = "s\<lparr>world := w, calls := calls s @ [c]\<rparr>"
  show "\<exists>new. calls (snd (andThen (perform c a) (\<lambda>_. m) s)) = calls s @ new \<and> prefix new (c # steps) \<and>
     (case fst (andThen (perform c a) (\<lambda>_. m) s) of GoOk _ \<Rightarrow> new = c # steps | _ \<Rightarrow> True)"
  proof (cases r)
    case (Inl e)
    with a show ?thesis by (intro exI [of _ "[c]"]) (simp add: andThen_run perform_def)
  next
    case (Inr x)
    obtain new where "calls (snd (m ?s')) = calls ?s' @ new" "prefix new steps"
      "case fst (m ?s') of GoOk _ \<Rightarrow> new = steps | _ \<Rightarrow> True"
      using assms unfolding stepwise_def by blast
    with a Inr show ?thesis
      by (intro exI [of _ "c # new"]) (auto simp: andThen_run perform_def split: gores.splits)
  qed
qed

lemma stepwise_main: "stepwise (startup_steps env g scheme (Parse default_flags)) (main M env g scheme Parse)"
proof (cases "getWatchNamespaces env")
  case (GoOk ns)
  then have "main M env g scheme Parse =
     andThen (perform LoadConfig (load_config M)) (\<lambda>_.
     andThen (perform (NewManager (manager_options scheme (Parse default_flags) ns)) (new_manager M (manager_options scheme (Parse default_flags) ns))) (\<lambda>_.
     andThen (perform (SetDefaults (SetupDefaults g))
        (\<lambda>p. (Inr (), p\<lparr>OpenStackLightspeedDefaultValues := Some (SetupDefaults g)\<rparr>))) (\<lambda>_.
     andThen (perform (BuildController (SetupWithManager id)) (complete M (SetupWithManager id))) (\<lambda>_.
     andThen (perform (AddHealthzCheck ''healthz'') (add_healthz M ''healthz'')) (\<lambda>_.
     andThen (perform (AddReadyzCheck ''readyz'') (add_readyz M ''readyz'')) (\<lambda>_.
     perform Start (start_manager M)))))))"
    unfolding main_def Let_def SetupWithManager_apply [of "\<lambda>ws. perform (BuildController ws) (complete M ws)"]
    by (simp add: fun_eq_iff andThen_run)
  with GoOk show ?thesis
    by (simp add: startup_steps_def stepwise_andThen stepwise_perform)
qed (auto simp: stepwise_def startup_steps_def main_def andThen_run getWatchNamespaces_def split: option.splits)

text \<open>
  C34: the start-up goes through its steps in order and stops at the first that fails; it returns
  normally only after all of them. In particular nothing happens without \<^verbatim>\<open>WATCH_NAMESPACE\<close>, and
  the manager starts only after the defaults were set and the controller was built. The servers
  of the manager require TLS 1.3, offer HTTP/2 only if the flag asks for it, and the metrics are
  behind authentication exactly when they are served securely.
\<close>

theorem startup_in_order:
  "\<exists>new. calls (snd (main M env g scheme Parse s)) = calls s @ new \<and>
     prefix new (startup_steps env g scheme (Parse default_flags)) \<and>
     (case fst (main M env g scheme Parse s) of GoOk _ \<Rightarrow> new = startup_steps env g scheme (Parse default_flags) | _ \<Rightarrow> True) \<and>
     list_all (hardened (Parse default_flags)) new"
proof -
  obtain new where n: "calls (snd (main M env g scheme Parse s)) = calls s @ new"
    "prefix new (startup_steps env g scheme (Parse default_flags))"
    "case fst (main M env g scheme Parse s) of GoOk _ \<Rightarrow> new = startup_steps env g scheme (Parse default_flags) | _ \<Rightarrow> True"
    using stepwise_main unfolding stepwise_def by blast
  have "list_all (hardened (Parse default_flags)) (startup_steps env g scheme (Parse default_flags))"
    by (cases "getWatchNamespaces env") (simp_all add: startup_steps_def hardened_options del: hardened.simps(1))
  with n(2) have "list_all (hardened (Parse default_flags)) new" by (auto simp: list_all_iff dest: set_mono_prefix)
  with n show ?thesis by blast
qed

end
