(* ===== verification/Ownership.thy ===== *)
theory Ownership
  imports Reconciler
begin

text \<open>
  Who owns the one \<^verbatim>\<open>OLSConfig\<close> of a cluster when several instances reconcile it: the histories
  of patches, pings and releases, the abstract ownership cell that the check refines, and the
  case that escapes it.
\<close>

section \<open>Who gets the OLSConfig\<close>

text \<open>
  The life of an \<^verbatim>\<open>OLSConfig\<close> object under the operator, from its creation: reconciliations of
  any instances that patched it (the list has their identifiers, oldest first), pings, the
  patches of removals in progress, and changes by anybody else that leave the labels alone.
\<close>

inductive config_history :: "'w deps \<Rightarrow> object \<Rightarrow> string list \<Rightarrow> object \<Rightarrow> bool"
  for D :: "'w deps" and start where
  fresh: "config_history D start [] start"
| reconciled:
    "config_history D start uids cfg \<Longrightarrow> olsConfig_mutate D helper inst cfg = GoOk cfg' \<Longrightarrow>
     config_history D start (uids @ [osl_UID inst]) cfg'"
| pinged:
    "config_history D start uids cfg \<Longrightarrow>
     config_history D start uids (SetLabels (unsl D) cfg
       ((case GetLabels (unsl D) cfg of None \<Rightarrow> Map.empty | Some ls \<Rightarrow> ls)(randomLabelKey \<mapsto> n)))"
| released:
    "config_history D start uids cfg \<Longrightarrow> RemoveOLSConfig_mutate D helper inst cfg = GoOk cfg' \<Longrightarrow>
     config_history D start uids cfg'"
| others:
    "config_history D start uids cfg \<Longrightarrow> at_path cfg' label_path = at_path cfg label_path \<Longrightarrow>
     settable cfg' label_path \<Longrightarrow> config_history D start uids cfg'"

definition owner_in :: "(string \<Rightarrow> string option) option \<Rightarrow> string option" where
  "owner_in labels = (case labels of None \<Rightarrow> None | Some ls \<Rightarrow> ls OpenStackLightspeedOwnerIDLabel)"

lemma owner_in_updated:
  "owner_in (Some (updated_labels uid labels)) = Some (case owner_in labels of None \<Rightarrow> uid | Some u \<Rightarrow> u)"
  by (auto simp: owner_in_def updated_labels_def map_add_def split: option.splits)

lemma label_of_owner: "label_of labels OpenStackLightspeedOwnerIDLabel = (case owner_in labels of None \<Rightarrow> [] | Some u \<Rightarrow> u)"
  by (simp add: label_of_def owner_in_def split: option.split)

lemma ping_label_is_not_owner: "randomLabelKey \<noteq> OpenStackLightspeedOwnerIDLabel"
  by (simp add: randomLabelKey_def OpenStackLightspeedOwnerIDLabel_def)

lemma owner_in_ping:
  "owner_in (Some ((case labels of None \<Rightarrow> Map.empty | Some ls \<Rightarrow> ls)(randomLabelKey \<mapsto> n))) = owner_in labels"
  using ping_label_is_not_owner by (simp add: owner_in_def split: option.split)

lemma labels_at_settable: "labels_at cfg (Some ls) \<Longrightarrow> settable cfg label_path"
  using at_path_settable [of cfg label_path] by (simp add: labels_at_def label_path_def [THEN arg_cong [where f = "\<lambda>p. p = []"]])

text \<open>
  The abstract specification of ownership: a cell that is empty or holds an identifier. The
  first claim fills it; afterwards only the same identifier may claim it again.
\<close>

fun claim :: "string \<Rightarrow> string option \<Rightarrow> string option option" where
  "claim uid None = Some (Some uid)"
| "claim uid (Some u) = (if u = uid then Some (Some u) else None)"

text \<open>
  C16: the mutate function of the reconciliation implements this specification on the owner label.
  A claim that the specification refuses is refused with the documented error; one that it
  grants is passed on to the patch, and after a patch that succeeded the label is what the
  specification says.
\<close>

theorem mutate_refines_claim:
  assumes "object_metadata (unsl D)" and "labels_at cfg labels" and "owner_in labels \<noteq> Some []"
  shows "case claim (osl_UID inst) (owner_in labels) of
       None \<Rightarrow> olsConfig_mutate D helper inst cfg =
         GoErr (ErrorString ''OLSConfig is managed by different OpenStackLightspeed instance'')
     | Some owner \<Rightarrow> olsConfig_mutate D helper inst cfg = PatchOLSConfig D helper inst cfg \<and>
         (case olsConfig_mutate D helper inst cfg of
            GoOk cfg' \<Rightarrow> owner_in (GetLabels (unsl D) cfg') = owner | _ \<Rightarrow> True)"
proof -
  have g: "GetLabels (unsl D) cfg = labels"
    using object_metadata.labels_at_GetLabels [OF assms(1,2)] .
  have "owner_in (GetLabels (unsl D) cfg') = Some (case owner_in labels of None \<Rightarrow> osl_UID inst | Some u \<Rightarrow> u)"
    if "PatchOLSConfig D helper inst cfg = GoOk cfg'" for cfg'
    using object_metadata.labels_at_GetLabels [OF assms(1) PatchOLSConfig_labels [OF assms(1) that assms(2)]]
    by (simp add: owner_in_updated)
  with g assms(3) show ?thesis
    by (auto simp: olsConfig_mutate_def label_of_owner Errorf_def Sprintf_no_verb split: option.split gores.split)
qed

theorem mutate_refines_claim_witness:
  "olsConfig_mutate (ref_deps sample_env) sample_instance sample_instance (owned_config ''other'' []) =
     GoErr (ErrorString ''OLSConfig is managed by different OpenStackLightspeed instance'')"
proof -
  have "labels_at (owned_config ''other'' []) (Some [OpenStackLightspeedOwnerIDLabel \<mapsto> ''other''])"
    by (auto simp: owned_config_def label_path_def labels_at_def fun_eq_iff)
  from mutate_refines_claim [OF _ this, of "ref_deps sample_env" sample_instance sample_instance]
  show ?thesis by (simp add: owner_in_def sample_instance_def)
qed

text \<open>
  The invariant of a history: the labels are readable, the owner label is the one at the start
  or else the first instance that patched, and a non-empty owner label names everyone who
  patched.
\<close>

definition owned_exclusively :: "object \<Rightarrow> string option \<Rightarrow> string list \<Rightarrow> bool" where
  "owned_exclusively cfg start uids \<longleftrightarrow>
     (\<exists>labels. labels_at cfg labels \<and> settable cfg label_path \<and>
        owner_in labels = (case start of Some u \<Rightarrow> Some u
          | None \<Rightarrow> (case uids of [] \<Rightarrow> None | u # _ \<Rightarrow> Some u)) \<and>
        (case owner_in labels of None \<Rightarrow> uids = [] | Some u \<Rightarrow> u = [] \<or> set uids \<subseteq> {u}))"

lemma mutate_keeps_owned:
  assumes "object_metadata (unsl D)" and "owned_exclusively cfg st uids"
    and "olsConfig_mutate D helper inst cfg = GoOk cfg'" and "osl_UID inst \<noteq> []"
  shows "owned_exclusively cfg' st (uids @ [osl_UID inst])"
proof -
  from assms(2) obtain labels where l: "labels_at cfg labels" "settable cfg label_path"
    and o: "owner_in labels = (case st of Some u \<Rightarrow> Some u | None \<Rightarrow> (case uids of [] \<Rightarrow> None | u # _ \<Rightarrow> Some u))"
    and e: "case owner_in labels of None \<Rightarrow> uids = [] | Some u \<Rightarrow> u = [] \<or> set uids \<subseteq> {u}"
    by (auto simp: owned_exclusively_def)
  have g: "GetLabels (unsl D) cfg = labels"
    using object_metadata.labels_at_GetLabels [OF assms(1) l(1)] .
  from assms(3) have p: "PatchOLSConfig D helper inst cfg = GoOk cfg'"
    and own: "owner_in labels = None \<or> owner_in labels = Some [] \<or> owner_in labels = Some (osl_UID inst)"
    by (auto simp: olsConfig_mutate_def Let_def g label_of_owner split: if_splits option.splits)
  let ?new = "Some (updated_labels (osl_UID inst) labels)"
  have l': "labels_at cfg' ?new" by (rule PatchOLSConfig_labels [OF assms(1) p l(1)])
  moreover have "owner_in ?new = (case st of Some u \<Rightarrow> Some u
      | None \<Rightarrow> (case uids @ [osl_UID inst] of [] \<Rightarrow> None | u # _ \<Rightarrow> Some u))"
    using o by (auto simp: owner_in_updated split: option.splits list.splits)
  moreover have "case owner_in ?new of None \<Rightarrow> uids @ [osl_UID inst] = []
      | Some u \<Rightarrow> u = [] \<or> set (uids @ [osl_UID inst]) \<subseteq> {u}"
    using own e by (auto simp: owner_in_updated)
  ultimately show ?thesis
    using labels_at_settable unfolding owned_exclusively_def by blast
qed

lemma ping_keeps_owned:
  assumes "object_metadata (unsl D)" and "owned_exclusively cfg st uids"
  shows "owned_exclusively (SetLabels (unsl D) cfg
    ((case GetLabels (unsl D) cfg of None \<Rightarrow> Map.empty | Some ls \<Rightarrow> ls)(randomLabelKey \<mapsto> n))) st uids"
proof -
  from assms(2) obtain labels where l: "labels_at cfg labels" "settable cfg label_path"
    and o: "owner_in labels = (case st of Some u \<Rightarrow> Some u | None \<Rightarrow> (case uids of [] \<Rightarrow> None | u # _ \<Rightarrow> Some u))"
      "case owner_in labels of None \<Rightarrow> uids = [] | Some u \<Rightarrow> u = [] \<or> set uids \<subseteq> {u}"
    by (auto simp: owned_exclusively_def)
  let ?new = "Some ((case labels of None \<Rightarrow> Map.empty | Some ls \<Rightarrow> ls)(randomLabelKey \<mapsto> n))"
  have g: "GetLabels (unsl D) cfg = labels"
    using object_metadata.labels_at_GetLabels [OF assms(1) l(1)] .
  have l': "labels_at (SetLabels (unsl D) cfg (the ?new)) ?new"
    using object_metadata.labels_set [OF assms(1) l(2)] by (simp add: labels_at_def)
  show ?thesis
    unfolding owned_exclusively_def g
    using l' labels_at_settable [OF l'] o owner_in_ping [of labels n] by (intro exI [of _ ?new]) simp
qed

lemma release_keeps_owned:
  assumes "object_metadata (unsl D)" and "owned_exclusively cfg st uids"
    and "RemoveOLSConfig_mutate D helper inst cfg = GoOk cfg'"
  shows "owned_exclusively cfg' st uids"
proof (cases "cfg' = cfg")
  case False
  from assms(2) obtain labels where l: "labels_at cfg labels"
    and o: "owner_in labels = (case st of Some u \<Rightarrow> Some u | None \<Rightarrow> (case uids of [] \<Rightarrow> None | u # _ \<Rightarrow> Some u))"
      "case owner_in labels of None \<Rightarrow> uids = [] | Some u \<Rightarrow> u = [] \<or> set uids \<subseteq> {u}"
    by (auto simp: owned_exclusively_def)
  have g: "GetLabels (unsl D) cfg = labels"
    using object_metadata.labels_at_GetLabels [OF assms(1) l] .
  from False assms(3) have c: "cfg' = snd (uns_RemoveFinalizer (unsl D) cfg (GetFinalizer D helper))"
    and "label_of labels OpenStackLightspeedOwnerIDLabel \<noteq> []"
    by (auto simp: RemoveOLSConfig_mutate_def Let_def g case_prod_beta split: if_splits)
  then obtain ls where "labels = Some ls" by (cases labels) (simp_all add: label_of_def)
  moreover have "at_path cfg' label_path = at_path cfg label_path"
    using labels_apart_finalizers unfolding c
    by (simp add: object_metadata.remove_finalizer_other [OF assms(1)] apart_def)
  then have "labels_at cfg' labels" using l by (simp add: labels_at_def)
  ultimately show ?thesis
    using o labels_at_settable unfolding owned_exclusively_def by blast
qed (use assms in simp)

lemma history_owned:
  assumes "object_metadata (unsl D)" and "labels_at start labels" and "settable start label_path"
    and "config_history D start uids cfg" and "list_all (\<lambda>u. u \<noteq> []) uids"
  shows "owned_exclusively cfg (owner_in labels) uids"
  using assms(4,5)
proof (induction rule: config_history.induct)
  case fresh
  with assms(2,3) show ?case
    unfolding owned_exclusively_def by (intro exI [of _ labels]) (simp split: option.split)
next
  case (reconciled uids cfg helper inst cfg')
  then show ?case by (intro mutate_keeps_owned [OF assms(1) _ reconciled(2)]) simp_all
next
  case (pinged uids cfg n)
  then show ?case by (intro ping_keeps_owned [OF assms(1)]) simp
next
  case (released uids cfg helper inst cfg')
  then show ?case by (blast intro: release_keeps_owned [OF assms(1) _ released(2)])
next
  case (others uids cfg cfg')
  then show ?case by (auto simp: owned_exclusively_def labels_at_def)
qed

text \<open>
  C2: an \<^verbatim>\<open>OLSConfig\<close> belongs to one instance. In every such history that starts from an object without
  an owner label, all reconciliations that patched the object are of the same instance, and the
  owner label has its identifier.
\<close>

theorem olsconfig_single_owner:
  assumes "object_metadata (unsl D)" and "labels_at start labels" and "settable start label_path"
    and "owner_in labels = None" and "config_history D start uids cfg" and "list_all (\<lambda>u. u \<noteq> []) uids"
  shows "list_all (\<lambda>u. u = hd uids) uids \<and>
     label_of (GetLabels (unsl D) cfg) OpenStackLightspeedOwnerIDLabel = (case uids of [] \<Rightarrow> [] | u # _ \<Rightarrow> u)"
proof -
  obtain labels' where l: "labels_at cfg labels'"
    and o: "owner_in labels' = (case uids of [] \<Rightarrow> None | u # _ \<Rightarrow> Some u)"
      "case owner_in labels' of None \<Rightarrow> uids = [] | Some u \<Rightarrow> u = [] \<or> set uids \<subseteq> {u}"
    using history_owned [OF assms(1,2,3,5,6)] assms(4) by (auto simp: owned_exclusively_def)
  from object_metadata.labels_at_GetLabels [OF assms(1) l] o assms(6) show ?thesis
    by (cases uids) (auto simp: label_of_owner list_all_iff)
qed

theorem olsconfig_single_owner_witness:
  "\<exists>cfg. config_history (ref_deps sample_env) Map.empty [''abcde-1''] cfg \<and>
     label_of (GetLabels ref_uns cfg) OpenStackLightspeedOwnerIDLabel = ''abcde-1''"
proof -
  let ?D = "ref_deps sample_env"
  obtain cfg where "PatchOLSConfig ?D sample_instance sample_instance Map.empty = GoOk cfg"
    using sample_patch_ok by blast
  then have "olsConfig_mutate ?D sample_instance sample_instance Map.empty = GoOk cfg"
    by (simp add: olsConfig_mutate_def ref_labels_def label_path_def label_of_def)
  from reconciled [OF fresh this] have h: "config_history ?D Map.empty [''abcde-1''] cfg"
    by (simp add: sample_instance_def)
  with olsconfig_single_owner [OF _ _ _ _ h, of None] show ?thesis
    by (auto simp: labels_at_def label_path_def owner_in_def)
qed

text \<open>
  C40: an owner label that is present and empty is never replaced. From such an object on, no
  reconciliation, of any instance, makes the \<^verbatim>\<open>OLSConfig\<close> its own, and none is refused for it.
\<close>

theorem empty_owner_label_stays:
  assumes "object_metadata (unsl D)" and "labels_at start labels" and "settable start label_path"
    and "owner_in labels = Some []" and "config_history D start uids cfg" and "list_all (\<lambda>u. u \<noteq> []) uids"
  shows "label_of (GetLabels (unsl D) cfg) OpenStackLightspeedOwnerIDLabel = [] \<and>
     olsConfig_mutate D helper inst cfg = PatchOLSConfig D helper inst cfg"
proof -
  obtain labels' where l: "labels_at cfg labels'" and o: "owner_in labels' = Some []"
    using history_owned [OF assms(1,2,3,5,6)] assms(4) by (auto simp: owned_exclusively_def)
  from object_metadata.labels_at_GetLabels [OF assms(1) l] o show ?thesis
    by (simp add: label_of_owner olsConfig_mutate_def)
qed

theorem empty_owner_label_stays_witness:
  "\<exists>cfg. config_history (ref_deps sample_env) (owned_config [] []) [''abcde-1''] cfg \<and>
     label_of (GetLabels ref_uns cfg) OpenStackLightspeedOwnerIDLabel = []"
proof -
  let ?D = "ref_deps sample_env"
  let ?start = "owned_config [] []"
  have s: "settable ?start label_path" "ref_labels ?start = Some [OpenStackLightspeedOwnerIDLabel \<mapsto> []]"
    "labels_at ?start (Some [OpenStackLightspeedOwnerIDLabel \<mapsto> []])"
    by (auto simp: owned_config_def label_path_def ref_labels_def labels_at_def fun_eq_iff)
  have f: "list_all (\<lambda>f. settable ?start (fst f)) (desired_fields sample_instance)"
    by (auto simp: owned_config_def desired_fields_def Let_def)
  have c: "osl_Conditions sample_instance \<noteq> None" by (simp add: sample_instance_def)
  obtain cfg where "PatchOLSConfig ?D sample_instance sample_instance ?start = GoOk cfg"
    using PatchOLSConfig_ok [of ?D sample_instance ?start sample_instance] s(1) c f by auto
  then have "olsConfig_mutate ?D sample_instance sample_instance ?start = GoOk cfg"
    by (simp add: olsConfig_mutate_def s label_of_def)
  from reconciled [OF fresh this] have h: "config_history ?D ?start [''abcde-1''] cfg"
    by (simp add: sample_instance_def)
  with empty_owner_label_stays [OF _ _ _ _ h, of "Some [OpenStackLightspeedOwnerIDLabel \<mapsto> []]"] s
  show ?thesis by (auto simp: owner_in_def)
qed

end
