(* ===== verification/Stability.thy ===== *)
theory Stability
  imports Ownership
begin

text \<open>
  The mutate functions are stable: applied to their own result they change nothing. A
  reconciliation of an unchanged instance therefore leaves the \<^verbatim>\<open>OLSConfig\<close> and the subscription as
  they are, and the watches do not keep the controller busy. For the subscription this is also
  what lets the installation go on, which waits while the subscription changes.
\<close>

section \<open>Assignments that change nothing\<close>

text \<open>Setting a field to the value it has, and adding a finalizer that is there, leave the object alone.\<close>

locale stable_fields = object_metadata U
  for U :: uns_lib +
  assumes set_same: "p \<noteq> [] \<Longrightarrow> at_path obj p = Some v \<Longrightarrow> SetNestedField U obj v p = GoOk obj"
    and add_same: "f \<in> set (GetFinalizers U obj) \<Longrightarrow> uns_AddFinalizer U obj f = (False, obj)"
begin

lemma set_fields_same:
  "list_all (\<lambda>(p, v). p \<noteq> [] \<and> at_path obj p = Some v) fs \<Longrightarrow> set_fields U obj fs = GoOk obj"
  by (induction fs) (auto simp: set_same)

end

lemma set_path_same: "p \<noteq> [] \<Longrightarrow> at_path obj p = Some v \<Longrightarrow> set_path obj v p = Some obj"
  by (induction obj v p rule: set_path.induct) (auto split: option.splits json.splits)

interpretation ref_stable: stable_fields ref_uns
  by unfold_locales (auto simp: ref_set_def set_path_same ref_uns_def)

lemma desired_paths: "(p, v) \<in> set (desired_fields inst) \<Longrightarrow> p \<noteq> []"
  by (auto simp: desired_fields_def Let_def split: if_splits)

lemma updated_labels_twice [simp]:
  "updated_labels uid (Some (updated_labels uid labels)) = updated_labels uid labels"
  by (auto simp: updated_labels_def map_add_def fun_eq_iff split: option.splits)

section \<open>The patch\<close>

lemma PatchOLSConfig_finalizer:
  assumes "object_metadata (unsl D)" and "PatchOLSConfig D helper inst cfg = GoOk cfg'"
    and "settable cfg finalizer_path"
  shows "GetFinalizer D helper \<in> set (GetFinalizers (unsl D) cfg')"
proof -
  note nf = object_metadata.axioms(1) [OF assms(1)]
  obtain c1 where c1: "set_fields (unsl D) cfg (desired_fields inst) = GoOk c1"
    and claim: "claim_ownership D helper inst c1 = GoOk cfg'"
    using assms(1,2) by (rule PatchOLSConfig_GoOkE)
  from claim obtain c2 v where c2: "SetNestedField (unsl D) c1 v label_path = GoOk c2"
      "cfg' = snd (uns_AddFinalizer (unsl D) c2 (GetFinalizer D helper))"
    by (auto simp: claim_ownership_GoOk_iff)
  have "settable c1 finalizer_path"
    by (rule nested_fields.set_fields_settable [OF nf c1 desired_apart_metadata(2) assms(3)])
  with c2(1) have "settable c2 finalizer_path"
    using nested_fields.set_settable [OF nf] labels_apart_finalizers by (auto simp: apart_def)
  with c2(2) show ?thesis
    by (simp add: object_metadata.add_finalizer_set [OF assms(1)])
qed

lemma PatchOLSConfig_stable:
  assumes st: "stable_fields (unsl D)" and p: "PatchOLSConfig D helper inst cfg = GoOk cfg'"
    and l: "labels_at cfg labels" and "settable cfg finalizer_path" and "osl_Conditions inst \<noteq> None"
  shows "PatchOLSConfig D helper inst cfg' = GoOk cfg'"
proof -
  note om = stable_fields.axioms(1) [OF st]
  have "list_all (\<lambda>(p, v). p \<noteq> [] \<and> at_path cfg' p = Some v) (desired_fields inst)"
    using PatchOLSConfig_desired [OF om p] desired_paths by (fastforce simp: list_all_iff)
  then have f: "set_fields (unsl D) cfg' (desired_fields inst) = GoOk cfg'"
    by (rule stable_fields.set_fields_same [OF st])
  have l': "labels_at cfg' (Some (updated_labels (osl_UID inst) labels))"
    by (rule PatchOLSConfig_labels [OF om p l])
  then have "SetNestedField (unsl D) cfg'
      (JObject (\<lambda>k. map_option JString (updated_labels (osl_UID inst) (GetLabels (unsl D) cfg') k)))
      label_path = GoOk cfg'"
    using object_metadata.labels_at_GetLabels [OF om l']
    by (intro stable_fields.set_same [OF st]) (simp_all add: labels_at_def label_path_def)
  moreover have "uns_AddFinalizer (unsl D) cfg' (GetFinalizer D helper) = (False, cfg')"
    by (rule stable_fields.add_same [OF st PatchOLSConfig_finalizer [OF om p assms(4)]])
  ultimately have "claim_ownership D helper inst cfg' = GoOk cfg'"
    using assms(5) by (simp add: claim_ownership_def)
  with f show ?thesis
    by (simp add: PatchOLSConfig_eq [OF object_metadata.axioms(1) [OF om]])
qed

text \<open>
  C22: the reconciliation of the \<^verbatim>\<open>OLSConfig\<close> is idempotent: once the mutate function has succeeded
  for an instance, with the ownership check passed, applying it again to its result succeeds
  and changes nothing.
\<close>

theorem olsConfig_mutate_idempotent:
  assumes "stable_fields (unsl D)" and "olsConfig_mutate D helper inst cfg = GoOk cfg'"
    and "labels_at cfg labels" and "settable cfg finalizer_path" and "osl_Conditions inst \<noteq> None"
  shows "olsConfig_mutate D helper inst cfg' = GoOk cfg'"
proof -
  note om = stable_fields.axioms(1) [OF assms(1)]
  have guard: "label_of labels OpenStackLightspeedOwnerIDLabel \<in> {[], osl_UID inst}"
    and p: "PatchOLSConfig D helper inst cfg = GoOk cfg'"
    using assms(2) object_metadata.labels_at_GetLabels [OF om assms(3)]
    by (auto simp: olsConfig_mutate_def Let_def split: if_splits)
  have "GetLabels (unsl D) cfg' = Some (updated_labels (osl_UID inst) labels)"
    by (rule object_metadata.labels_at_GetLabels [OF om PatchOLSConfig_labels [OF om p assms(3)]])
  moreover have "label_of (Some (updated_labels (osl_UID inst) labels))
      OpenStackLightspeedOwnerIDLabel \<in> {[], osl_UID inst}"
    using guard by (auto simp: label_of_def updated_labels_def map_add_def split: option.splits)
  ultimately show ?thesis
    using PatchOLSConfig_stable [OF assms(1) p assms(3,4,5)]
    by (auto simp: olsConfig_mutate_def Let_def)
qed

theorem olsConfig_mutate_idempotent_witness:
  "\<exists>cfg'. olsConfig_mutate (ref_deps sample_env) sample_instance sample_instance Map.empty = GoOk cfg' \<and>
     olsConfig_mutate (ref_deps sample_env) sample_instance sample_instance cfg' = GoOk cfg'"
proof -
  obtain cfg' where "PatchOLSConfig (ref_deps sample_env) sample_instance sample_instance Map.empty = GoOk cfg'"
    using sample_patch_ok by blast
  then have m: "olsConfig_mutate (ref_deps sample_env) sample_instance sample_instance Map.empty = GoOk cfg'"
    by (simp add: olsConfig_mutate_def label_of_def ref_labels_def label_path_def)
  from olsConfig_mutate_idempotent [OF _ m, of None] m show ?thesis
    by (auto simp: ref_stable.stable_fields_axioms labels_at_def label_path_def finalizer_path_def
        sample_instance_def)
qed

section \<open>The subscription\<close>

lemma subscription_mutate_idempotent:
  "subscription_mutate D inst sub = GoOk sub' \<Longrightarrow> subscription_mutate D inst sub' = GoOk sub'"
  by (auto simp: subscription_mutate_def SetStartingCSV_def resThen_eq_GoOk Let_def
      split: if_splits option.splits)

end
