(* ===== verification/Progress.thy ===== *)
theory Progress
  imports Reconciler
begin

text \<open>
  What brings the controller back: the requeue requests of \<^verbatim>\<open>Reconcile\<close>, and the end of a
  deletion. A run that asks for no retry has either reached a final state or made a change
  that starts the next run; the one exception is an error of the installation.
\<close>

section \<open>The results of the parts\<close>

definition requeue_delete :: ReconcileResult where
  "requeue_delete = empty_Result\<lparr>RequeueAfter := Second * 10\<rparr>"

definition requeue_config :: ReconcileResult where
  "requeue_config = empty_Result\<lparr>RequeueAfter := Second * 5\<rparr>"

definition requeue_install :: ReconcileResult where
  "requeue_install = \<lparr>Requeue = True, RequeueAfter = 10 * Second\<rparr>"

lemma delete_result:
  assumes "reconcileDelete D helper inst s = (GoOk ((res, None), inst'), t)"
  shows "(res = requeue_delete \<and> inst' = inst) \<or>
     (res = empty_Result \<and> inst' = snd (RemoveFinalizer D inst (GetFinalizer D helper)))"
  using assms unfolding reconcileDelete_def
  by (fastforce simp: onErr_eq_GoOk requeue_delete_def split: if_splits)

lemma olsConfig_result:
  assumes "reconcile_olsConfig D helper inst s = (GoOk ((res, None), inst'), t)"
  shows "res = requeue_config \<or>
     (res = empty_Result \<and> osl_Conditions inst' = MarkTrue (condl D) (osl_Conditions inst)
        OpenStackLightspeedReadyCondition OpenStackLightspeedReadyMessage)"
  using assms unfolding reconcile_olsConfig_def Let_def
  by (fastforce simp: onErr_eq_GoOk requeue_config_def split: if_splits)

lemma install_result:
  assumes "reconcile_install D helper inst s = (GoOk ((res, None), inst'), t)"
  shows "res = requeue_install \<or> res = requeue_config \<or>
     (res = empty_Result \<and> (\<exists>cs. osl_Conditions inst' = MarkTrue (condl D) cs
        OpenStackLightspeedReadyCondition OpenStackLightspeedReadyMessage)) \<or>
     (res = empty_Result \<and> (\<exists>e. EnsureOLSOperatorInstalled D inst s = (GoErr e, t)))"
  using assms unfolding reconcile_install_def Let_def
  by (fastforce simp: onErr_eq_GoOk requeue_install_def split: if_splits dest: olsConfig_result)

section \<open>Properties\<close>

text \<open>
  C18: no silent stall. A run with an instance that reports success asks to be run again after
  five or ten seconds, or it has added the finalizer (and its patch starts the next run), or it
  has released the instance for deletion, or it leaves the instance ready, or the installation
  of the operator has failed as its last step before the patch.
\<close>

theorem no_silent_stall:
  assumes "conditions_contract (condl D)" and "finalizers_contract D"
    and "get_instance (cli D) req (world s) = (Inr inst, w)" and "NewHelper D inst = Inr helper"
    and "Reconcile D dflt req s = (GoOk res, t)"
  shows "\<exists>inst' s'. calls t = calls s' @ [PatchInstance inst'] \<and>
     (res \<in> {requeue_delete, requeue_config, requeue_install} \<or>
      res = empty_Result \<and>
        (GetFinalizer D helper \<notin> set (meta_Finalizers (osl_Meta inst)) \<and>
           GetFinalizer D helper \<in> set (meta_Finalizers (osl_Meta inst')) \<or>
         \<not> Time_IsZero D (meta_DeletionTimestamp (osl_Meta inst)) \<and>
           GetFinalizer D helper \<notin> set (meta_Finalizers (osl_Meta inst')) \<or>
         IsReady (IsTrue (condl D)) inst' \<or>
         (\<exists>inst1 s1 e. EnsureOLSOperatorInstalled D inst1 s1 = (GoErr e, s'))))"
  using assms(3-5)
proof (cases rule: Reconcile_cases)
  case (panicked p)
  then show ?thesis by simp
next
  case (finished p inst0 s')
  let ?f = "GetFinalizer D helper"
  have p: "p = (res, None)"
    using finished(1) by (cases p) (auto simp: result_of_def split: option.splits)
  have ready: "IsReady (IsTrue (condl D)) (patched D inst inst0)"
    if "osl_Conditions inst0 = MarkTrue (condl D) cs OpenStackLightspeedReadyCondition m" for cs m
    using that conditions_contract.ready_is_top(1) [OF assms(1)]
    by (simp add: IsReady_def patched_def conditions_contract.is_true_overall [OF assms(1)]
        conditions_contract.is_true_mark_true [OF assms(1)])
  from finished(2) show ?thesis
  proof (rule body_cases, goal_cases)
    case (1 v inst1 s1)
    note m = ocp_outcome_frame(1) [OF 1(2), simplified]
    have added: "?f \<notin> set (meta_Finalizers (osl_Meta inst))" if "fst (AddFinalizer D inst1 ?f)"
      using that m by (simp add: finalizers_contract.add_result [OF assms(2)])
    from 1(3) show ?case
    proof (elim disjE conjE)
      assume "\<not> Time_IsZero D (meta_DeletionTimestamp (osl_Meta inst))"
        "reconcileDelete D helper inst1 s1 = (GoOk (p, inst0), s')"
      with finished(3) show ?thesis
        using delete_result [of D helper inst1 s1 res inst0 s'] p
        by (auto simp: remove_finalizer_frame [OF assms(2)] intro!: exI [of _ s'])
    next
      assume "fst (AddFinalizer D inst1 ?f)" "p = (empty_Result, None)"
        "inst0 = snd (AddFinalizer D inst1 ?f)"
      with finished(3) added show ?thesis
        using p by (auto simp: add_finalizer_frame [OF assms(2)] intro!: exI [of _ s'])
    next
      assume "reconcile_install D helper (apply_defaults dflt (snd (AddFinalizer D inst1 ?f))) s1 =
          (GoOk (p, inst0), s')"
      from install_result [OF this [unfolded p]] finished(3) ready show ?thesis
        by (auto intro!: exI [of _ s'])
    qed
  qed
qed

theorem no_silent_stall_witness:
  "\<exists>t inst' cs. Reconcile (ref_deps sample_env) sample_defaults sample_request
       \<lparr>world = sample_cluster sample_instance, calls = []\<rparr> = (GoOk empty_Result, t) \<and>
     calls t = cs @ [PatchInstance inst']"
proof -
  obtain t where t: "Reconcile (ref_deps sample_env) sample_defaults sample_request
     \<lparr>world = sample_cluster sample_instance, calls = []\<rparr> = (GoOk empty_Result, t)"
    using sample_first_run by blast
  from no_silent_stall [where D = "ref_deps sample_env" and helper = sample_instance, OF _ _ _ _ t] t
  show ?thesis by (auto simp: sample_cluster_get)
qed

text \<open>
  C19: a deletion completes. For an instance that is being deleted, once the \<^verbatim>\<open>OLSConfig\<close> is
  reported removed and then the operator uninstalled, the run succeeds without a retry and its
  last call patches the instance without the finalizer.
\<close>

theorem deletion_completes:
  assumes "finalizers_contract D"
    and "get_instance (cli D) req (world s) = (Inr inst, w)" and "NewHelper D inst = Inr helper"
    and "\<not> Time_IsZero D (meta_DeletionTimestamp (osl_Meta inst))"
    and "resolveOCPVersion D (initialise_status D inst) (after_get req w s) = (GoOk (v, inst1), s1)"
    and "RemoveOLSConfig D helper inst1 s1 = (GoOk True, s2)"
    and "UninstallInstanceOwnedOLSOperator D inst1 s2 = (GoOk True, s3)"
  shows "\<exists>inst' t. Reconcile D dflt req s = (GoOk empty_Result, t) \<and>
     calls t = calls s3 @ [PatchInstance inst'] \<and>
     meta_Finalizers (osl_Meta inst') =
       filter (\<lambda>f. f \<noteq> GetFinalizer D helper) (meta_Finalizers (osl_Meta inst))"
proof -
  let ?inst' = "snd (RemoveFinalizer D inst1 (GetFinalizer D helper))"
  have o: "ocp_outcome D (initialise_status D inst) v inst1"
    using returns_resolveOCPVersion assms(5) by (fastforce simp: returns_def)
  have "reconcileDelete D helper inst1 s1 = (GoOk ((empty_Result, None), ?inst'), s3)"
    using assms(6,7) by (simp add: reconcileDelete_def onErr_run)
  then have "reconcile_body D dflt helper inst (after_get req w s) =
      (GoOk ((empty_Result, None), ?inst'), s3)"
    using assms(4,5) o by (simp add: reconcile_body_def ocp_outcome_frame)
  from Reconcile_run [OF assms(2,3) this] show ?thesis
    using o by (simp add: result_of_def remove_finalizer_frame [OF assms(1)] ocp_outcome_frame)
qed

theorem deletion_completes_witness:
  "\<exists>inst' t. Reconcile (ref_deps sample_env) sample_defaults sample_request
       \<lparr>world = sample_cluster deleting_instance, calls = []\<rparr> = (GoOk empty_Result, t) \<and>
     last (calls t) = PatchInstance inst' \<and> meta_Finalizers (osl_Meta inst') = []"
proof -
  let ?D = "ref_deps sample_env"
  let ?s = "\<lparr>world = sample_cluster deleting_instance, calls = []\<rparr>"
  obtain v inst1 where "resolveOCPVersion ?D (initialise_status ?D deleting_instance)
      (after_get sample_request (sample_cluster deleting_instance) ?s) =
      (GoOk (v, inst1), \<lparr>world = sample_cluster deleting_instance, calls = [GetInstance sample_request]\<rparr>)"
    by (auto simp: resolveOCPVersion_def Let_def sample_deletion_get after_get_def)
  from deletion_completes [OF _ _ _ _ this sample_deletion_steps, of sample_defaults]
  show ?thesis by (fastforce simp: sample_deletion_get)
qed

end
