(* ===== verification/Access_Control.thy ===== *)
theory Access_Control
  imports Manager
begin

text \<open>
  The permissions of the controller: the \<^verbatim>\<open>kubebuilder:rbac\<close> markers above \<^verbatim>\<open>Reconcile\<close>, from which
  the roles are generated, against the requests that the controller's calls and watches make.
\<close>

section \<open>Rules and requests\<close>

record rbac_rule =
  rule_Group :: string
  rule_Resource :: string
  rule_Namespace :: "string option"
  rule_Verbs :: "string list"

definition rbac_rules :: "rbac_rule list" where
  "rbac_rules =
    [\<lparr>rule_Group = ''lightspeed.openstack.org'', rule_Resource = ''openstacklightspeeds'', rule_Namespace = None,
      rule_Verbs = [''get'', ''list'', ''watch'', ''create'', ''update'', ''patch'', ''delete'']\<rparr>,
     \<lparr>rule_Group = ''lightspeed.openstack.org'', rule_Resource = ''openstacklightspeeds/status'', rule_Namespace = None,
      rule_Verbs = [''get'', ''update'', ''patch'']\<rparr>,
     \<lparr>rule_Group = ''lightspeed.openstack.org'', rule_Resource = ''openstacklightspeeds/finalizers'', rule_Namespace = None,
      rule_Verbs = [''update'']\<rparr>,
     \<lparr>rule_Group = ''ols.openshift.io'', rule_Resource = ''olsconfigs'', rule_Namespace = None,
      rule_Verbs = [''get'', ''list'', ''watch'', ''create'', ''update'', ''patch'', ''delete'']\<rparr>,
     \<lparr>rule_Group = ''ols.openshift.io'', rule_Resource = ''olsconfigs/status'', rule_Namespace = None,
      rule_Verbs = [''get'', ''update'', ''patch'']\<rparr>,
     \<lparr>rule_Group = ''ols.openshift.io'', rule_Resource = ''olsconfigs/finalizers'', rule_Namespace = None,
      rule_Verbs = [''update'']\<rparr>,
     \<lparr>rule_Group = ''operators.coreos.com'', rule_Resource = ''clusterserviceversions'', rule_Namespace = None,
      rule_Verbs = [''get'', ''list'', ''watch'']\<rparr>,
     \<lparr>rule_Group = ''operators.coreos.com'', rule_Resource = ''clusterserviceversions'',
      rule_Namespace = Some ''openshift-lightspeed'', rule_Verbs = [''update'', ''patch'', ''delete'']\<rparr>,
     \<lparr>rule_Group = ''operators.coreos.com'', rule_Resource = ''subscriptions'',
      rule_Namespace = Some ''openshift-lightspeed'',
      rule_Verbs = [''get'', ''list'', ''watch'', ''create'', ''update'', ''patch'', ''delete'']\<rparr>,
     \<lparr>rule_Group = ''operators.coreos.com'', rule_Resource = ''installplans'',
      rule_Namespace = Some ''openshift-lightspeed'',
      rule_Verbs = [''get'', ''list'', ''watch'', ''update'', ''delete'']\<rparr>,
     \<lparr>rule_Group = ''config.openshift.io'', rule_Resource = ''clusterversions'', rule_Namespace = None,
      rule_Verbs = [''get'', ''list'', ''watch'']\<rparr>]"

text \<open>
  A request for a resource: group, resource, verb, and the namespace, \<open>None\<close> for all namespaces
  or for a resource of the cluster. A rule without a namespace becomes part of a cluster role, one with a
  namespace part of a role in it.
\<close>

type_synonym api_request = "string \<times> string \<times> string \<times> string option"

fun grants :: "rbac_rule \<Rightarrow> api_request \<Rightarrow> bool" where
  "grants r (g, resource, verb, ns) \<longleftrightarrow>
     rule_Group r = g \<and> rule_Resource r = resource \<and> verb \<in> set (rule_Verbs r) \<and>
     (rule_Namespace r = None \<or> rule_Namespace r = ns)"

definition in_namespace :: "string \<Rightarrow> string option" where
  "in_namespace ns = (if ns = [] then None else Some ns)"

text \<open>
  The requests behind a call. \<^verbatim>\<open>CreateOrUpdate\<close> and \<^verbatim>\<open>CreateOrPatch\<close> read the object and then create
  or change it, the latter also its status. An owner reference that blocks deletion, which
  the subscription and the cluster service version are given, needs the right to update the
  finalizers of the owner.
\<close>

fun requests_of :: "api_call \<Rightarrow> api_request list" where
  "requests_of (GetInstance k) =
     [(''lightspeed.openstack.org'', ''openstacklightspeeds'', ''get'', in_namespace (nn_Namespace k))]"
| "requests_of (ListInstances ns) =
     [(''lightspeed.openstack.org'', ''openstacklightspeeds'', ''list'', ns)]"
| "requests_of GetConfig = []"
| "requests_of NewClient = []"
| "requests_of (GetClusterVersion n) = [(''config.openshift.io'', ''clusterversions'', ''get'', None)]"
| "requests_of (ListCSVs ns) =
     [(''operators.coreos.com'', ''clusterserviceversions'', ''list'', in_namespace ns)]"
| "requests_of (UpdateCSV c) =
     [(''operators.coreos.com'', ''clusterserviceversions'', ''update'', in_namespace (meta_Namespace (csv_Meta c))),
      (''lightspeed.openstack.org'', ''openstacklightspeeds/finalizers'', ''update'', None)]"
| "requests_of (DeleteCSV c) =
     [(''operators.coreos.com'', ''clusterserviceversions'', ''delete'', in_namespace (meta_Namespace (csv_Meta c)))]"
| "requests_of (GetSubscription k) =
     [(''operators.coreos.com'', ''subscriptions'', ''get'', in_namespace (nn_Namespace k))]"
| "requests_of (CreateOrUpdateSubscription s) =
     map (\<lambda>verb. (''operators.coreos.com'', ''subscriptions'', verb, in_namespace (meta_Namespace (sub_Meta s))))
       [''get'', ''create'', ''update''] @
     [(''lightspeed.openstack.org'', ''openstacklightspeeds/finalizers'', ''update'', None)]"
| "requests_of (ListInstallPlans ns) = [(''operators.coreos.com'', ''installplans'', ''list'', in_namespace ns)]"
| "requests_of (UpdateInstallPlan p) =
     [(''operators.coreos.com'', ''installplans'', ''update'', in_namespace (meta_Namespace (ip_Meta p)))]"
| "requests_of (DeleteInstallPlan p) =
     [(''operators.coreos.com'', ''installplans'', ''delete'', in_namespace (meta_Namespace (ip_Meta p)))]"
| "requests_of ListOLSConfigs = [(''ols.openshift.io'', ''olsconfigs'', ''list'', None)]"
| "requests_of (CreateOrPatchOLSConfig obj) =
     map (\<lambda>verb. (''ols.openshift.io'', ''olsconfigs'', verb, None)) [''get'', ''create'', ''patch''] @
     [(''ols.openshift.io'', ''olsconfigs/status'', ''patch'', None)]"
| "requests_of (UpdateOLSConfig obj) = [(''ols.openshift.io'', ''olsconfigs'', ''update'', None)]"
| "requests_of (DeleteOLSConfig obj) = [(''ols.openshift.io'', ''olsconfigs'', ''delete'', None)]"
| "requests_of (RandInt n) = []"
| "requests_of (PatchInstance i) =
     [(''lightspeed.openstack.org'', ''openstacklightspeeds'', ''patch'', in_namespace (osl_Namespace i)),
      (''lightspeed.openstack.org'', ''openstacklightspeeds/status'', ''patch'', in_namespace (osl_Namespace i))]"

definition permitted :: "api_call \<Rightarrow> bool" where
  "permitted c \<longleftrightarrow> list_all (\<lambda>q. list_ex (\<lambda>r. grants r q) rbac_rules) (requests_of c)"

text \<open>
  What is to be expected of a call of a run for an instance in the namespace \<open>ns\<close>: permission for
  subscriptions and install plans depends on \<open>ns\<close>, for a change of a cluster service version on the
  namespace that one is in, and everything else is permitted.
\<close>

fun permission_as_expected :: "string \<Rightarrow> api_call \<Rightarrow> bool" where
  "permission_as_expected ns (GetSubscription k) = (permitted (GetSubscription k) \<longleftrightarrow> ns = ''openshift-lightspeed'')"
| "permission_as_expected ns (CreateOrUpdateSubscription s) =
     (permitted (CreateOrUpdateSubscription s) \<longleftrightarrow> ns = ''openshift-lightspeed'')"
| "permission_as_expected ns (ListInstallPlans n) =
     (permitted (ListInstallPlans n) \<longleftrightarrow> ns = ''openshift-lightspeed'')"
| "permission_as_expected ns (UpdateInstallPlan p) =
     (permitted (UpdateInstallPlan p) \<longleftrightarrow> ns = ''openshift-lightspeed'')"
| "permission_as_expected ns (DeleteInstallPlan p) =
     (permitted (DeleteInstallPlan p) \<longleftrightarrow> ns = ''openshift-lightspeed'')"
| "permission_as_expected ns (UpdateCSV c) =
     (permitted (UpdateCSV c) \<longleftrightarrow> meta_Namespace (csv_Meta c) = ''openshift-lightspeed'')"
| "permission_as_expected ns (DeleteCSV c) =
     (permitted (DeleteCSV c) \<longleftrightarrow> meta_Namespace (csv_Meta c) = ''openshift-lightspeed'')"
| "permission_as_expected ns c = permitted c"

lemma in_namespace_Some [simp]: "in_namespace ns = Some n \<longleftrightarrow> ns = n \<and> n \<noteq> []"
  by (auto simp: in_namespace_def)

lemma in_namespace_Some' [simp]: "Some n = in_namespace ns \<longleftrightarrow> ns = n \<and> n \<noteq> []"
  by (auto simp: in_namespace_def)

lemma expected_simps [simp]:
  "permission_as_expected ns (GetInstance k)" "permission_as_expected ns GetConfig"
  "permission_as_expected ns NewClient" "permission_as_expected ns (GetClusterVersion n)"
  "permission_as_expected ns (ListCSVs [])" "permission_as_expected ns (UpdateCSV c)"
  "permission_as_expected ns (DeleteCSV c)" "permission_as_expected ns ListOLSConfigs"
  "permission_as_expected ns (CreateOrPatchOLSConfig obj)" "permission_as_expected ns (UpdateOLSConfig obj)"
  "permission_as_expected ns (DeleteOLSConfig obj)" "permission_as_expected ns (RandInt m)"
  "permission_as_expected ns (PatchInstance i)" "permission_as_expected ns (ListInstances nso)"
  by (simp_all add: permitted_def rbac_rules_def)

lemma expected_in_namespace:
  "nn_Namespace k = ns \<Longrightarrow> permission_as_expected ns (GetSubscription k)"
  "meta_Namespace (sub_Meta s) = ns \<Longrightarrow> permission_as_expected ns (CreateOrUpdateSubscription s)"
  "permission_as_expected ns (ListInstallPlans ns)"
  "meta_Namespace (ip_Meta p) = ns \<Longrightarrow> permission_as_expected ns (UpdateInstallPlan p)"
  "meta_Namespace (ip_Meta p) = ns \<Longrightarrow> permission_as_expected ns (DeleteInstallPlan p)"
  by (auto simp: permitted_def rbac_rules_def)

declare permission_as_expected.simps [simp del]

text \<open>The rules about combinators alone, for operations whose parts have closer rules.\<close>

lemmas emits_combinators = emits_pure emits_perform emits_onErr emits_andThen emits_if
  emits_case_option emits_case_prod

section \<open>The requests of a run\<close>

text \<open>Listing install plans in a namespace gives plans of that namespace.\<close>

locale scoped_plans =
  fixes D :: "'w deps"
  assumes plans_scoped: "list_install_plans (cli D) ns w = (Inr items, w') \<Longrightarrow> plan \<in> set items \<Longrightarrow>
    meta_Namespace (ip_Meta plan) = ns"
begin

lemma returns_plan_scoped:
  "returns (\<lambda>r. \<forall>plan. r = Some plan \<longrightarrow> meta_Namespace (ip_Meta plan) = osl_Namespace inst)
     (GetOLSOperatorInstallPlan D inst)"
  unfolding returns_def GetOLSOperatorInstallPlan_GoOk
  by (auto dest!: plan_search.search_SomeD plan_search.search_SomeD [OF sym] intro: plans_scoped)

lemma expected_install:
  "emits (permission_as_expected (osl_Namespace inst)) (InstallInstanceOwnedOLSOperator D inst)"
proof -
  let ?A = "permission_as_expected (osl_Namespace inst)"
  have adopt: "emits ?A (adopt D inst)"
    unfolding adopt_def adopt_csv_def by (intro emits_intros) simp_all
  have "emits ?A (approve_and_adopt D inst)"
    unfolding approve_and_adopt_def
    by (rule emits_andThen_returns [OF _ returns_plan_scoped])
      (auto intro!: emits_intros adopt expected_in_namespace split: option.split)
  then show ?thesis
    unfolding install_parts
    by (auto intro!: emits_intros expected_in_namespace simp: new_subscription_def)
qed

lemma expected_ensure:
  "emits (permission_as_expected (osl_Namespace inst)) (EnsureOLSOperatorInstalled D inst)"
  unfolding EnsureOLSOperatorInstalled_def IsUserInstalledOLSOperatorMode_def Let_def
  by (intro emits_combinators expected_install expected_in_namespace emits_GetOLSOperatorCSV) simp_all

lemma expected_uninstall:
  "emits (permission_as_expected (osl_Namespace inst)) (UninstallInstanceOwnedOLSOperator D inst)"
proof -
  have "emits (permission_as_expected (osl_Namespace inst)) (DeleteOLSOperatorInstallPlan D inst)"
    unfolding DeleteOLSOperatorInstallPlan_def
    by (rule emits_andThen_returns [OF _ returns_plan_scoped])
      (auto intro!: emits_intros expected_in_namespace split: option.split)
  then show ?thesis
    unfolding UninstallInstanceOwnedOLSOperator_def
    by (intro emits_combinators expected_in_namespace emits_GetOLSOperatorCSV
        emits_GetOLSOperatorInstallPlan) simp_all
qed

lemma expected_body:
  assumes "finalizers_contract D"
  shows "emits (permission_as_expected (osl_Namespace inst)) (reconcile_body D dflt helper inst)"
  unfolding reconcile_body_def
proof (rule emits_andThen_returns [OF _ returns_resolveOCPVersion])
  let ?A = "permission_as_expected (osl_Namespace inst)"
  show "emits ?A (resolveOCPVersion D (initialise_status D inst))"
    by (intro emits_intros) simp_all
  fix x :: "string \<times> OpenStackLightspeed"
  assume "case x of (v, inst') \<Rightarrow> ocp_outcome D (initialise_status D inst) v inst'"
  then have x: "osl_Namespace (snd x) = osl_Namespace inst"
    by (auto simp: ocp_outcome_frame split: prod.splits)
  have delete: "emits ?A (reconcileDelete D helper (snd x))"
    unfolding reconcileDelete_def using expected_uninstall [of "snd x"] x
    by (intro emits_combinators emits_RemoveOLSConfig) simp_all
  have "emits ?A (reconcile_install D helper i)" if "osl_Namespace i = osl_Namespace inst" for i
    unfolding reconcile_install_def Let_def using expected_ensure [of i] that
    by (intro emits_combinators emits_reconcile_olsConfig) simp_all
  then show "emits ?A (case x of (_, inst) \<Rightarrow>
     if \<not> Time_IsZero D (meta_DeletionTimestamp (osl_Meta inst)) then reconcileDelete D helper inst
     else (let (added, inst) = AddFinalizer D inst (GetFinalizer D helper) in
        if added then ret ((empty_Result, None), inst)
        else reconcile_install D helper (apply_defaults dflt inst)))"
    using delete x add_finalizer_frame(3) [OF assms]
    by (auto intro!: emits_pure split: prod.split)
      (metis add_finalizer_frame(3) [OF assms] apply_defaults_frame(1) snd_conv)
qed

end

text \<open>
  C20: in every run, each call is covered by the roles, apart from two groups. Calls on
  subscriptions and install plans are permitted exactly when the instance is in the namespace
  \<^verbatim>\<open>openshift-lightspeed\<close>, and changes of a cluster service version exactly when that object is.
\<close>

theorem permissions_of_a_run:
  assumes "finalizers_contract D" and "scoped_plans D"
    and "get_instance (cli D) req (world s) = (Inr inst, w)"
  shows "\<exists>new. calls (snd (Reconcile D dflt req s)) = calls s @ new \<and>
     list_all (permission_as_expected (osl_Namespace inst)) new"
proof (cases "NewHelper D inst")
  case (Inl e)
  with assms(3) show ?thesis by (simp add: Reconcile_def onErr_run perform_def)
next
  case (Inr helper)
  let ?A = "permission_as_expected (osl_Namespace inst)"
  obtain r t where run: "Reconcile D dflt req s = (r, t)" by (cases "Reconcile D dflt req s")
  obtain new where new: "calls (snd (reconcile_body D dflt helper inst (after_get req w s))) =
      calls s @ GetInstance req # new" "list_all ?A new"
    by (rule emitsE [OF scoped_plans.expected_body [OF assms(2,1), of inst dflt helper],
          of "after_get req w s"]) auto
  from assms(3) Inr run show ?thesis
    by (cases rule: Reconcile_cases) (use new run in auto)
qed

interpretation ref_plans: scoped_plans "ref_deps env" for env
  by unfold_locales (auto simp: ref_deps_def ref_client_def)

theorem permissions_of_a_run_witness:
  "\<exists>new. calls (snd (Reconcile (ref_deps sample_env) sample_defaults sample_request
       \<lparr>world = running_cluster, calls = []\<rparr>)) = new \<and>
     list_all (permission_as_expected ''openshift-lightspeed'') new"
  using permissions_of_a_run [of "ref_deps sample_env" sample_request "\<lparr>world = running_cluster, calls = []\<rparr>"
      managed_instance running_cluster sample_defaults] ref_plans.scoped_plans_axioms
  by (simp add: sample_get)

text \<open>For an instance in another namespace the subscription cannot be created.\<close>

lemma subscription_denied_elsewhere:
  "osl_Namespace inst \<noteq> ''openshift-lightspeed'' \<Longrightarrow>
   \<not> permitted (CreateOrUpdateSubscription (new_subscription inst name))"
  using expected_in_namespace(2) [of "new_subscription inst name" "osl_Namespace inst"]
  by (simp add: new_subscription_def permission_as_expected.simps)

section \<open>The requests of the watches\<close>

text \<open>
  Behind each watch is an informer of the cache, which lists and watches the resource: a
  resource of the cluster as a whole, any other one in each namespace that the cache is
  restricted to. The empty name stands for all namespaces.
\<close>

fun watched_kind :: "watch \<Rightarrow> GroupVersionKind" where
  "watched_kind (For g) = g"
| "watched_kind (Owns g) = g"
| "watched_kind (WatchesNotifyAll g) = g"

definition resource_of_kind :: "string \<Rightarrow> string option" where
  "resource_of_kind = map_of
     [(''OpenStackLightspeed'', ''openstacklightspeeds''), (''ClusterServiceVersion'', ''clusterserviceversions''),
      (''Subscription'', ''subscriptions''), (''InstallPlan'', ''installplans''),
      (''ClusterVersion'', ''clusterversions'')]"

definition informer_requests :: "string list \<Rightarrow> watch \<Rightarrow> api_request list" where
  "informer_requests namespaces wt =
     (let g = watched_kind wt;
          scopes = (if gvk_Kind g = ''ClusterVersion'' then [None] else map in_namespace namespaces) in
      case resource_of_kind (gvk_Kind g) of
        None \<Rightarrow> []
      | Some resource \<Rightarrow> concat (map (\<lambda>scope. map (\<lambda>verb. (gvk_Group g, resource, verb, scope)) [''list'', ''watch'']) scopes))"

definition informer_permitted :: "string list \<Rightarrow> watch \<Rightarrow> bool" where
  "informer_permitted namespaces wt \<longleftrightarrow>
     list_all (\<lambda>q. list_ex (\<lambda>r. grants r q) rbac_rules) (informer_requests namespaces wt)"

lemma list_all_concat: "list_all P (concat xss) \<longleftrightarrow> list_all (list_all P) xss"
  by (induction xss) simp_all

lemma informer_scopes:
  "informer_permitted namespaces wt \<longleftrightarrow>
     (case resource_of_kind (gvk_Kind (watched_kind wt)) of None \<Rightarrow> True
      | Some resource \<Rightarrow> list_all (\<lambda>scope. list_all (\<lambda>verb.
          list_ex (\<lambda>r. grants r (gvk_Group (watched_kind wt), resource, verb, scope)) rbac_rules) [''list'', ''watch''])
          (if gvk_Kind (watched_kind wt) = ''ClusterVersion'' then [None] else map in_namespace namespaces))"
  by (simp add: informer_permitted_def informer_requests_def Let_def list_all_concat list.pred_map comp_def
      del: grants.simps split: option.split)

lemma informers_permitted:
  "informer_permitted namespaces (For \<lparr>gvk_Group = ''lightspeed.openstack.org'', gvk_Version = v, gvk_Kind = ''OpenStackLightspeed''\<rparr>)"
  "informer_permitted namespaces (Owns (operators_kind ''ClusterServiceVersion''))"
  "informer_permitted namespaces (WatchesNotifyAll \<lparr>gvk_Group = ''config.openshift.io'', gvk_Version = v, gvk_Kind = ''ClusterVersion''\<rparr>)"
  by (simp_all add: informer_scopes resource_of_kind_def operators_kind_def rbac_rules_def list_all_iff)

lemma informers_restricted:
  "informer_permitted namespaces (Owns (operators_kind ''Subscription'')) \<longleftrightarrow>
     list_all (\<lambda>n. n = ''openshift-lightspeed'') namespaces"
  "informer_permitted namespaces (WatchesNotifyAll (operators_kind ''InstallPlan'')) \<longleftrightarrow>
     list_all (\<lambda>n. n = ''openshift-lightspeed'') namespaces"
proof -
  have "list_ex (\<lambda>r. grants r (''operators.coreos.com'', resource, verb, in_namespace n)) rbac_rules \<longleftrightarrow>
      n = ''openshift-lightspeed''"
    if "resource \<in> {''subscriptions'', ''installplans''}" "verb \<in> {''list'', ''watch''}" for resource verb n
    using that by (auto simp: rbac_rules_def)
  then show "informer_permitted namespaces (Owns (operators_kind ''Subscription'')) \<longleftrightarrow>
      list_all (\<lambda>n. n = ''openshift-lightspeed'') namespaces"
    "informer_permitted namespaces (WatchesNotifyAll (operators_kind ''InstallPlan'')) \<longleftrightarrow>
      list_all (\<lambda>n. n = ''openshift-lightspeed'') namespaces"
    by (simp_all add: informer_scopes resource_of_kind_def operators_kind_def list.pred_map comp_def)
qed

lemma watches_known: "list_all (\<lambda>wt. resource_of_kind (gvk_Kind (watched_kind wt)) \<noteq> None) (SetupWithManager id)"
  by (simp add: SetupWithManager_def Let_def resource_of_kind_def operators_kind_def)

text \<open>
  C21: which namespaces the operator can be started for. Every watch of the controller is of a
  known resource, and all of them are permitted exactly when the variable \<^verbatim>\<open>WATCH_NAMESPACE\<close> names the
  namespace \<^verbatim>\<open>openshift-lightspeed\<close> and no other; in particular not for an empty value, which means all
  namespaces.
\<close>

theorem watches_permitted:
  assumes "getWatchNamespaces env = GoOk namespaces"
  shows "list_all (\<lambda>wt. resource_of_kind (gvk_Kind (watched_kind wt)) \<noteq> None) (SetupWithManager id) \<and>
     (list_all (informer_permitted namespaces) (SetupWithManager id) \<longleftrightarrow>
        dom (DefaultNamespaces (manager_options scheme fl namespaces)) = {''openshift-lightspeed''})"
proof -
  have "list_all (informer_permitted namespaces) (SetupWithManager id) \<longleftrightarrow>
      list_all (\<lambda>n. n = ''openshift-lightspeed'') namespaces"
    by (simp add: SetupWithManager_def Let_def informers_permitted informers_restricted GroupVersion_def)
  moreover have "namespaces \<noteq> []" using assms by (simp add: getWatchNamespaces_GoOk)
  ultimately have "list_all (informer_permitted namespaces) (SetupWithManager id) \<longleftrightarrow>
      set namespaces = {''openshift-lightspeed''}"
    by (cases namespaces) (auto simp: list_all_iff)
  with watches_known show ?thesis by (simp add: manager_options_def default_namespaces_dom)
qed

theorem watches_permitted_witness:
  "list_all (informer_permitted [''openshift-lightspeed'']) (SetupWithManager id) \<and>
   \<not> list_all (informer_permitted [[]]) (SetupWithManager id)"
proof -
  have p: "dom (DefaultNamespaces (manager_options [] default_flags ns)) = set ns" for ns
    by (simp add: manager_options_def default_namespaces_dom)
  have "getWatchNamespaces [watchNamespaceEnvVar \<mapsto> ''openshift-lightspeed''] = GoOk [''openshift-lightspeed'']"
    "getWatchNamespaces [watchNamespaceEnvVar \<mapsto> []] = GoOk [[]]"
    by (simp_all add: getWatchNamespaces_def)
  from watches_permitted [OF this(1), of "[]" default_flags] watches_permitted [OF this(2), of "[]" default_flags]
  show ?thesis by (simp add: p)
qed

end
