(* ===== verification/Memory.thy ===== *)
theory Memory
  imports API_Types
begin

text \<open>
  The memory of the process, for the code that deals in pointers: a map from addresses to
  blocks, where a block is an array of variables of one Go type. A variable made by
  \<^verbatim>\<open>new(T)\<close> is a block with one element, the backing array of a slice one with as many as
  \<^verbatim>\<open>make\<close> was asked for. A pointer names a variable, a field of one, or an element.

  The theory has the structs of \<^verbatim>\<open>api/v1beta1\<close> as they lie in memory (slices are references,
  assignment is shallow), loading and storing through pointers, the typing of a heap, and
  the value of type \<open>OpenStackLightspeed\<close> that a struct in memory stands for.
\<close>

section \<open>Structs and blocks\<close>

type_synonym addr = nat

text \<open>A slice header; its capacity plays no role, since nothing is appended.\<close>

record slice =
  slice_array :: addr
  slice_offset :: nat
  slice_len :: nat

text \<open>
  The structs with their slices as references, \<open>None\<close> for a nil slice. The structs of the
  libraries (\<^verbatim>\<open>ObjectMeta\<close>, \<^verbatim>\<open>ListMeta\<close>, \<^verbatim>\<open>Condition\<close>) are type parameters.
\<close>

record Status_struct =
  st_Conditions :: "slice option"
  st_ObservedGeneration :: goint
  st_ActiveOCPRAGVersion :: string

record 'm OSL_struct =
  os_TypeMeta :: TypeMeta
  os_ObjectMeta :: 'm
  os_Spec :: OpenStackLightspeedSpec
  os_Status :: Status_struct

record 'l List_struct =
  ls_TypeMeta :: TypeMeta
  ls_ListMeta :: 'l
  ls_Items :: "slice option"

text \<open>\<open>External\<close> blocks belong to the libraries.\<close>

datatype ('m, 'l, 'c, 'x) block =
    OSLs "'m OSL_struct list"
  | OSLLists "'l List_struct list"
  | Specs "OpenStackLightspeedSpec list"
  | Cores "OpenStackLightspeedCore list"
  | Defaults "OpenStackLightspeedDefaults list"
  | Statuses "Status_struct list"
  | Conds "'c list"
  | External 'x

record ('m, 'l, 'c, 'x) heap =
  next_addr :: addr
  blocks :: "addr \<Rightarrow> ('m, 'l, 'c, 'x) block option"

fun as_OSLs :: "('m, 'l, 'c, 'x) block \<Rightarrow> 'm OSL_struct list option" where
  "as_OSLs (OSLs xs) = Some xs"
| "as_OSLs _ = None"

fun as_OSLLists :: "('m, 'l, 'c, 'x) block \<Rightarrow> 'l List_struct list option" where
  "as_OSLLists (OSLLists xs) = Some xs"
| "as_OSLLists _ = None"

fun as_Specs :: "('m, 'l, 'c, 'x) block \<Rightarrow> OpenStackLightspeedSpec list option" where
  "as_Specs (Specs xs) = Some xs"
| "as_Specs _ = None"

fun as_Cores :: "('m, 'l, 'c, 'x) block \<Rightarrow> OpenStackLightspeedCore list option" where
  "as_Cores (Cores xs) = Some xs"
| "as_Cores _ = None"

fun as_Defaults :: "('m, 'l, 'c, 'x) block \<Rightarrow> OpenStackLightspeedDefaults list option" where
  "as_Defaults (Defaults xs) = Some xs"
| "as_Defaults _ = None"

fun as_Statuses :: "('m, 'l, 'c, 'x) block \<Rightarrow> Status_struct list option" where
  "as_Statuses (Statuses xs) = Some xs"
| "as_Statuses _ = None"

fun as_Conds :: "('m, 'l, 'c, 'x) block \<Rightarrow> 'c list option" where
  "as_Conds (Conds xs) = Some xs"
| "as_Conds _ = None"

text \<open>
  What an assignment cannot change of a block: its type and its length. Nothing here
  assigns to the blocks of the libraries, so they are kept as they are.
\<close>

fun same_shape :: "('m, 'l, 'c, 'x) block \<Rightarrow> ('m, 'l, 'c, 'x) block \<Rightarrow> bool" where
  "same_shape (OSLs xs) (OSLs ys) \<longleftrightarrow> length xs = length ys"
| "same_shape (OSLLists xs) (OSLLists ys) \<longleftrightarrow> length xs = length ys"
| "same_shape (Specs xs) (Specs ys) \<longleftrightarrow> length xs = length ys"
| "same_shape (Cores xs) (Cores ys) \<longleftrightarrow> length xs = length ys"
| "same_shape (Defaults xs) (Defaults ys) \<longleftrightarrow> length xs = length ys"
| "same_shape (Statuses xs) (Statuses ys) \<longleftrightarrow> length xs = length ys"
| "same_shape (Conds xs) (Conds ys) \<longleftrightarrow> length xs = length ys"
| "same_shape (External x) (External y) \<longleftrightarrow> x = y"
| "same_shape _ _ \<longleftrightarrow> False"

lemma same_shape_refl [simp]: "same_shape b b"
  by (cases b) simp_all

section \<open>Pointers\<close>

text \<open>
  An access describes the pointers to one type: the block a pointer points into, and how
  the variable is read and replaced there. \<open>own\<close> is for the elements of blocks, \<open>field\<close> for a
  field of another access, \<open>place\<close> for pointers of either kind.
\<close>

type_synonym var = "addr \<times> nat"

datatype 'p place = Own var | Within 'p

record ('p, 'b, 't) access =
  base :: "'p \<Rightarrow> addr"
  get_in :: "'p \<Rightarrow> 'b \<Rightarrow> 't option"
  put_in :: "'p \<Rightarrow> 't \<Rightarrow> 'b \<Rightarrow> 'b"

definition own :: "('b \<Rightarrow> 't list option) \<Rightarrow> ('t list \<Rightarrow> 'b) \<Rightarrow> (var, 'b, 't) access" where
  "own prj emb = \<lparr>base = fst,
     get_in = (\<lambda>p b. case prj b of None \<Rightarrow> None
       | Some xs \<Rightarrow> if snd p < length xs then Some (xs ! snd p) else None),
     put_in = (\<lambda>p v b. case prj b of None \<Rightarrow> b | Some xs \<Rightarrow> emb (xs[snd p := v]))\<rparr>"

definition field ::
  "('p, 'b, 't) access \<Rightarrow> ('t \<Rightarrow> 'u) \<Rightarrow> ('u \<Rightarrow> 't \<Rightarrow> 't) \<Rightarrow> ('p, 'b, 'u) access" where
  "field A rd wr = \<lparr>base = base A,
     get_in = (\<lambda>p b. map_option rd (get_in A p b)),
     put_in = (\<lambda>p u b. case get_in A p b of None \<Rightarrow> b | Some v \<Rightarrow> put_in A p (wr u v) b)\<rparr>"

definition place ::
  "(var, 'b, 't) access \<Rightarrow> ('p, 'b, 't) access \<Rightarrow> ('p place, 'b, 't) access" where
  "place A B = \<lparr>base = case_place (base A) (base B),
     get_in = case_place (get_in A) (get_in B),
     put_in = case_place (put_in A) (put_in B)\<rparr>"

definition nil_dereference :: string where
  "nil_dereference = ''invalid memory address or nil pointer dereference''"

definition deref :: "'p option \<Rightarrow> 'p gores" where
  "deref p = (case p of None \<Rightarrow> GoPanic nil_dereference | Some q \<Rightarrow> GoOk q)"

lemma deref_simps [simp]: "deref None = GoPanic nil_dereference" "deref (Some p) = GoOk p"
  by (simp_all add: deref_def)

text \<open>
  Go has no dangling pointers. A pointer to nowhere faults here as a nil pointer does, and
  copies are proved never to come across one.
\<close>

definition load ::
  "('p, ('m, 'l, 'c, 'x) block, 't) access \<Rightarrow> 'p \<Rightarrow> ('m, 'l, 'c, 'x) heap \<Rightarrow> 't gores" where
  "load A p h = (case Option.bind (blocks h (base A p)) (get_in A p) of
     None \<Rightarrow> GoPanic nil_dereference | Some v \<Rightarrow> GoOk v)"

definition store ::
  "('p, ('m, 'l, 'c, 'x) block, 't) access \<Rightarrow> 'p \<Rightarrow> 't \<Rightarrow> ('m, 'l, 'c, 'x) heap \<Rightarrow>
   ('m, 'l, 'c, 'x) heap gores" where
  "store A p v h = (case blocks h (base A p) of
     None \<Rightarrow> GoPanic nil_dereference
   | Some b \<Rightarrow> (case get_in A p b of
        None \<Rightarrow> GoPanic nil_dereference
      | Some w \<Rightarrow> GoOk (h\<lparr>blocks := (blocks h)(base A p \<mapsto> put_in A p v b)\<rparr>)))"

text \<open>\<^verbatim>\<open>new\<close> and \<^verbatim>\<open>make\<close>: a block at an address never used before.\<close>

definition new_block ::
  "('m, 'l, 'c, 'x) block \<Rightarrow> ('m, 'l, 'c, 'x) heap \<Rightarrow> addr \<times> ('m, 'l, 'c, 'x) heap" where
  "new_block b h =
     (next_addr h, h\<lparr>next_addr := Suc (next_addr h), blocks := (blocks h)(next_addr h \<mapsto> b)\<rparr>)"

text \<open>The pointers of the program.\<close>

definition osl_at :: "(var, ('m, 'l, 'c, 'x) block, 'm OSL_struct) access" where
  "osl_at = own as_OSLs OSLs"

definition list_at :: "(var, ('m, 'l, 'c, 'x) block, 'l List_struct) access" where
  "list_at = own as_OSLLists OSLLists"

definition cond_at :: "(var, ('m, 'l, 'c, 'x) block, 'c) access" where
  "cond_at = own as_Conds Conds"

definition defaults_at :: "(var, ('m, 'l, 'c, 'x) block, OpenStackLightspeedDefaults) access" where
  "defaults_at = own as_Defaults Defaults"

definition meta_at :: "(var, ('m, 'l, 'c, 'x) block, 'm) access" where
  "meta_at = field osl_at os_ObjectMeta (\<lambda>m v. v\<lparr>os_ObjectMeta := m\<rparr>)"

definition listmeta_at :: "(var, ('m, 'l, 'c, 'x) block, 'l) access" where
  "listmeta_at = field list_at ls_ListMeta (\<lambda>m v. v\<lparr>ls_ListMeta := m\<rparr>)"

definition status_at :: "(var place, ('m, 'l, 'c, 'x) block, Status_struct) access" where
  "status_at = place (own as_Statuses Statuses)
     (field osl_at os_Status (\<lambda>s v. v\<lparr>os_Status := s\<rparr>))"

definition spec_at :: "(var place, ('m, 'l, 'c, 'x) block, OpenStackLightspeedSpec) access" where
  "spec_at = place (own as_Specs Specs) (field osl_at os_Spec (\<lambda>s v. v\<lparr>os_Spec := s\<rparr>))"

definition core_of :: "OpenStackLightspeedSpec \<Rightarrow> OpenStackLightspeedCore" where
  "core_of s = OpenStackLightspeedCore.truncate s"

definition set_core :: "OpenStackLightspeedCore \<Rightarrow> OpenStackLightspeedSpec \<Rightarrow> OpenStackLightspeedSpec" where
  "set_core c s = OpenStackLightspeedCore.extend c (OpenStackLightspeedCore.more s)"

definition core_at ::
  "(var place place, ('m, 'l, 'c, 'x) block, OpenStackLightspeedCore) access" where
  "core_at = place (own as_Cores Cores) (field spec_at core_of set_core)"


section \<open>Laws of loading and storing\<close>

text \<open>
  \<open>extends h k\<close>: \<open>k\<close> has every block of \<open>h\<close> as it is, and maybe more.
  \<open>hext h k\<close>: the blocks of \<open>h\<close> are still there and have kept their shape.
\<close>

definition extends :: "('m, 'l, 'c, 'x) heap \<Rightarrow> ('m, 'l, 'c, 'x) heap \<Rightarrow> bool" where
  "extends h k \<longleftrightarrow> blocks h \<subseteq>\<^sub>m blocks k"

definition hext :: "('m, 'l, 'c, 'x) heap \<Rightarrow> ('m, 'l, 'c, 'x) heap \<Rightarrow> bool" where
  "hext h k \<longleftrightarrow> (\<forall>a b. blocks h a = Some b \<longrightarrow> (\<exists>b'. blocks k a = Some b' \<and> same_shape b b'))"

text \<open>Two heaps have the same blocks at the addresses of a set.\<close>

definition same_on :: "addr set \<Rightarrow> ('m, 'l, 'c, 'x) heap \<Rightarrow> ('m, 'l, 'c, 'x) heap \<Rightarrow> bool" where
  "same_on X h k \<longleftrightarrow> (\<forall>a\<in>X. blocks k a = blocks h a)"

abbreviation used :: "('m, 'l, 'c, 'x) heap \<Rightarrow> addr set" where
  "used h \<equiv> dom (blocks h)"

lemma extends_refl [simp]: "extends h h"
  by (simp add: extends_def)

lemma extends_trans [trans]: "extends h k \<Longrightarrow> extends k l \<Longrightarrow> extends h l"
  unfolding extends_def by (rule map_le_trans)

lemma extends_hext: "extends h k \<Longrightarrow> hext h k"
  unfolding extends_def hext_def map_le_def by (metis domI same_shape_refl)

lemma extends_Some: "extends h k \<Longrightarrow> blocks h a = Some b \<Longrightarrow> blocks k a = Some b"
  unfolding extends_def map_le_def by (metis domI)

lemma extends_used: "extends h k \<Longrightarrow> used h \<subseteq> used k"
  unfolding extends_def by (rule map_le_implies_dom_le)

lemma extends_iff_same_on: "extends h k \<longleftrightarrow> same_on (used h) h k"
  unfolding extends_def same_on_def map_le_def by metis

lemma same_on_mono: "same_on Y h k \<Longrightarrow> X \<subseteq> Y \<Longrightarrow> same_on X h k"
  by (auto simp: same_on_def)

lemma same_on_sym: "same_on X h k \<longleftrightarrow> same_on X k h"
  by (auto simp: same_on_def)

lemma same_on_trans: "same_on X h k \<Longrightarrow> same_on X k l \<Longrightarrow> same_on X h l"
  by (auto simp: same_on_def)

lemma same_shape_trans: "same_shape a b \<Longrightarrow> same_shape b c \<Longrightarrow> same_shape a c"
  by (cases a; cases b; simp; cases c; simp)

lemma hext_trans: "hext h k \<Longrightarrow> hext k l \<Longrightarrow> hext h l"
  unfolding hext_def by (meson same_shape_trans)

lemma new_block_extends:
  assumes "new_block b h = (a, k)" and "blocks h (next_addr h) = None"
  shows "extends h k" and "a \<notin> used h" and "blocks k a = Some b"
  using assms by (auto simp: new_block_def extends_def map_le_def)

text \<open>
  The laws of pointers to one type, at the level of blocks; loading and storing inherit
  them.
\<close>

locale accessible =
  fixes A :: "('p, ('m, 'l, 'c, 'x) block, 't) access"
  assumes get_put: "get_in A p b = Some v \<Longrightarrow> get_in A p (put_in A p w b) = Some w"
    and put_put: "get_in A p b = Some v \<Longrightarrow> put_in A p w (put_in A p u b) = put_in A p w b"
    and get_other: "get_in A p b = Some v \<Longrightarrow> get_in A q b = Some u \<Longrightarrow> p \<noteq> q \<Longrightarrow>
          base A p = base A q \<Longrightarrow> get_in A p (put_in A q w b) = Some v"
    and put_get: "get_in A p b = Some v \<Longrightarrow> put_in A p v b = b"
    and put_shape: "get_in A p b = Some v \<Longrightarrow> same_shape b (put_in A p w b)"
begin

lemma load_iff: "load A p h = GoOk v \<longleftrightarrow> (\<exists>b. blocks h (base A p) = Some b \<and> get_in A p b = Some v)"
  by (auto simp: load_def split: option.splits bind_splits)

lemma load_used: "load A p h = GoOk v \<Longrightarrow> base A p \<in> used h"
  by (auto simp: load_iff)

lemma storeE:
  assumes "store A p w h = GoOk k"
  obtains b v where "blocks h (base A p) = Some b" and "get_in A p b = Some v"
    and "k = h\<lparr>blocks := (blocks h)(base A p \<mapsto> put_in A p w b)\<rparr>"
  using assms by (auto simp: store_def split: option.splits)

lemma store_loaded: "load A p h = GoOk v \<Longrightarrow> \<exists>k. store A p w h = GoOk k"
  by (auto simp: load_iff store_def)

lemma load_stored: "store A p w h = GoOk k \<Longrightarrow> load A p k = GoOk w"
  by (auto simp: load_iff get_put elim!: storeE)

lemma load_other:
  "store A q w h = GoOk k \<Longrightarrow> p \<noteq> q \<Longrightarrow> load A p h = GoOk v \<Longrightarrow> load A p k = GoOk v"
  by (cases "base A p = base A q") (auto simp: load_iff get_other elim!: storeE)

lemma store_twice: "store A p w h = GoOk k \<Longrightarrow> store A p u k = store A p u h"
  by (erule storeE) (simp add: store_def get_put put_put)

lemma store_same: "load A p h = GoOk v \<Longrightarrow> store A p v h = GoOk h"
  by (auto simp: load_iff store_def put_get fun_upd_idem)

lemma store_same_on: "store A p w h = GoOk k \<Longrightarrow> base A p \<notin> X \<Longrightarrow> same_on X h k"
  by (auto simp: same_on_def elim!: storeE)

lemma store_used [simp]: "store A p w h = GoOk k \<Longrightarrow> used k = used h"
  by (auto elim!: storeE split: if_splits)

lemma store_next [simp]: "store A p w h = GoOk k \<Longrightarrow> next_addr k = next_addr h"
  by (auto elim!: storeE)

lemma store_hext: "store A p w h = GoOk k \<Longrightarrow> hext h k"
  by (auto simp: hext_def put_shape elim!: storeE)

lemma load_same_on: "same_on X h k \<Longrightarrow> base A p \<in> X \<Longrightarrow> load A p k = load A p h"
  by (simp add: same_on_def load_def)

lemma load_extends: "extends h k \<Longrightarrow> load A p h = GoOk v \<Longrightarrow> load A p k = GoOk v"
  by (auto simp: load_iff dest: extends_Some)

lemma store_extends:
  assumes "extends h k" and "store A p w h = GoOk h'"
  obtains k' where "store A p w k = GoOk k'" and "extends h' k'"
proof -
  from assms(2) obtain b v where b: "blocks h (base A p) = Some b" "get_in A p b = Some v"
    "h' = h\<lparr>blocks := (blocks h)(base A p \<mapsto> put_in A p w b)\<rparr>"
    by (rule storeE)
  with assms(1) have "blocks k (base A p) = Some b"
    by (blast dest: extends_Some)
  with assms(1) b show ?thesis
    by (intro that [of "k\<lparr>blocks := (blocks k)(base A p \<mapsto> put_in A p w b)\<rparr>"])
      (auto simp: store_def extends_def intro: map_le_upd)
qed

end

text \<open>
  The effect of filling in a variable: it holds the new struct, blocks may have been
  added, and nothing else has changed.
\<close>

definition written ::
  "('p, ('m, 'l, 'c, 'x) block, 't) access \<Rightarrow> 'p \<Rightarrow> 't \<Rightarrow>
   ('m, 'l, 'c, 'x) heap \<Rightarrow> ('m, 'l, 'c, 'x) heap \<Rightarrow> bool" where
  "written A q v h k \<longleftrightarrow> (\<exists>hs. store A q v h = GoOk hs \<and> extends hs k)"

context accessible
begin

lemma written_store: "store A q v h = GoOk k \<Longrightarrow> written A q v h k"
  by (auto simp: written_def)

lemma written_load: "written A q v h k \<Longrightarrow> load A q k = GoOk v"
  by (auto simp: written_def intro: load_stored load_extends)

lemma written_other:
  "written A q v h k \<Longrightarrow> p \<noteq> q \<Longrightarrow> load A p h = GoOk w \<Longrightarrow> load A p k = GoOk w"
  by (auto simp: written_def intro: load_other load_extends)

lemma written_same_on: "written A q v h k \<Longrightarrow> same_on (used h - {base A q}) h k"
  by (auto simp: written_def same_on_def elim!: storeE dest: extends_Some)

lemma written_hext: "written A q v h k \<Longrightarrow> hext h k"
  by (auto simp: written_def intro: hext_trans store_hext extends_hext)

lemma written_used: "written A q v h k \<Longrightarrow> used h \<subseteq> used k"
  using extends_used by (fastforce simp: written_def)

lemma written_later: "written A q v h k \<Longrightarrow> same_on (used h) k l \<Longrightarrow> written A q v h l"
  by (auto simp: written_def extends_iff_same_on intro: same_on_trans)

lemma written_again:
  assumes "written A q v h k" and "written A q w k l"
  shows "written A q w h l"
proof -
  from assms(1) obtain hs where hs: "store A q v h = GoOk hs" "extends hs k"
    by (auto simp: written_def)
  from assms(2) obtain ks where ks: "store A q w k = GoOk ks" "extends ks l"
    by (auto simp: written_def)
  from hs(1) obtain h2 where h2: "store A q w hs = GoOk h2"
    using store_loaded [OF load_stored] by blast
  with hs(2) obtain k' where "store A q w k = GoOk k'" "extends h2 k'"
    by (rule store_extends)
  with ks h2 store_twice [OF hs(1)] show ?thesis
    by (auto simp: written_def intro: extends_trans)
qed

end

text \<open>Every pointer type of the program obeys the laws.\<close>

locale block_kind =
  fixes prj :: "('m, 'l, 'c, 'x) block \<Rightarrow> 't list option"
    and emb :: "'t list \<Rightarrow> ('m, 'l, 'c, 'x) block"
  assumes prj_iff: "prj b = Some xs \<longleftrightarrow> b = emb xs"
    and emb_shape: "same_shape (emb xs) (emb ys) \<longleftrightarrow> length xs = length ys"
    and shape_emb: "same_shape (emb xs) b \<Longrightarrow> \<exists>ys. b = emb ys"
begin

lemma prj_emb [simp]: "prj (emb xs) = Some xs"
  by (simp add: prj_iff)

lemma emb_eq_iff [simp]: "emb xs = emb ys \<longleftrightarrow> xs = ys"
  by (metis option.inject prj_emb)

lemma own_base [simp]: "base (own prj emb) = fst"
  by (simp add: own_def)

lemma own_get_iff: "get_in (own prj emb) p b = Some v \<longleftrightarrow>
  (\<exists>xs. b = emb xs \<and> snd p < length xs \<and> v = xs ! snd p)"
  by (auto simp: own_def prj_iff split: option.splits)

lemma own_put [simp]: "put_in (own prj emb) p v (emb xs) = emb (xs[snd p := v])"
  by (simp add: own_def)

end

sublocale block_kind \<subseteq> accessible "own prj emb"
  by unfold_locales (auto simp: own_get_iff emb_shape nth_list_update prod_eq_iff list_update_id)

locale field_access = accessible A
  for A :: "('p, ('m, 'l, 'c, 'x) block, 't) access" +
  fixes rd :: "'t \<Rightarrow> 'u" and wr :: "'u \<Rightarrow> 't \<Rightarrow> 't"
  assumes rd_wr: "rd (wr u v) = u" and wr_wr: "wr u (wr u' v) = wr u v"
    and wr_rd: "wr (rd v) v = v"
begin

lemma field_get_iff: "get_in (field A rd wr) p b = Some u \<longleftrightarrow> (\<exists>v. get_in A p b = Some v \<and> u = rd v)"
  by (auto simp: field_def)

lemma field_base [simp]: "base (field A rd wr) = base A"
  by (simp add: field_def)

lemma field_put: "get_in A p b = Some v \<Longrightarrow> put_in (field A rd wr) p u b = put_in A p (wr u v) b"
  by (simp add: field_def)

lemma load_field: "load (field A rd wr) p h = GoOk u \<longleftrightarrow> (\<exists>v. load A p h = GoOk v \<and> u = rd v)"
  by (auto simp: load_def field_def split: option.splits bind_splits)

lemma store_field: "load A p h = GoOk v \<Longrightarrow> store (field A rd wr) p u h = store A p (wr u v) h"
  by (auto simp: load_iff store_def field_def cong: option.case_cong)

lemma written_field:
  assumes "written A q v h k" and "written (field A rd wr) q u k l"
  shows "written A q (wr u v) h l"
  using written_again [OF assms(1)] assms(2) store_field [OF written_load [OF assms(1)]]
  by (simp add: written_def)

end

sublocale field_access \<subseteq> fld: accessible "field A rd wr"
proof
  fix p b u w
  assume "get_in (field A rd wr) p b = Some u"
  then obtain v where v: "get_in A p b = Some v" "u = rd v"
    by (auto simp: field_get_iff)
  then show "get_in (field A rd wr) p (put_in (field A rd wr) p w b) = Some w"
    by (auto simp: field_get_iff field_put get_put rd_wr)
  from v show "same_shape b (put_in (field A rd wr) p w b)"
    and "put_in (field A rd wr) p u b = b"
    by (auto simp: field_put put_shape put_get wr_rd)
next
  fix p b v w u
  assume "get_in (field A rd wr) p b = Some v"
  then show "put_in (field A rd wr) p w (put_in (field A rd wr) p u b) = put_in (field A rd wr) p w b"
    by (auto simp: field_get_iff field_put [OF get_put] field_put put_put wr_wr)
next
  fix p b v q u w
  assume "get_in (field A rd wr) p b = Some v" "get_in (field A rd wr) q b = Some u"
    and "p \<noteq> q" "base (field A rd wr) p = base (field A rd wr) q"
  then show "get_in (field A rd wr) p (put_in (field A rd wr) q w b) = Some v"
    by (auto simp: field_get_iff field_put get_other)
qed

text \<open>Pointers of two kinds to the same type never meet in one block.\<close>

locale place_access = one: accessible A + two: accessible B
  for A :: "(var, ('m, 'l, 'c, 'x) block, 't) access"
    and B :: "('p, ('m, 'l, 'c, 'x) block, 't) access" +
  assumes exclusive: "get_in A p b = Some v \<Longrightarrow> get_in B q b = Some u \<Longrightarrow> False"
begin

lemma place_simps [simp]:
  "base (place A B) (Own p) = base A p" "base (place A B) (Within q) = base B q"
  "get_in (place A B) (Own p) = get_in A p" "get_in (place A B) (Within q) = get_in B q"
  "put_in (place A B) (Own p) = put_in A p" "put_in (place A B) (Within q) = put_in B q"
  by (simp_all add: place_def)

lemma load_place [simp]:
  "load (place A B) (Own p) = load A p" "load (place A B) (Within q) = load B q"
  by (simp_all add: fun_eq_iff load_def)

lemma store_place [simp]:
  "store (place A B) (Own p) = store A p" "store (place A B) (Within q) = store B q"
  by (simp_all add: fun_eq_iff store_def cong: option.case_cong)

end

sublocale place_access \<subseteq> plc: accessible "place A B"
proof
  fix p b v w u
  assume "get_in (place A B) p b = Some v"
  then show "get_in (place A B) p (put_in (place A B) p w b) = Some w"
    and "put_in (place A B) p w (put_in (place A B) p u b) = put_in (place A B) p w b"
    and "same_shape b (put_in (place A B) p w b)"
    and "put_in (place A B) p v b = b"
    by (cases p; simp add: one.get_put two.get_put one.put_put two.put_put
        one.put_shape two.put_shape one.put_get two.put_get)+
next
  fix p b v q u w
  assume "get_in (place A B) p b = Some v" "get_in (place A B) q b = Some u"
    and "p \<noteq> q" "base (place A B) p = base (place A B) q"
  then show "get_in (place A B) p (put_in (place A B) q w b) = Some v"
    by (cases p; cases q) (auto simp: one.get_other two.get_other dest: exclusive)
qed

lemma as_iffs:
  "as_OSLs b = Some xs1 \<longleftrightarrow> b = OSLs xs1"
  "as_OSLLists b = Some xs2 \<longleftrightarrow> b = OSLLists xs2"
  "as_Conds b = Some xs3 \<longleftrightarrow> b = Conds xs3"
  "as_Defaults b = Some xs4 \<longleftrightarrow> b = Defaults xs4"
  "as_Statuses b = Some xs5 \<longleftrightarrow> b = Statuses xs5"
  "as_Specs b = Some xs6 \<longleftrightarrow> b = Specs xs6"
  "as_Cores b = Some xs7 \<longleftrightarrow> b = Cores xs7"
  by (cases b; simp)+

lemma same_shape_iffs:
  "same_shape (OSLs xs1) b \<longleftrightarrow> (\<exists>ys. b = OSLs ys \<and> length xs1 = length ys)"
  "same_shape (OSLLists xs2) b \<longleftrightarrow> (\<exists>ys. b = OSLLists ys \<and> length xs2 = length ys)"
  "same_shape (Conds xs3) b \<longleftrightarrow> (\<exists>ys. b = Conds ys \<and> length xs3 = length ys)"
  "same_shape (Defaults xs4) b \<longleftrightarrow> (\<exists>ys. b = Defaults ys \<and> length xs4 = length ys)"
  "same_shape (Statuses xs5) b \<longleftrightarrow> (\<exists>ys. b = Statuses ys \<and> length xs5 = length ys)"
  "same_shape (Specs xs6) b \<longleftrightarrow> (\<exists>ys. b = Specs ys \<and> length xs6 = length ys)"
  "same_shape (Cores xs7) b \<longleftrightarrow> (\<exists>ys. b = Cores ys \<and> length xs7 = length ys)"
  by (cases b; simp)+

interpretation osl: block_kind as_OSLs OSLs
  rewrites "own as_OSLs OSLs = osl_at"
  by unfold_locales (auto simp: as_iffs same_shape_iffs osl_at_def)

interpretation osllist: block_kind as_OSLLists OSLLists
  rewrites "own as_OSLLists OSLLists = list_at"
  by unfold_locales (auto simp: as_iffs same_shape_iffs list_at_def)

interpretation cond: block_kind as_Conds Conds
  rewrites "own as_Conds Conds = cond_at"
  by unfold_locales (auto simp: as_iffs same_shape_iffs cond_at_def)

interpretation defaults: block_kind as_Defaults Defaults
  rewrites "own as_Defaults Defaults = defaults_at"
  by unfold_locales (auto simp: as_iffs same_shape_iffs defaults_at_def)

interpretation statuses: block_kind as_Statuses Statuses
  by unfold_locales (auto simp: as_iffs same_shape_iffs)

interpretation specs: block_kind as_Specs Specs
  by unfold_locales (auto simp: as_iffs same_shape_iffs)

interpretation cores: block_kind as_Cores Cores
  by unfold_locales (auto simp: as_iffs same_shape_iffs)

interpretation meta: field_access osl_at os_ObjectMeta "\<lambda>m v. v\<lparr>os_ObjectMeta := m\<rparr>"
  rewrites "field osl_at os_ObjectMeta (\<lambda>m v. v\<lparr>os_ObjectMeta := m\<rparr>) = meta_at"
  by unfold_locales (simp_all add: meta_at_def)

interpretation listmeta: field_access list_at ls_ListMeta "\<lambda>m v. v\<lparr>ls_ListMeta := m\<rparr>"
  rewrites "field list_at ls_ListMeta (\<lambda>m v. v\<lparr>ls_ListMeta := m\<rparr>) = listmeta_at"
  by unfold_locales (simp_all add: listmeta_at_def)

interpretation osl_status: field_access osl_at os_Status "\<lambda>s v. v\<lparr>os_Status := s\<rparr>"
  by unfold_locales simp_all

interpretation osl_spec: field_access osl_at os_Spec "\<lambda>s v. v\<lparr>os_Spec := s\<rparr>"
  by unfold_locales simp_all

interpretation status: place_access "own as_Statuses Statuses"
    "field osl_at os_Status (\<lambda>s v. v\<lparr>os_Status := s\<rparr>)"
  rewrites "place (own as_Statuses Statuses) (field osl_at os_Status (\<lambda>s v. v\<lparr>os_Status := s\<rparr>)) =
     status_at"
  by unfold_locales (auto simp: status_at_def statuses.own_get_iff osl_status.field_get_iff
      osl.own_get_iff)

interpretation spec: place_access "own as_Specs Specs"
    "field osl_at os_Spec (\<lambda>s v. v\<lparr>os_Spec := s\<rparr>)"
  rewrites "place (own as_Specs Specs) (field osl_at os_Spec (\<lambda>s v. v\<lparr>os_Spec := s\<rparr>)) = spec_at"
  by unfold_locales (auto simp: spec_at_def specs.own_get_iff osl_spec.field_get_iff
      osl.own_get_iff)


lemma core_of_set_core [simp]: "core_of (set_core c s) = c"
  by (simp add: core_of_def set_core_def OpenStackLightspeedCore.defs)

lemma set_core_twice [simp]: "set_core c (set_core d s) = set_core c s"
  by (simp add: set_core_def OpenStackLightspeedCore.defs)

lemma set_own_core [simp]: "set_core (core_of s) s = s"
  by (cases s) (simp add: core_of_def set_core_def OpenStackLightspeedCore.defs)

interpretation spec_core: field_access spec_at core_of set_core
  by unfold_locales simp_all

interpretation core: place_access "own as_Cores Cores" "field spec_at core_of set_core"
  rewrites "place (own as_Cores Cores) (field spec_at core_of set_core) = core_at"
proof -
  have "get_in (own as_Cores Cores) p b = Some v \<Longrightarrow>
      get_in (field spec_at core_of set_core) q b = Some u \<Longrightarrow> False" for p b v q u
    by (cases q) (auto simp: spec_core.field_get_iff osl_spec.field_get_iff osl.own_get_iff
        specs.own_get_iff cores.own_get_iff)
  then show "place_access (own as_Cores Cores) (field spec_at core_of set_core)"
    by unfold_locales
qed (simp add: core_at_def)

section \<open>Typing of the heap, and the values it holds\<close>

text \<open>
  What the structs of the libraries mean: when their references are in order in a heap, the
  value they stand for there, and the blocks that this value depends on.
\<close>

record ('m, 'l, 'c, 'x, 'v) meaning =
  meta_ok :: "('m, 'l, 'c, 'x) heap \<Rightarrow> 'm \<Rightarrow> bool"
  meta_view :: "('m, 'l, 'c, 'x) heap \<Rightarrow> 'm \<Rightarrow> ObjectMeta"
  meta_cells :: "('m, 'l, 'c, 'x) heap \<Rightarrow> 'm \<Rightarrow> addr set"
  listmeta_ok :: "('m, 'l, 'c, 'x) heap \<Rightarrow> 'l \<Rightarrow> bool"
  listmeta_view :: "('m, 'l, 'c, 'x) heap \<Rightarrow> 'l \<Rightarrow> 'v"
  listmeta_cells :: "('m, 'l, 'c, 'x) heap \<Rightarrow> 'l \<Rightarrow> addr set"
  cond_ok :: "('m, 'l, 'c, 'x) heap \<Rightarrow> 'c \<Rightarrow> bool"
  cond_view :: "('m, 'l, 'c, 'x) heap \<Rightarrow> 'c \<Rightarrow> Condition"
  cond_cells :: "('m, 'l, 'c, 'x) heap \<Rightarrow> 'c \<Rightarrow> addr set"
  external_ok :: "('m, 'l, 'c, 'x) heap \<Rightarrow> 'x \<Rightarrow> bool"

text \<open>Slices: the backing array has the right type and is long enough.\<close>

definition array_at ::
  "(('m, 'l, 'c, 'x) block \<Rightarrow> 't list option) \<Rightarrow> ('m, 'l, 'c, 'x) heap \<Rightarrow> slice \<Rightarrow> 't list option" where
  "array_at prj h s = Option.bind (blocks h (slice_array s)) prj"

definition elems ::
  "(('m, 'l, 'c, 'x) block \<Rightarrow> 't list option) \<Rightarrow> ('m, 'l, 'c, 'x) heap \<Rightarrow> slice \<Rightarrow> 't list" where
  "elems prj h s = (case array_at prj h s of None \<Rightarrow> []
     | Some xs \<Rightarrow> take (slice_len s) (drop (slice_offset s) xs))"

definition slice_ok ::
  "(('m, 'l, 'c, 'x) block \<Rightarrow> 't list option) \<Rightarrow> ('m, 'l, 'c, 'x) heap \<Rightarrow> slice option \<Rightarrow> bool" where
  "slice_ok prj h so = (case so of None \<Rightarrow> True | Some s \<Rightarrow> (case array_at prj h s of None \<Rightarrow> False
     | Some xs \<Rightarrow> slice_offset s + slice_len s \<le> length xs))"

definition slice_view ::
  "(('m, 'l, 'c, 'x) block \<Rightarrow> 't list option) \<Rightarrow> (('m, 'l, 'c, 'x) heap \<Rightarrow> 't \<Rightarrow> 'v) \<Rightarrow>
   ('m, 'l, 'c, 'x) heap \<Rightarrow> slice option \<Rightarrow> 'v list option" where
  "slice_view prj view h so = map_option (\<lambda>s. map (view h) (elems prj h s)) so"

definition slice_cells ::
  "(('m, 'l, 'c, 'x) block \<Rightarrow> 't list option) \<Rightarrow> (('m, 'l, 'c, 'x) heap \<Rightarrow> 't \<Rightarrow> addr set) \<Rightarrow>
   ('m, 'l, 'c, 'x) heap \<Rightarrow> slice option \<Rightarrow> addr set" where
  "slice_cells prj cells h so = (case so of None \<Rightarrow> {}
     | Some s \<Rightarrow> insert (slice_array s) (\<Union>x\<in>set (elems prj h s). cells h x))"

lemma slice_None [simp]:
  "slice_ok prj h None" "slice_view prj view h None = None" "slice_cells prj cells h None = {}"
  by (simp_all add: slice_ok_def slice_view_def slice_cells_def)

text \<open>The structs of the program.\<close>

definition status_ok :: "('m, 'l, 'c, 'x) heap \<Rightarrow> Status_struct \<Rightarrow> bool" where
  "status_ok h s = slice_ok as_Conds h (st_Conditions s)"

definition status_view ::
  "('m, 'l, 'c, 'x, 'v) meaning \<Rightarrow> ('m, 'l, 'c, 'x) heap \<Rightarrow> Status_struct \<Rightarrow>
   OpenStackLightspeedStatus" where
  "status_view S h s = \<lparr>Conditions = slice_view as_Conds (cond_view S) h (st_Conditions s),
     ObservedGeneration = st_ObservedGeneration s,
     ActiveOCPRAGVersion = st_ActiveOCPRAGVersion s\<rparr>"

definition status_cells ::
  "('m, 'l, 'c, 'x, 'v) meaning \<Rightarrow> ('m, 'l, 'c, 'x) heap \<Rightarrow> Status_struct \<Rightarrow> addr set" where
  "status_cells S h s = slice_cells as_Conds (cond_cells S) h (st_Conditions s)"

definition osl_ok ::
  "('m, 'l, 'c, 'x, 'v) meaning \<Rightarrow> ('m, 'l, 'c, 'x) heap \<Rightarrow> 'm OSL_struct \<Rightarrow> bool" where
  "osl_ok S h v \<longleftrightarrow> meta_ok S h (os_ObjectMeta v) \<and> status_ok h (os_Status v)"

definition osl_view ::
  "('m, 'l, 'c, 'x, 'v) meaning \<Rightarrow> ('m, 'l, 'c, 'x) heap \<Rightarrow> 'm OSL_struct \<Rightarrow> OpenStackLightspeed" where
  "osl_view S h v = \<lparr>osl_TypeMeta = os_TypeMeta v, osl_Meta = meta_view S h (os_ObjectMeta v),
     Spec = os_Spec v, Status = status_view S h (os_Status v)\<rparr>"

definition osl_cells ::
  "('m, 'l, 'c, 'x, 'v) meaning \<Rightarrow> ('m, 'l, 'c, 'x) heap \<Rightarrow> 'm OSL_struct \<Rightarrow> addr set" where
  "osl_cells S h v = meta_cells S h (os_ObjectMeta v) \<union> status_cells S h (os_Status v)"

text \<open>A list stands for its metadata and its items, \<open>None\<close> for a nil slice of items.\<close>

definition list_ok ::
  "('m, 'l, 'c, 'x, 'v) meaning \<Rightarrow> ('m, 'l, 'c, 'x) heap \<Rightarrow> 'l List_struct \<Rightarrow> bool" where
  "list_ok S h v \<longleftrightarrow> listmeta_ok S h (ls_ListMeta v) \<and> slice_ok as_OSLs h (ls_Items v)"

definition list_view ::
  "('m, 'l, 'c, 'x, 'v) meaning \<Rightarrow> ('m, 'l, 'c, 'x) heap \<Rightarrow> 'l List_struct \<Rightarrow>
   TypeMeta \<times> 'v \<times> OpenStackLightspeed list option" where
  "list_view S h v = (ls_TypeMeta v, listmeta_view S h (ls_ListMeta v),
     slice_view as_OSLs (osl_view S) h (ls_Items v))"

definition list_cells ::
  "('m, 'l, 'c, 'x, 'v) meaning \<Rightarrow> ('m, 'l, 'c, 'x) heap \<Rightarrow> 'l List_struct \<Rightarrow> addr set" where
  "list_cells S h v = listmeta_cells S h (ls_ListMeta v) \<union>
     slice_cells as_OSLs (osl_cells S) h (ls_Items v)"

fun block_ok ::
  "('m, 'l, 'c, 'x, 'v) meaning \<Rightarrow> ('m, 'l, 'c, 'x) heap \<Rightarrow> ('m, 'l, 'c, 'x) block \<Rightarrow> bool" where
  "block_ok S h (OSLs xs) = list_all (osl_ok S h) xs"
| "block_ok S h (OSLLists xs) = list_all (list_ok S h) xs"
| "block_ok S h (Statuses xs) = list_all (status_ok h) xs"
| "block_ok S h (Conds xs) = list_all (cond_ok S h) xs"
| "block_ok S h (External x) = external_ok S h x"
| "block_ok S h (Specs xs) = True"
| "block_ok S h (Cores xs) = True"
| "block_ok S h (Defaults xs) = True"

definition typed :: "('m, 'l, 'c, 'x, 'v) meaning \<Rightarrow> ('m, 'l, 'c, 'x) heap \<Rightarrow> bool" where
  "typed S h \<longleftrightarrow> (\<forall>a\<ge>next_addr h. blocks h a = None) \<and>
     (\<forall>a b. blocks h a = Some b \<longrightarrow> block_ok S h b)"

text \<open>Typing of the libraries' structs survives assignments and allocations; so does all of it.\<close>

locale heap_typing =
  fixes S :: "('m, 'l, 'c, 'x, 'v) meaning"
  assumes meta_hext: "meta_ok S h m \<Longrightarrow> hext h k \<Longrightarrow> meta_ok S k m"
    and listmeta_hext: "listmeta_ok S h l \<Longrightarrow> hext h k \<Longrightarrow> listmeta_ok S k l"
    and cond_hext: "cond_ok S h c \<Longrightarrow> hext h k \<Longrightarrow> cond_ok S k c"
    and external_hext: "external_ok S h x \<Longrightarrow> hext h k \<Longrightarrow> external_ok S k x"

context block_kind
begin

lemma array_at_iff: "array_at prj h s = Some xs \<longleftrightarrow> blocks h (slice_array s) = Some (emb xs)"
  by (auto simp: array_at_def prj_iff bind_eq_Some_conv)

lemma slice_ok_Some: "slice_ok prj h (Some s) \<longleftrightarrow>
  (\<exists>xs. blocks h (slice_array s) = Some (emb xs) \<and> slice_offset s + slice_len s \<le> length xs)"
  unfolding slice_ok_def array_at_iff [symmetric] by (auto split: option.splits)

lemma elems_eq: "blocks h (slice_array s) = Some (emb xs) \<Longrightarrow>
  elems prj h s = take (slice_len s) (drop (slice_offset s) xs)"
  using array_at_iff [of h s xs] by (simp add: elems_def)

lemma slice_ok_hext: "slice_ok prj h so \<Longrightarrow> hext h k \<Longrightarrow> slice_ok prj k so"
proof (cases so)
  case (Some s)
  assume "slice_ok prj h so" and hk: "hext h k"
  with Some obtain xs where xs: "blocks h (slice_array s) = Some (emb xs)"
    "slice_offset s + slice_len s \<le> length xs"
    by (auto simp: slice_ok_Some)
  with hk obtain b where "blocks k (slice_array s) = Some b" "same_shape (emb xs) b"
    by (auto simp: hext_def)
  with xs Some show ?thesis
    using shape_emb [of xs b] by (auto simp: slice_ok_Some emb_shape)
qed simp

end

context heap_typing
begin

lemma status_ok_hext: "status_ok h s \<Longrightarrow> hext h k \<Longrightarrow> status_ok k s"
  unfolding status_ok_def by (rule cond.slice_ok_hext)

lemma osl_ok_hext: "osl_ok S h v \<Longrightarrow> hext h k \<Longrightarrow> osl_ok S k v"
  unfolding osl_ok_def by (blast intro: meta_hext status_ok_hext)

lemma list_ok_hext: "list_ok S h v \<Longrightarrow> hext h k \<Longrightarrow> list_ok S k v"
  unfolding list_ok_def by (blast intro: listmeta_hext osl.slice_ok_hext)

lemma block_ok_hext: "block_ok S h b \<Longrightarrow> hext h k \<Longrightarrow> block_ok S k b"
  by (cases b) (auto intro: osl_ok_hext list_ok_hext status_ok_hext cond_hext external_hext
      simp: list_all_iff)

lemma typed_fresh: "typed S h \<Longrightarrow> blocks h (next_addr h) = None"
  by (simp add: typed_def)

lemma typed_block: "typed S h \<Longrightarrow> blocks h a = Some b \<Longrightarrow> block_ok S h b"
  by (simp add: typed_def)

lemma typed_new:
  assumes h: "typed S h" and b: "block_ok S h b" and k: "new_block b h = (a, k)"
  shows "typed S k" and "extends h k" and "a \<notin> used h" and "blocks k a = Some b"
    and "used k = insert a (used h)"
proof -
  show hk: "extends h k" and "a \<notin> used h" and "blocks k a = Some b"
    using new_block_extends [OF k typed_fresh [OF h]] by auto
  show "used k = insert a (used h)"
    using k by (auto simp: new_block_def)
  have "block_ok S k c" if "blocks k i = Some c" for i c
  proof -
    from that k h b have "block_ok S h c"
      by (auto simp: new_block_def typed_block split: if_splits)
    with hk show ?thesis by (blast intro: block_ok_hext extends_hext)
  qed
  with h k show "typed S k"
    by (auto simp: typed_def new_block_def split: if_splits)
qed

end

end
