(* ===== verification/Deep_Copy.thy ===== *)
theory Deep_Copy
  imports Memory
begin

text \<open>
  The generated deep copies (\<^verbatim>\<open>api/v1beta1/zz_generated.deepcopy.go\<close>), on the memory of theory
  \<open>Memory\<close>. Receivers and targets are pointers that may be nil; \<^verbatim>\<open>*out = *in\<close> copies a struct
  with its references, and the code then replaces each reference by a fresh copy.

  The contract of a deep copy is the locale \<open>deep_copier\<close>. The copies of the library structs
  (\<^verbatim>\<open>ObjectMeta\<close>, \<^verbatim>\<open>ListMeta\<close>, \<^verbatim>\<open>Condition\<close>) are parameters that are assumed to keep it, and the
  generated ones are shown to keep it then, each from the ones it calls. Theory
  \<open>Deep_Copy_Properties\<close> has the properties and a library that keeps the contract.
\<close>

section \<open>The code\<close>

text \<open>
  The copies of the libraries are only called on pointers into structs at hand, which are
  not nil. The zero values are those that \<^verbatim>\<open>new\<close> and \<^verbatim>\<open>make\<close> fill a variable with.
\<close>

record ('m, 'l, 'c, 'x) copiers =
  ObjectMeta_DeepCopyInto ::
    "var \<Rightarrow> var \<Rightarrow> ('m, 'l, 'c, 'x) heap \<Rightarrow> ('m, 'l, 'c, 'x) heap gores"
  ListMeta_DeepCopyInto ::
    "var \<Rightarrow> var \<Rightarrow> ('m, 'l, 'c, 'x) heap \<Rightarrow> ('m, 'l, 'c, 'x) heap gores"
  Condition_DeepCopyInto ::
    "var \<Rightarrow> var \<Rightarrow> ('m, 'l, 'c, 'x) heap \<Rightarrow> ('m, 'l, 'c, 'x) heap gores"
  zero_ObjectMeta :: 'm
  zero_ListMeta :: 'l
  zero_Condition :: 'c

definition zero_TypeMeta :: TypeMeta where
  "zero_TypeMeta = \<lparr>tm_APIVersion = [], tm_Kind = []\<rparr>"

definition zero_Core :: OpenStackLightspeedCore where
  "zero_Core = \<lparr>LLMEndpoint = [], LLMEndpointType = [], ModelName = [], LLMCredentials = [],
     TLSCACertBundle = [], MaxTokensForResponse = 0, CatalogSourceNamespace = [],
     CatalogSourceName = [], LLMProjectID = [], LLMDeploymentName = [], LLMAPIVersion = [],
     FeedbackDisabled = False, TranscriptsDisabled = False\<rparr>"

definition zero_Spec :: OpenStackLightspeedSpec where
  "zero_Spec = OpenStackLightspeedCore.extend zero_Core
     (OpenStackLightspeedSpec.fields [] False [])"

definition zero_Defaults :: OpenStackLightspeedDefaults where
  "zero_Defaults = \<lparr>RAGImageURL = [], DefaultMaxTokensForResponse = 0\<rparr>"

definition zero_Status :: Status_struct where
  "zero_Status = \<lparr>st_Conditions = None, st_ObservedGeneration = 0, st_ActiveOCPRAGVersion = []\<rparr>"

definition zero_OSL :: "('m, 'l, 'c, 'x) copiers \<Rightarrow> 'm OSL_struct" where
  "zero_OSL L = \<lparr>os_TypeMeta = zero_TypeMeta, os_ObjectMeta = zero_ObjectMeta L,
     os_Spec = zero_Spec, os_Status = zero_Status\<rparr>"

definition zero_List :: "('m, 'l, 'c, 'x) copiers \<Rightarrow> 'l List_struct" where
  "zero_List L = \<lparr>ls_TypeMeta = zero_TypeMeta, ls_ListMeta = zero_ListMeta L, ls_Items = None\<rparr>"

text \<open>\<^verbatim>\<open>&s[i]\<close>; indexing past the length panics, and so does indexing a nil slice.\<close>

definition index :: "slice option \<Rightarrow> nat \<Rightarrow> var gores" where
  "index so i = (case so of
     Some s \<Rightarrow> if i < slice_len s then GoOk (slice_array s, slice_offset s + i)
       else GoPanic ''index out of range''
   | None \<Rightarrow> GoPanic ''index out of range'')"

text \<open>
  \<^verbatim>\<open>for i := range *in { (*in)[i].DeepCopyInto(&(*out)[i]) }\<close>, where \<^verbatim>\<open>in\<close> and \<^verbatim>\<open>out\<close> point to slice
  headers, which every iteration reads anew.
\<close>

fun copy_elems ::
  "(('m, 'l, 'c, 'x) heap \<Rightarrow> slice option gores) \<Rightarrow> (('m, 'l, 'c, 'x) heap \<Rightarrow> slice option gores) \<Rightarrow>
   (var \<Rightarrow> var \<Rightarrow> ('m, 'l, 'c, 'x) heap \<Rightarrow> ('m, 'l, 'c, 'x) heap gores) \<Rightarrow>
   nat list \<Rightarrow> ('m, 'l, 'c, 'x) heap \<Rightarrow> ('m, 'l, 'c, 'x) heap gores" where
  "copy_elems inp out cp [] h = GoOk h"
| "copy_elems inp out cp (i # is) h =
     resThen (resThen (inp h) (\<lambda>s. index s i)) (\<lambda>p.
     resThen (resThen (out h) (\<lambda>s. index s i)) (\<lambda>q.
     resThen (cp p q h) (copy_elems inp out cp is)))"

text \<open>
  The block \<^verbatim>\<open>if in.F != nil { in, out := &in.F, &out.F; *out = make(T, len(*in)); for ... }\<close>.
  \<open>F\<close> is the access to the field, \<open>emb\<close> makes a block of elements and \<open>zero\<close> is their zero value.
\<close>

definition copy_slice ::
  "('p, ('m, 'l, 'c, 'x) block, slice option) access \<Rightarrow> ('t list \<Rightarrow> ('m, 'l, 'c, 'x) block) \<Rightarrow> 't \<Rightarrow>
   (var \<Rightarrow> var \<Rightarrow> ('m, 'l, 'c, 'x) heap \<Rightarrow> ('m, 'l, 'c, 'x) heap gores) \<Rightarrow>
   'p \<Rightarrow> 'p \<Rightarrow> ('m, 'l, 'c, 'x) heap \<Rightarrow> ('m, 'l, 'c, 'x) heap gores" where
  "copy_slice F emb zero cp p q h =
     resThen (load F p h) (\<lambda>so. case so of
       None \<Rightarrow> GoOk h
     | Some s \<Rightarrow>
         (case new_block (emb (replicate (slice_len s) zero)) h of (a, h1) \<Rightarrow>
          resThen (store F q (Some \<lparr>slice_array = a, slice_offset = 0, slice_len = slice_len s\<rparr>) h1)
            (\<lambda>h2. resThen (load F p h2) (\<lambda>so2.
               copy_elems (load F p) (load F q) cp
                 [0..<(case so2 of None \<Rightarrow> 0 | Some s2 \<Rightarrow> slice_len s2)] h2))))"

definition conditions_at :: "(var place, ('m, 'l, 'c, 'x) block, slice option) access" where
  "conditions_at = field status_at st_Conditions (\<lambda>c v. v\<lparr>st_Conditions := c\<rparr>)"

definition items_at :: "(var, ('m, 'l, 'c, 'x) block, slice option) access" where
  "items_at = field list_at ls_Items (\<lambda>c v. v\<lparr>ls_Items := c\<rparr>)"

text \<open>\<^verbatim>\<open>*out = *in\<close>\<close>

definition assign ::
  "('p, ('m, 'l, 'c, 'x) block, 't) access \<Rightarrow> 'p \<Rightarrow> 'p \<Rightarrow> ('m, 'l, 'c, 'x) heap \<Rightarrow>
   ('m, 'l, 'c, 'x) heap gores" where
  "assign A p q h = resThen (load A p h) (\<lambda>v. store A q v h)"

definition OpenStackLightspeedStatus_DeepCopyInto ::
  "('m, 'l, 'c, 'x) copiers \<Rightarrow> var place option \<Rightarrow> var place option \<Rightarrow> ('m, 'l, 'c, 'x) heap \<Rightarrow>
   ('m, 'l, 'c, 'x) heap gores" where
  "OpenStackLightspeedStatus_DeepCopyInto L inp out h =
     resThen (deref inp) (\<lambda>p. resThen (deref out) (\<lambda>q.
     resThen (assign status_at p q h)
       (copy_slice conditions_at Conds (zero_Condition L) (Condition_DeepCopyInto L) p q)))"

definition OpenStackLightspeed_DeepCopyInto ::
  "('m, 'l, 'c, 'x) copiers \<Rightarrow> var option \<Rightarrow> var option \<Rightarrow> ('m, 'l, 'c, 'x) heap \<Rightarrow>
   ('m, 'l, 'c, 'x) heap gores" where
  "OpenStackLightspeed_DeepCopyInto L inp out h =
     resThen (deref inp) (\<lambda>p. resThen (deref out) (\<lambda>q.
     resThen (assign osl_at p q h) (\<lambda>h1.
     resThen (load osl_at p h1) (\<lambda>v. resThen (load osl_at q h1) (\<lambda>w.
     resThen (store osl_at q (w\<lparr>os_TypeMeta := os_TypeMeta v\<rparr>) h1) (\<lambda>h2.
     resThen (ObjectMeta_DeepCopyInto L p q h2) (\<lambda>h3.
     resThen (assign spec_at (Within p) (Within q) h3)
       (OpenStackLightspeedStatus_DeepCopyInto L (Some (Within p)) (Some (Within q))))))))))"

definition OpenStackLightspeed_DeepCopy ::
  "('m, 'l, 'c, 'x) copiers \<Rightarrow> var option \<Rightarrow> ('m, 'l, 'c, 'x) heap \<Rightarrow>
   (var option \<times> ('m, 'l, 'c, 'x) heap) gores" where
  "OpenStackLightspeed_DeepCopy L inp h =
     (if inp = None then GoOk (None, h) else
      (case new_block (OSLs [zero_OSL L]) h of (a, h1) \<Rightarrow>
       resThen (OpenStackLightspeed_DeepCopyInto L inp (Some (a, 0)) h1)
         (\<lambda>h2. GoOk (Some (a, 0), h2))))"

text \<open>
  A value of the interface \<^verbatim>\<open>runtime.Object\<close>: nil, or a pointer with its type. An interface that
  holds a nil pointer is not nil.
\<close>

datatype runtime_Object =
    NilObject
  | OSLObject "var option"
  | OSLListObject "var option"

definition OpenStackLightspeed_DeepCopyObject ::
  "('m, 'l, 'c, 'x) copiers \<Rightarrow> var option \<Rightarrow> ('m, 'l, 'c, 'x) heap \<Rightarrow>
   (runtime_Object \<times> ('m, 'l, 'c, 'x) heap) gores" where
  "OpenStackLightspeed_DeepCopyObject L inp h =
     resThen (OpenStackLightspeed_DeepCopy L inp h) (\<lambda>(c, h1).
       if c \<noteq> None then GoOk (OSLObject c, h1) else GoOk (NilObject, h1))"

definition OpenStackLightspeedCore_DeepCopyInto ::
  "var place place option \<Rightarrow> var place place option \<Rightarrow> ('m, 'l, 'c, 'x) heap \<Rightarrow>
   ('m, 'l, 'c, 'x) heap gores" where
  "OpenStackLightspeedCore_DeepCopyInto inp out h =
     resThen (deref inp) (\<lambda>p. resThen (deref out) (\<lambda>q. assign core_at p q h))"

definition OpenStackLightspeedCore_DeepCopy ::
  "var place place option \<Rightarrow> ('m, 'l, 'c, 'x) heap \<Rightarrow>
   (var place place option \<times> ('m, 'l, 'c, 'x) heap) gores" where
  "OpenStackLightspeedCore_DeepCopy inp h =
     (if inp = None then GoOk (None, h) else
      (case new_block (Cores [zero_Core]) h of (a, h1) \<Rightarrow>
       resThen (OpenStackLightspeedCore_DeepCopyInto inp (Some (Own (a, 0))) h1)
         (\<lambda>h2. GoOk (Some (Own (a, 0)), h2))))"

definition OpenStackLightspeedDefaults_DeepCopyInto ::
  "var option \<Rightarrow> var option \<Rightarrow> ('m, 'l, 'c, 'x) heap \<Rightarrow> ('m, 'l, 'c, 'x) heap gores" where
  "OpenStackLightspeedDefaults_DeepCopyInto inp out h =
     resThen (deref inp) (\<lambda>p. resThen (deref out) (\<lambda>q. assign defaults_at p q h))"

definition OpenStackLightspeedDefaults_DeepCopy ::
  "var option \<Rightarrow> ('m, 'l, 'c, 'x) heap \<Rightarrow> (var option \<times> ('m, 'l, 'c, 'x) heap) gores" where
  "OpenStackLightspeedDefaults_DeepCopy inp h =
     (if inp = None then GoOk (None, h) else
      (case new_block (Defaults [zero_Defaults]) h of (a, h1) \<Rightarrow>
       resThen (OpenStackLightspeedDefaults_DeepCopyInto inp (Some (a, 0)) h1)
         (\<lambda>h2. GoOk (Some (a, 0), h2))))"

definition OpenStackLightspeedList_DeepCopyInto ::
  "('m, 'l, 'c, 'x) copiers \<Rightarrow> var option \<Rightarrow> var option \<Rightarrow> ('m, 'l, 'c, 'x) heap \<Rightarrow>
   ('m, 'l, 'c, 'x) heap gores" where
  "OpenStackLightspeedList_DeepCopyInto L inp out h =
     resThen (deref inp) (\<lambda>p. resThen (deref out) (\<lambda>q.
     resThen (assign list_at p q h) (\<lambda>h1.
     resThen (load list_at p h1) (\<lambda>v. resThen (load list_at q h1) (\<lambda>w.
     resThen (store list_at q (w\<lparr>ls_TypeMeta := ls_TypeMeta v\<rparr>) h1) (\<lambda>h2.
     resThen (ListMeta_DeepCopyInto L p q h2)
       (copy_slice items_at OSLs (zero_OSL L)
          (\<lambda>x y. OpenStackLightspeed_DeepCopyInto L (Some x) (Some y)) p q)))))))"

definition OpenStackLightspeedList_DeepCopy ::
  "('m, 'l, 'c, 'x) copiers \<Rightarrow> var option \<Rightarrow> ('m, 'l, 'c, 'x) heap \<Rightarrow>
   (var option \<times> ('m, 'l, 'c, 'x) heap) gores" where
  "OpenStackLightspeedList_DeepCopy L inp h =
     (if inp = None then GoOk (None, h) else
      (case new_block (OSLLists [zero_List L]) h of (a, h1) \<Rightarrow>
       resThen (OpenStackLightspeedList_DeepCopyInto L inp (Some (a, 0)) h1)
         (\<lambda>h2. GoOk (Some (a, 0), h2))))"

definition OpenStackLightspeedList_DeepCopyObject ::
  "('m, 'l, 'c, 'x) copiers \<Rightarrow> var option \<Rightarrow> ('m, 'l, 'c, 'x) heap \<Rightarrow>
   (runtime_Object \<times> ('m, 'l, 'c, 'x) heap) gores" where
  "OpenStackLightspeedList_DeepCopyObject L inp h =
     resThen (OpenStackLightspeedList_DeepCopy L inp h) (\<lambda>(c, h1).
       if c \<noteq> None then GoOk (OSLListObject c, h1) else GoOk (NilObject, h1))"

definition OpenStackLightspeedSpec_DeepCopyInto ::
  "var place option \<Rightarrow> var place option \<Rightarrow> ('m, 'l, 'c, 'x) heap \<Rightarrow>
   ('m, 'l, 'c, 'x) heap gores" where
  "OpenStackLightspeedSpec_DeepCopyInto inp out h =
     resThen (deref inp) (\<lambda>p. resThen (deref out) (\<lambda>q.
     resThen (assign spec_at p q h) (assign core_at (Within p) (Within q))))"

definition OpenStackLightspeedSpec_DeepCopy ::
  "var place option \<Rightarrow> ('m, 'l, 'c, 'x) heap \<Rightarrow>
   (var place option \<times> ('m, 'l, 'c, 'x) heap) gores" where
  "OpenStackLightspeedSpec_DeepCopy inp h =
     (if inp = None then GoOk (None, h) else
      (case new_block (Specs [zero_Spec]) h of (a, h1) \<Rightarrow>
       resThen (OpenStackLightspeedSpec_DeepCopyInto inp (Some (Own (a, 0))) h1)
         (\<lambda>h2. GoOk (Some (Own (a, 0)), h2))))"

definition OpenStackLightspeedStatus_DeepCopy ::
  "('m, 'l, 'c, 'x) copiers \<Rightarrow> var place option \<Rightarrow> ('m, 'l, 'c, 'x) heap \<Rightarrow>
   (var place option \<times> ('m, 'l, 'c, 'x) heap) gores" where
  "OpenStackLightspeedStatus_DeepCopy L inp h =
     (if inp = None then GoOk (None, h) else
      (case new_block (Statuses [zero_Status]) h of (a, h1) \<Rightarrow>
       resThen (OpenStackLightspeedStatus_DeepCopyInto L inp (Some (Own (a, 0))) h1)
         (\<lambda>h2. GoOk (Some (Own (a, 0)), h2))))"


section \<open>The contract of a deep copy\<close>

lemma assign_distinct:
  "load A p h = GoOk v \<Longrightarrow> assign A p q h = store A q v h"
  by (simp add: assign_def)

text \<open>
  The laws of one type of structs: its typing survives assignments and allocations, and its
  value depends on its own blocks alone.
\<close>

locale struct_laws = heap_typing S
  for S :: "('m, 'l, 'c, 'x, 'v) meaning" +
  fixes ok :: "('m, 'l, 'c, 'x) heap \<Rightarrow> 't \<Rightarrow> bool"
    and view :: "('m, 'l, 'c, 'x) heap \<Rightarrow> 't \<Rightarrow> 'u"
    and cells :: "('m, 'l, 'c, 'x) heap \<Rightarrow> 't \<Rightarrow> addr set"
  assumes ok_hext: "ok h v \<Longrightarrow> hext h k \<Longrightarrow> ok k v"
    and cells_used: "typed S h \<Longrightarrow> ok h v \<Longrightarrow> cells h v \<subseteq> used h"
    and frame: "typed S h \<Longrightarrow> ok h v \<Longrightarrow> same_on (cells h v) h k \<Longrightarrow>
          view k v = view h v \<and> cells k v = cells h v"

text \<open>Pointers to such structs: what they find is typed, and typed assignments keep the heap typed.\<close>

locale struct_access = struct_laws S ok view cells + accessible A
  for S :: "('m, 'l, 'c, 'x, 'v) meaning"
    and A :: "('p, ('m, 'l, 'c, 'x) block, 't) access"
    and ok :: "('m, 'l, 'c, 'x) heap \<Rightarrow> 't \<Rightarrow> bool"
    and view :: "('m, 'l, 'c, 'x) heap \<Rightarrow> 't \<Rightarrow> 'u"
    and cells :: "('m, 'l, 'c, 'x) heap \<Rightarrow> 't \<Rightarrow> addr set" +
  assumes get_ok: "block_ok S h b \<Longrightarrow> get_in A p b = Some v \<Longrightarrow> ok h v"
    and put_ok: "block_ok S h b \<Longrightarrow> get_in A p b = Some v \<Longrightarrow> ok h w \<Longrightarrow>
          block_ok S h (put_in A p w b)"
begin

lemma load_ok: "typed S h \<Longrightarrow> load A p h = GoOk v \<Longrightarrow> ok h v"
  by (auto simp: load_iff intro: get_ok typed_block)

lemma typed_store:
  assumes h: "typed S h" and w: "ok h w" and k: "store A p w h = GoOk k"
  shows "typed S k"
proof -
  from k obtain b v where b: "blocks h (base A p) = Some b" "get_in A p b = Some v"
    "k = h\<lparr>blocks := (blocks h)(base A p \<mapsto> put_in A p w b)\<rparr>"
    by (rule storeE)
  have "block_ok S h (put_in A p w b)"
    using put_ok [OF typed_block [OF h b(1)] b(2) w] .
  then have "block_ok S h c" if "blocks k i = Some c" for i c
    using that b(3) typed_block [OF h] by (auto split: if_splits)
  then have "block_ok S k c" if "blocks k i = Some c" for i c
    using that store_hext [OF k] block_ok_hext by blast
  with h b show ?thesis
    by (auto simp: typed_def)
qed

text \<open>A struct is not affected by what is written elsewhere.\<close>

lemma frame_written:
  assumes "typed S h" "ok h v" "same_on (used h - {a}) h k" "a \<notin> cells h v"
  shows "view k v = view h v" and "cells k v = cells h v"
proof -
  have "cells h v \<subseteq> used h - {a}"
    using assms(4) cells_used [OF assms(1,2)] by auto
  then have "same_on (cells h v) h k"
    by (rule same_on_mono [OF assms(3)])
  then show "view k v = view h v" and "cells k v = cells h v"
    using frame [OF assms(1,2)] by auto
qed

text \<open>How every copy begins: \<^verbatim>\<open>*out = *in\<close>.\<close>

lemma shallow_start:
  assumes h: "typed S h" and p: "load A p h = GoOk v" and q: "load A q h = GoOk u"
    and pq: "p \<noteq> q" "base A q \<notin> cells h v"
  obtains h1 where "store A q v h = GoOk h1" and "written A q v h h1" and "typed S h1"
    and "load A p h1 = GoOk v" and "load A q h1 = GoOk v"
    and "view h1 v = view h v" and "cells h1 v = cells h v" and "used h1 = used h"
proof -
  have ok: "ok h v" by (rule load_ok [OF h p])
  obtain h1 where h1: "store A q v h = GoOk h1"
    using store_loaded [OF q] by blast
  note w = written_store [OF h1]
  show ?thesis
    by (rule that [OF h1 w typed_store [OF h ok h1] written_other [OF w pq(1) p] load_stored [OF h1]
          frame_written [OF h ok written_same_on [OF w] pq(2)] store_used [OF h1]])
qed

end

text \<open>
  The outcome of a deep copy of the struct \<open>v\<close> into the variable of \<open>q\<close>: only that variable
  has changed, and holds a struct of the same value whose blocks are all new.
\<close>

definition copied ::
  "('m, 'l, 'c, 'x, 'v) meaning \<Rightarrow> ('p, ('m, 'l, 'c, 'x) block, 't) access \<Rightarrow>
   (('m, 'l, 'c, 'x) heap \<Rightarrow> 't \<Rightarrow> bool) \<Rightarrow> (('m, 'l, 'c, 'x) heap \<Rightarrow> 't \<Rightarrow> 'u) \<Rightarrow>
   (('m, 'l, 'c, 'x) heap \<Rightarrow> 't \<Rightarrow> addr set) \<Rightarrow>
   ('m, 'l, 'c, 'x) heap \<Rightarrow> 't \<Rightarrow> 'p \<Rightarrow> 't \<Rightarrow> ('m, 'l, 'c, 'x) heap \<Rightarrow> bool" where
  "copied S A ok view cells h v q w k \<longleftrightarrow>
     written A q w h k \<and> typed S k \<and> ok k w \<and> view k w = view h v \<and> cells k w \<inter> used h = {}"

definition keeps_copy_contract ::
  "('m, 'l, 'c, 'x, 'v) meaning \<Rightarrow> ('p, ('m, 'l, 'c, 'x) block, 't) access \<Rightarrow>
   (('m, 'l, 'c, 'x) heap \<Rightarrow> 't \<Rightarrow> bool) \<Rightarrow> (('m, 'l, 'c, 'x) heap \<Rightarrow> 't \<Rightarrow> 'u) \<Rightarrow>
   (('m, 'l, 'c, 'x) heap \<Rightarrow> 't \<Rightarrow> addr set) \<Rightarrow>
   ('p \<Rightarrow> 'p \<Rightarrow> ('m, 'l, 'c, 'x) heap \<Rightarrow> ('m, 'l, 'c, 'x) heap gores) \<Rightarrow> bool" where
  "keeps_copy_contract S A ok view cells cp \<longleftrightarrow> (\<forall>p q h v u.
     typed S h \<longrightarrow> load A p h = GoOk v \<longrightarrow> load A q h = GoOk u \<longrightarrow> p \<noteq> q \<longrightarrow>
     base A q \<notin> cells h v \<longrightarrow> (\<exists>w k. cp p q h = GoOk k \<and> copied S A ok view cells h v q w k))"

context struct_access
begin

lemma shallow_copied:
  assumes "typed S h" "load A p h = GoOk v" "load A q h = GoOk u" "p \<noteq> q" "cells h v = {}"
  shows "\<exists>k. store A q v h = GoOk k \<and> copied S A ok view cells h v q v k"
proof -
  have "base A q \<notin> cells h v" using assms(5) by simp
  then show ?thesis
    by (rule shallow_start [OF assms(1-4)]) (auto simp: copied_def assms(5) intro: load_ok)
qed

lemma plain_contract:
  "(\<And>h v. cells h v = {}) \<Longrightarrow> keeps_copy_contract S A ok view cells (assign A)"
  using shallow_copied by (fastforce simp: keeps_copy_contract_def assign_distinct)

end

locale deep_copier = struct_access S A ok view cells
  for S :: "('m, 'l, 'c, 'x, 'v) meaning"
    and A :: "('p, ('m, 'l, 'c, 'x) block, 't) access"
    and ok :: "('m, 'l, 'c, 'x) heap \<Rightarrow> 't \<Rightarrow> bool"
    and view :: "('m, 'l, 'c, 'x) heap \<Rightarrow> 't \<Rightarrow> 'u"
    and cells :: "('m, 'l, 'c, 'x) heap \<Rightarrow> 't \<Rightarrow> addr set" +
  fixes cp :: "'p \<Rightarrow> 'p \<Rightarrow> ('m, 'l, 'c, 'x) heap \<Rightarrow> ('m, 'l, 'c, 'x) heap gores"
  assumes contract: "keeps_copy_contract S A ok view cells cp"
begin

lemma copies:
  assumes "typed S h" "load A p h = GoOk v" "load A q h = GoOk u" "p \<noteq> q" "base A q \<notin> cells h v"
  obtains w k where "cp p q h = GoOk k" and "copied S A ok view cells h v q w k"
  using contract assms unfolding keeps_copy_contract_def by meson

text \<open>
  A copy into a new variable. Whatever is done afterwards to the blocks of the copy, the
  original keeps its value, and the other way round.
\<close>

lemma copies_to_new:
  assumes h: "typed S h" and v: "load A p h = GoOk v"
    and b: "block_ok S h b" and hb: "new_block b h = (base A q, h1)" and q: "get_in A q b = Some u"
  shows "\<exists>w k. cp p q h1 = GoOk k \<and> typed S k \<and> extends h k \<and> load A q k = GoOk w \<and>
     view k w = view h v \<and> insert (base A q) (cells k w) \<inter> used h = {}"
proof -
  note new = typed_new [OF h b hb]
  have ok: "ok h v" by (rule load_ok [OF h v])
  have p1: "load A p h1 = GoOk v" and pq: "base A p \<noteq> base A q"
    using load_extends [OF new(2) v] load_used [OF v] new(3) by auto
  have "same_on (used h) h h1"
    using new(2) by (simp add: extends_iff_same_on)
  then have f: "view h1 v = view h v" "cells h1 v = cells h v"
    using frame_written [OF h ok, of "base A q" h1] new(3) cells_used [OF h ok]
    by (auto intro: same_on_mono)
  have "load A q h1 = GoOk u"
    using new(4) q by (simp add: load_iff)
  with new(1) p1 pq f(2) new(3) cells_used [OF h ok]
  obtain w k where k: "cp p q h1 = GoOk k" "copied S A ok view cells h1 v q w k"
    by (rule_tac copies [of h1 p v q u]) auto
  then have w: "written A q w h1 k" "typed S k" "view k w = view h v" "cells k w \<inter> used h1 = {}"
    using f(1) by (simp_all add: copied_def)
  have "same_on (used h) h1 k"
    using written_same_on [OF w(1)] new(3,5) by (auto intro: same_on_mono)
  with new(2) have "extends h k"
    by (auto simp: extends_iff_same_on intro: same_on_trans)
  moreover have "insert (base A q) (cells k w) \<inter> used h = {}"
    using w(4) new(3,5) by auto
  ultimately show ?thesis
    using k(1) w(2,3) written_load [OF w(1)] by blast
qed

end


text \<open>
  A struct with a part that is a struct: the shallow copy followed by the copy of the part.
\<close>

locale part_copier = field_access A rd wr + whole: struct_access S A ok view cells +
  part: deep_copier S F okF viewF cellsF cp
  for S :: "('m, 'l, 'c, 'x, 'v) meaning"
    and A :: "('p, ('m, 'l, 'c, 'x) block, 't) access"
    and rd :: "'t \<Rightarrow> 'f" and wr :: "'f \<Rightarrow> 't \<Rightarrow> 't"
    and F :: "('p, ('m, 'l, 'c, 'x) block, 'f) access"
    and ok :: "('m, 'l, 'c, 'x) heap \<Rightarrow> 't \<Rightarrow> bool"
    and view :: "('m, 'l, 'c, 'x) heap \<Rightarrow> 't \<Rightarrow> 'u"
    and cells :: "('m, 'l, 'c, 'x) heap \<Rightarrow> 't \<Rightarrow> addr set"
    and okF :: "('m, 'l, 'c, 'x) heap \<Rightarrow> 'f \<Rightarrow> bool"
    and viewF :: "('m, 'l, 'c, 'x) heap \<Rightarrow> 'f \<Rightarrow> 'w"
    and cellsF :: "('m, 'l, 'c, 'x) heap \<Rightarrow> 'f \<Rightarrow> addr set"
    and cp :: "'p \<Rightarrow> 'p \<Rightarrow> ('m, 'l, 'c, 'x) heap \<Rightarrow> ('m, 'l, 'c, 'x) heap gores" +
  assumes part_field: "F = field A rd wr"
    and part_cells: "cellsF h (rd v) \<subseteq> cells h v"
begin

lemma shallow_then_part:
  assumes h: "typed S h" and p: "load A p h = GoOk v" and q: "load A q h = GoOk u"
    and pq: "p \<noteq> q" "base A q \<notin> cells h v"
  obtains h1 m k where "store A q v h = GoOk h1" and "load A p h1 = GoOk v"
    and "load A q h1 = GoOk v" and "cp p q h1 = GoOk k" and "written A q (wr m v) h k"
    and "typed S k" and "okF k m" and "viewF k m = viewF h (rd v)" and "cellsF k m \<inter> used h = {}"
proof -
  obtain h1 where h1: "store A q v h = GoOk h1" and w1: "written A q v h h1" and t1: "typed S h1"
    and p1: "load A p h1 = GoOk v" and q1: "load A q h1 = GoOk v" and u1: "used h1 = used h"
    by (rule whole.shallow_start [OF h p q pq])
  have m: "load F p h = GoOk (rd v)" "load F p h1 = GoOk (rd v)" "load F q h1 = GoOk (rd v)"
    using p p1 q1 by (auto simp: part_field load_field)
  have qm: "base A q \<notin> cellsF h (rd v)"
    using pq(2) part_cells by blast
  note f = part.frame_written [OF h part.load_ok [OF h m(1)] written_same_on [OF w1] qm]
  have "base F q \<notin> cellsF h1 (rd v)"
    using qm f(2) by (simp add: part_field)
  then obtain w k where k: "cp p q h1 = GoOk k" "copied S F okF viewF cellsF h1 (rd v) q w k"
    by (rule part.copies [OF t1 m(2,3) pq(1)])
  then have w: "written (field A rd wr) q w h1 k" "typed S k" "okF k w"
    "viewF k w = viewF h (rd v)" "cellsF k w \<inter> used h = {}"
    using f(1) u1 by (simp_all add: copied_def part_field)
  show ?thesis
    by (rule that [OF h1 p1 q1 k(1) written_field [OF w1 w(1)] w(2-5)])
qed

end

section \<open>Slices\<close>

locale element_copier = block_kind prj emb + elem: deep_copier S "own prj emb" ok view cells cp
  for prj :: "('m, 'l, 'c, 'x) block \<Rightarrow> 't list option"
    and emb :: "'t list \<Rightarrow> ('m, 'l, 'c, 'x) block"
    and S :: "('m, 'l, 'c, 'x, 'v) meaning"
    and ok :: "('m, 'l, 'c, 'x) heap \<Rightarrow> 't \<Rightarrow> bool"
    and view :: "('m, 'l, 'c, 'x) heap \<Rightarrow> 't \<Rightarrow> 'u"
    and cells :: "('m, 'l, 'c, 'x) heap \<Rightarrow> 't \<Rightarrow> addr set"
    and cp :: "var \<Rightarrow> var \<Rightarrow> ('m, 'l, 'c, 'x) heap \<Rightarrow> ('m, 'l, 'c, 'x) heap gores"
begin

lemma load_elem: "blocks h a = Some (emb xs) \<Longrightarrow> i < length xs \<Longrightarrow> load (own prj emb) (a, i) h = GoOk (xs ! i)"
  by (simp add: load_iff own_get_iff)

lemma written_elem:
  assumes "written (own prj emb) (a, i) w h k" and "blocks h a = Some (emb xs)"
  shows "blocks k a = Some (emb (xs[i := w]))"
proof -
  from assms(1) obtain hs where hs: "store (own prj emb) (a, i) w h = GoOk hs" "extends hs k"
    by (auto simp: written_def)
  from hs(1) assms(2) have "blocks hs a = Some (emb (xs[i := w]))"
    by (auto elim!: storeE)
  then show ?thesis by (rule extends_Some [OF hs(2)])
qed

lemma elem_ok: "typed S h \<Longrightarrow> blocks h a = Some (emb xs) \<Longrightarrow> x \<in> set xs \<Longrightarrow> ok h x"
  by (auto simp: in_set_conv_nth intro: elem.load_ok load_elem)

lemma elems_ok: "typed S h \<Longrightarrow> slice_ok prj h (Some s) \<Longrightarrow> x \<in> set (elems prj h s) \<Longrightarrow> ok h x"
  by (auto simp: slice_ok_Some elems_eq intro: elem_ok dest!: in_set_takeD in_set_dropD)

lemma slice_cells_used: "typed S h \<Longrightarrow> slice_ok prj h so \<Longrightarrow> slice_cells prj cells h so \<subseteq> used h"
  using elem.cells_used elems_ok
  by (cases so) (fastforce simp: slice_cells_def slice_ok_Some)+

lemma slice_frame:
  assumes h: "typed S h" "slice_ok prj h so" and k: "same_on (slice_cells prj cells h so) h k"
  shows "slice_view prj view k so = slice_view prj view h so \<and>
         slice_cells prj cells k so = slice_cells prj cells h so"
proof (cases so)
  case (Some s)
  have el: "elems prj k s = elems prj h s"
    using k Some by (simp add: same_on_def slice_cells_def elems_def array_at_def)
  have "view k x = view h x \<and> cells k x = cells h x" if "x \<in> set (elems prj h s)" for x
  proof (rule elem.frame)
    show "ok h x" using elems_ok [OF h(1)] h(2) Some that by auto
    show "same_on (cells h x) h k"
      by (rule same_on_mono [OF k]) (use Some that in \<open>auto simp: slice_cells_def\<close>)
  qed (rule h)
  with el Some show ?thesis by (auto simp: slice_view_def slice_cells_def)
qed simp

lemma copy_elems_append:
  "copy_elems inp out cp (is @ js) =
     (\<lambda>h. resThen (copy_elems inp out cp is h) (copy_elems inp out cp js))"
proof (induction "is")
  case (Cons i "is")
  then show ?case by (intro ext) (simp add: resThen_assoc)
qed simp

text \<open>What has been copied after \<open>i\<close> iterations of the loop, into the block \<open>a\<close>.\<close>

definition copied_upto ::
  "('m, 'l, 'c, 'x) heap \<Rightarrow> slice \<Rightarrow> addr \<Rightarrow> nat \<Rightarrow> ('m, 'l, 'c, 'x) heap \<Rightarrow> 't list \<Rightarrow> bool" where
  "copied_upto h s a i k ys \<longleftrightarrow> typed S k \<and> same_on (used h - {a}) h k \<and> used h \<subseteq> used k \<and>
     blocks k a = Some (emb ys) \<and> length ys = slice_len s \<and>
     (\<forall>j<i. view k (ys ! j) = view h (elems prj h s ! j) \<and> cells k (ys ! j) \<inter> used h = {})"

lemma copied_upto_Suc:
  assumes h: "typed S h" "slice_ok prj h (Some s)"
    and a: "a \<in> used h" "a \<notin> slice_cells prj cells h (Some s)"
    and i: "i < slice_len s" and k: "copied_upto h s a i k ys"
  shows "\<exists>l zs. cp (slice_array s, slice_offset s + i) (a, i) k = GoOk l \<and>
     copied_upto h s a (Suc i) l zs"
proof -
  define x where "x = elems prj h s ! i"
  from h(2) obtain xs where xs: "blocks h (slice_array s) = Some (emb xs)"
    "slice_offset s + slice_len s \<le> length xs"
    by (auto simp: slice_ok_Some)
  then have "length (elems prj h s) = slice_len s"
    by (simp add: elems_eq)
  with xs i have x: "xs ! (slice_offset s + i) = x" "x \<in> set (elems prj h s)"
    by (simp add: x_def elems_eq, simp add: x_def)
  have sa: "slice_array s \<noteq> a" and xa: "a \<notin> cells h x"
    using a(2) x(2) by (auto simp: slice_cells_def)
  have k': "typed S k" "same_on (used h - {a}) h k" "used h \<subseteq> used k"
    "blocks k a = Some (emb ys)" "length ys = slice_len s"
    using k by (simp_all add: copied_upto_def)
  have okx: "ok h x" by (rule elems_ok [OF h x(2)])
  have fx: "view k x = view h x" "cells k x = cells h x"
    using elem.frame_written [OF h(1) okx k'(2) xa] by auto
  have "blocks k (slice_array s) = Some (emb xs)"
    using k'(2) xs(1) sa unfolding same_on_def by (metis DiffI domI singletonD)
  then have lx: "load (own prj emb) (slice_array s, slice_offset s + i) k = GoOk x"
    using load_elem xs(2) i x(1) by (metis add_less_cancel_left less_le_trans)
  have ly: "load (own prj emb) (a, i) k = GoOk (ys ! i)"
    using load_elem k'(4,5) i by simp
  have "(slice_array s, slice_offset s + i) \<noteq> (a, i)" "base (own prj emb) (a, i) \<notin> cells k x"
    using sa xa fx(2) by simp_all
  then obtain w l where l: "cp (slice_array s, slice_offset s + i) (a, i) k = GoOk l"
    "copied S (own prj emb) ok view cells k x (a, i) w l"
    by (rule elem.copies [OF k'(1) lx ly])
  then have w: "written (own prj emb) (a, i) w k l" "typed S l" "ok l w" "view l w = view h x"
    "cells l w \<inter> used k = {}"
    using fx(1) by (simp_all add: copied_def)
  have kl: "same_on (used k - {a}) k l" "used k \<subseteq> used l"
    using written_same_on [OF w(1)] written_used [OF w(1)] by simp_all
  have "same_on (used h - {a}) k l"
    by (rule same_on_mono [OF kl(1)]) (use k'(3) in auto)
  then have hl: "same_on (used h - {a}) h l"
    by (rule same_on_trans [OF k'(2)])
  have la: "blocks l a = Some (emb (ys[i := w]))"
    using written_elem [OF w(1) k'(4)] .
  have "view l (ys ! j) = view h (elems prj h s ! j) \<and> cells l (ys ! j) \<inter> used h = {}"
    if j: "j < i" for j
  proof -
    have kj: "view k (ys ! j) = view h (elems prj h s ! j)" "cells k (ys ! j) \<inter> used h = {}"
      using k j by (simp_all add: copied_upto_def)
    moreover have "ok k (ys ! j)"
      using elem_ok [OF k'(1,4)] k'(5) i j by simp
    ultimately show ?thesis
      using elem.frame_written [OF k'(1) _ kl(1), of "ys ! j"] a(1) by auto
  qed
  moreover have "used h \<subseteq> used l" "cells l w \<inter> used h = {}"
    using k'(3) kl(2) w(5) by blast+
  ultimately have "copied_upto h s a (Suc i) l (ys[i := w])"
    using w(2,4) hl k'(5) la i x_def
    by (auto simp: copied_upto_def less_Suc_eq)
  with l(1) show ?thesis by blast
qed

lemma copy_elems_upto:
  assumes h: "typed S h" "slice_ok prj h (Some s)"
    and a: "blocks h a = Some (emb ys)" "length ys = slice_len s"
    and sa: "a \<notin> slice_cells prj cells h (Some s)"
    and inp: "\<And>k. same_on (used h - {a}) h k \<Longrightarrow> inp k = GoOk (Some s)"
    and out: "\<And>k. same_on (used h - {a}) h k \<Longrightarrow> out k = GoOk (Some \<lparr>slice_array = a,
        slice_offset = 0, slice_len = slice_len s\<rparr>)"
    and i: "i \<le> slice_len s"
  shows "\<exists>k zs. copy_elems inp out cp [0..<i] h = GoOk k \<and> copied_upto h s a i k zs"
  using i
proof (induction i)
  case 0
  with h(1) a show ?case by (simp add: copied_upto_def same_on_def)
next
  case (Suc i)
  then obtain k zs where k: "copy_elems inp out cp [0..<i] h = GoOk k" "copied_upto h s a i k zs"
    by auto
  then have "same_on (used h - {a}) h k" by (simp add: copied_upto_def)
  then have hd: "resThen (inp k) (\<lambda>s. index s i) = GoOk (slice_array s, slice_offset s + i)"
    "resThen (out k) (\<lambda>s. index s i) = GoOk (a, i)"
    using inp out Suc.prems by (simp_all add: index_def)
  obtain l ws where "cp (slice_array s, slice_offset s + i) (a, i) k = GoOk l"
    "copied_upto h s a (Suc i) l ws"
    using copied_upto_Suc [OF h _ sa _ k(2)] a(1) Suc.prems by auto
  with k(1) hd show ?case by (auto simp: copy_elems_append)
qed

end


text \<open>
  A field of a struct that holds a slice. The struct has been copied shallowly, so both
  fields hold the same slice when the copy starts.
\<close>

locale slice_copier = element_copier prj emb S ok view cells cp +
  hdr: struct_access S F "slice_ok prj" "slice_view prj view" "slice_cells prj cells"
  for prj :: "('m, 'l, 'c, 'x) block \<Rightarrow> 't list option"
    and emb :: "'t list \<Rightarrow> ('m, 'l, 'c, 'x) block"
    and S :: "('m, 'l, 'c, 'x, 'v) meaning"
    and ok :: "('m, 'l, 'c, 'x) heap \<Rightarrow> 't \<Rightarrow> bool"
    and view :: "('m, 'l, 'c, 'x) heap \<Rightarrow> 't \<Rightarrow> 'u"
    and cells :: "('m, 'l, 'c, 'x) heap \<Rightarrow> 't \<Rightarrow> addr set"
    and cp :: "var \<Rightarrow> var \<Rightarrow> ('m, 'l, 'c, 'x) heap \<Rightarrow> ('m, 'l, 'c, 'x) heap gores"
    and F :: "('p, ('m, 'l, 'c, 'x) block, slice option) access" +
  fixes zero :: 't
  assumes emb_ok: "(\<And>x. x \<in> set xs \<Longrightarrow> ok h x) \<Longrightarrow> block_ok S h (emb xs)"
    and zero_ok: "ok h zero"
begin

lemma copied_upto_all:
  assumes k: "copied_upto h s a (slice_len s) k ys" and s: "slice_ok prj h (Some s)"
    and t: "t = \<lparr>slice_array = a, slice_offset = 0, slice_len = slice_len s\<rparr>"
  shows "slice_ok prj k (Some t)"
    and "slice_view prj view k (Some t) = slice_view prj view h (Some s)"
    and "slice_cells prj cells k (Some t) \<inter> used h \<subseteq> {a}"
proof -
  have ys: "blocks k a = Some (emb ys)" "length ys = slice_len s"
    and el: "\<forall>j < slice_len s. view k (ys ! j) = view h (elems prj h s ! j) \<and>
      cells k (ys ! j) \<inter> used h = {}"
    using k by (simp_all add: copied_upto_def)
  have et: "elems prj k t = ys"
    using ys t by (simp add: elems_eq)
  show "slice_ok prj k (Some t)"
    using ys t by (simp add: slice_ok_Some)
  have "length (elems prj h s) = slice_len s"
    using s by (auto simp: slice_ok_Some elems_eq)
  with el ys(2) have "map (view k) ys = map (view h) (elems prj h s)"
    by (simp add: list_eq_iff_nth_eq)
  with et show "slice_view prj view k (Some t) = slice_view prj view h (Some s)"
    by (simp add: slice_view_def)
  have "cells k y \<inter> used h = {}" if "y \<in> set ys" for y
    using el that ys(2) by (auto simp: in_set_conv_nth)
  moreover have "slice_cells prj cells k (Some t) = insert a (\<Union>y\<in>set ys. cells k y)"
    using et by (simp add: slice_cells_def t)
  ultimately show "slice_cells prj cells k (Some t) \<inter> used h \<subseteq> {a}"
    by blast
qed

lemma copy_slice_copies:
  assumes h: "typed S h" and p: "load F p h = GoOk so" and q: "load F q h = GoOk so"
    and pq: "p \<noteq> q" "base F q \<notin> slice_cells prj cells h so"
  shows "\<exists>w k. copy_slice F emb zero cp p q h = GoOk k \<and>
    copied S F (slice_ok prj) (slice_view prj view) (slice_cells prj cells) h so q w k"
proof (cases so)
  case None
  have "written F q None h h"
    using hdr.written_store [OF hdr.store_same [OF q]] None by simp
  then have "copied S F (slice_ok prj) (slice_view prj view) (slice_cells prj cells) h so q None h"
    using h None by (simp add: copied_def)
  moreover have "copy_slice F emb zero cp p q h = GoOk h"
    using p None by (simp add: copy_slice_def)
  ultimately show ?thesis by blast
next
  case (Some s)
  define t where "t a = \<lparr>slice_array = a, slice_offset = 0, slice_len = slice_len s\<rparr>" for a
  obtain a h1 where new: "new_block (emb (replicate (slice_len s) zero)) h = (a, h1)"
    by (cases "new_block (emb (replicate (slice_len s) zero)) h")
  have "block_ok S h (emb (replicate (slice_len s) zero))"
    by (rule emb_ok) (simp add: zero_ok)
  note n = elem.typed_new [OF h this new]
  have s: "slice_ok prj h (Some s)"
    using hdr.load_ok [OF h p] Some by simp
  obtain h2 where h2: "store F q (Some (t a)) h1 = GoOk h2"
    using hdr.store_loaded [OF hdr.load_extends [OF n(2) q]] by blast
  have t2: "typed S h2"
    by (rule hdr.typed_store [OF n(1) _ h2]) (simp add: slice_ok_Some t_def n(4))
  have u2: "used h2 = insert a (used h)"
    using hdr.store_used [OF h2] n(5) by simp
  have aq: "base F q \<noteq> a" "base F p \<noteq> a"
    using hdr.load_used [OF q] hdr.load_used [OF p] n(3) by auto
  have w1: "written F q (Some (t a)) h h2"
  proof -
    obtain hs where hs: "store F q (Some (t a)) h = GoOk hs"
      using hdr.store_loaded [OF q] by blast
    with n(2) obtain k where "store F q (Some (t a)) h1 = GoOk k" "extends hs k"
      by (rule hdr.store_extends)
    with hs h2 show ?thesis by (simp add: written_def)
  qed
  have ph2: "load F p h2 = GoOk (Some s)"
    using hdr.written_other [OF w1 pq(1) p] Some by simp
  have fs: "slice_view prj view h2 (Some s) = slice_view prj view h (Some s)"
      "slice_cells prj cells h2 (Some s) = slice_cells prj cells h (Some s)"
    using hdr.frame_written [OF h s hdr.written_same_on [OF w1]] pq(2) Some by simp_all
  have b2: "blocks h2 a = Some (emb (replicate (slice_len s) zero))"
    using hdr.store_same_on [OF h2, of "{a}"] aq(1) n(4) by (simp add: same_on_def)
  have s2: "slice_ok prj h2 (Some s)" by (rule hdr.load_ok [OF t2 ph2])
  have a2: "a \<notin> slice_cells prj cells h2 (Some s)"
    using fs(2) slice_cells_used [OF h s] n(3) by auto
  have hd: "load F p k = GoOk (Some s)" "load F q k = GoOk (Some (t a))"
    if "same_on (used h2 - {a}) h2 k" for k
    using that ph2 hdr.load_stored [OF h2] aq hdr.load_used [OF p] hdr.load_used [OF q] u2
    by (simp_all add: hdr.load_same_on)
  obtain k ys where k: "copy_elems (load F p) (load F q) cp [0..<slice_len s] h2 = GoOk k"
    "copied_upto h2 s a (slice_len s) k ys"
    using copy_elems_upto [OF t2 s2 b2 _ a2, of "load F p" "load F q" "slice_len s"] hd
    by (auto simp: t_def)
  have "same_on (used h2 - {a}) h2 k" and tk: "typed S k"
    using k(2) by (simp_all add: copied_upto_def)
  then have "same_on (used h) h2 k"
    using u2 n(3) by (auto intro: same_on_mono)
  then have "written F q (Some (t a)) h k"
    by (rule hdr.written_later [OF w1])
  then have "copied S F (slice_ok prj) (slice_view prj view) (slice_cells prj cells) h so q
      (Some (t a)) k"
    using copied_upto_all [OF k(2) s2 t_def] tk fs(1) Some u2 n(3) by (auto simp: copied_def)
  moreover have "copy_slice F emb zero cp p q h = GoOk k"
    using p Some new h2 ph2 k(1) by (simp add: copy_slice_def t_def)
  ultimately show ?thesis by blast
qed

end


section \<open>From the libraries' copies to the program's\<close>

interpretation conditions: field_access status_at st_Conditions "\<lambda>c v. v\<lparr>st_Conditions := c\<rparr>"
  rewrites "field status_at st_Conditions (\<lambda>c v. v\<lparr>st_Conditions := c\<rparr>) = conditions_at"
  by unfold_locales (simp_all add: conditions_at_def)

interpretation items: field_access list_at ls_Items "\<lambda>c v. v\<lparr>ls_Items := c\<rparr>"
  rewrites "field list_at ls_Items (\<lambda>c v. v\<lparr>ls_Items := c\<rparr>) = items_at"
  by unfold_locales (simp_all add: items_at_def)

text \<open>
  What is assumed of the libraries: their structs obey the laws, zero values are well
  typed, and their copies keep the contract.
\<close>

locale copy_library =
  meta_laws: struct_laws S "meta_ok S" "meta_view S" "meta_cells S" +
  listmeta_laws: struct_laws S "listmeta_ok S" "listmeta_view S" "listmeta_cells S" +
  cond_laws: struct_laws S "cond_ok S" "cond_view S" "cond_cells S"
  for S :: "('m, 'l, 'c, 'x, 'v) meaning" +
  fixes L :: "('m, 'l, 'c, 'x) copiers"
  assumes zero_ok: "meta_ok S h (zero_ObjectMeta L)" "listmeta_ok S h (zero_ListMeta L)"
      "cond_ok S h (zero_Condition L)"
    and meta_contract: "keeps_copy_contract S meta_at (meta_ok S) (meta_view S) (meta_cells S)
      (ObjectMeta_DeepCopyInto L)"
    and listmeta_contract: "keeps_copy_contract S listmeta_at (listmeta_ok S) (listmeta_view S)
      (listmeta_cells S) (ListMeta_DeepCopyInto L)"
    and cond_contract: "keeps_copy_contract S cond_at (cond_ok S) (cond_view S) (cond_cells S)
      (Condition_DeepCopyInto L)"

text \<open>A field whose typing is part of the typing of its struct.\<close>

lemma list_all_update: "list_all P xs \<Longrightarrow> P x \<Longrightarrow> list_all P (xs[i := x])"
  using set_update_subset_insert [of xs i x] by (auto simp: list_all_iff)

lemma osl_at_block_ok:
  "block_ok S h b \<Longrightarrow> get_in osl_at p b = Some v \<Longrightarrow> osl_ok S h v"
  "block_ok S h b \<Longrightarrow> get_in osl_at p b = Some v \<Longrightarrow> osl_ok S h w \<Longrightarrow> block_ok S h (put_in osl_at p w b)"
  by (auto simp: osl.own_get_iff list_all_length nth_list_update)

lemma list_at_block_ok:
  "block_ok S h b \<Longrightarrow> get_in list_at p b = Some v \<Longrightarrow> list_ok S h v"
  "block_ok S h b \<Longrightarrow> get_in list_at p b = Some v \<Longrightarrow> list_ok S h w \<Longrightarrow> block_ok S h (put_in list_at p w b)"
  by (auto simp: osllist.own_get_iff list_all_length nth_list_update)

lemma status_at_block_ok:
  assumes "block_ok S h b" and "get_in status_at p b = Some v"
  shows "status_ok h v" and "status_ok h w \<Longrightarrow> block_ok S h (put_in status_at p w b)"
proof -
  show "status_ok h v"
    using assms osl_at_block_ok(1) [of S h b]
    by (cases p) (auto simp: statuses.own_get_iff osl_status.field_get_iff list_all_length osl_ok_def)
  show "block_ok S h (put_in status_at p w b)" if "status_ok h w"
  proof (cases p)
    case (Own x)
    with assms that show ?thesis
      by (auto simp: statuses.own_get_iff intro: list_all_update)
  next
    case (Within x)
    with assms obtain u where u: "get_in osl_at x b = Some u"
      by (auto simp: osl_status.field_get_iff)
    with assms(1) that have "osl_ok S h (u\<lparr>os_Status := w\<rparr>)"
      using osl_at_block_ok(1) [of S h b x u] by (simp add: osl_ok_def)
    with u assms(1) Within show ?thesis
      using osl_at_block_ok(2) [of S h b x u] by (simp add: osl_status.field_put)
  qed
qed

lemma meta_at_block_ok:
  assumes b: "block_ok S h b" and m: "get_in meta_at p b = Some m"
  shows "meta_ok S h m" and "meta_ok S h w \<Longrightarrow> block_ok S h (put_in meta_at p w b)"
proof -
  from m obtain u where u: "get_in osl_at p b = Some u" "m = os_ObjectMeta u"
    by (auto simp: meta.field_get_iff)
  with osl_at_block_ok(1) [OF b u(1)] osl_at_block_ok(2) [OF b u(1)]
  show "meta_ok S h m" and "meta_ok S h w \<Longrightarrow> block_ok S h (put_in meta_at p w b)"
    by (simp_all add: osl_ok_def meta.field_put)
qed

lemma listmeta_at_block_ok:
  assumes b: "block_ok S h b" and m: "get_in listmeta_at p b = Some m"
  shows "listmeta_ok S h m" and "listmeta_ok S h w \<Longrightarrow> block_ok S h (put_in listmeta_at p w b)"
proof -
  from m obtain u where u: "get_in list_at p b = Some u" "m = ls_ListMeta u"
    by (auto simp: listmeta.field_get_iff)
  with list_at_block_ok(1) [OF b u(1)] list_at_block_ok(2) [OF b u(1)]
  show "listmeta_ok S h m" and "listmeta_ok S h w \<Longrightarrow> block_ok S h (put_in listmeta_at p w b)"
    by (simp_all add: list_ok_def listmeta.field_put)
qed

lemma cond_at_block_ok:
  "block_ok S h b \<Longrightarrow> get_in cond_at p b = Some c \<Longrightarrow> cond_ok S h c"
  "block_ok S h b \<Longrightarrow> get_in cond_at p b = Some c \<Longrightarrow> cond_ok S h w \<Longrightarrow> block_ok S h (put_in cond_at p w b)"
  by (auto simp: cond.own_get_iff list_all_length nth_list_update)

sublocale copy_library \<subseteq> meta_copy:
  deep_copier S meta_at "meta_ok S" "meta_view S" "meta_cells S" "ObjectMeta_DeepCopyInto L"
  by unfold_locales (rule meta_at_block_ok meta_contract, (assumption+)?)+

sublocale copy_library \<subseteq> listmeta_copy:
  deep_copier S listmeta_at "listmeta_ok S" "listmeta_view S" "listmeta_cells S" "ListMeta_DeepCopyInto L"
  by unfold_locales (rule listmeta_at_block_ok listmeta_contract, (assumption+)?)+

sublocale copy_library \<subseteq> cond_copy:
  element_copier as_Conds Conds S "cond_ok S" "cond_view S" "cond_cells S" "Condition_DeepCopyInto L"
  rewrites "own as_Conds Conds = cond_at"
proof -
  show "element_copier as_Conds Conds S (cond_ok S) (cond_view S) (cond_cells S)
      (Condition_DeepCopyInto L)"
    unfolding element_copier_def
  proof
    show "deep_copier S (own as_Conds Conds) (cond_ok S) (cond_view S) (cond_cells S)
        (Condition_DeepCopyInto L)"
      unfolding cond_at_def [symmetric]
      by unfold_locales (rule cond_at_block_ok cond_contract, (assumption+)?)+
  qed unfold_locales
qed (simp add: cond_at_def)


sublocale copy_library \<subseteq> conditions_copy:
  slice_copier as_Conds Conds S "cond_ok S" "cond_view S" "cond_cells S"
    "Condition_DeepCopyInto L" conditions_at "zero_Condition L"
proof
  fix h k :: "('m, 'l, 'c, 'x) heap" and so
  show "slice_ok as_Conds k so" if "slice_ok as_Conds h so" "hext h k"
    using that by (rule cond.slice_ok_hext)
  show "slice_cells as_Conds (cond_cells S) h so \<subseteq> used h" if "typed S h" "slice_ok as_Conds h so"
    using that by (rule cond_copy.slice_cells_used)
  show "slice_view as_Conds (cond_view S) k so = slice_view as_Conds (cond_view S) h so \<and>
      slice_cells as_Conds (cond_cells S) k so = slice_cells as_Conds (cond_cells S) h so"
    if "typed S h" "slice_ok as_Conds h so" "same_on (slice_cells as_Conds (cond_cells S) h so) h k"
    using that by (rule cond_copy.slice_frame)
next
  fix h b p so s2
  assume b: "block_ok S h b" and "get_in conditions_at p b = Some so"
  then obtain u where u: "get_in status_at p b = Some u" "so = st_Conditions u"
    by (auto simp: conditions.field_get_iff)
  with status_at_block_ok(1) [OF b u(1)] show "slice_ok as_Conds h so"
    by (simp add: status_ok_def)
  show "block_ok S h (put_in conditions_at p s2 b)" if "slice_ok as_Conds h s2"
    using that u(1) status_at_block_ok(2) [OF b u(1)]
    by (simp add: conditions.field_put status_ok_def)
qed (auto simp: list_all_iff zero_ok)

text \<open>The status: a shallow copy, then its conditions.\<close>

sublocale copy_library \<subseteq> status_laws:
  struct_access S status_at status_ok "status_view S" "status_cells S"
proof
  fix h k :: "('m, 'l, 'c, 'x) heap" and v
  show "status_ok k v" if "status_ok h v" "hext h k"
    using that by (rule meta_laws.status_ok_hext)
  show "status_cells S h v \<subseteq> used h" if "typed S h" "status_ok h v"
    using cond_copy.slice_cells_used that by (simp add: status_cells_def status_ok_def)
  show "status_view S k v = status_view S h v \<and> status_cells S k v = status_cells S h v"
    if "typed S h" "status_ok h v" "same_on (status_cells S h v) h k"
    using cond_copy.slice_frame that
    by (simp add: status_view_def status_cells_def status_ok_def)
qed (rule status_at_block_ok, assumption+)+

context copy_library
begin

lemma status_contract:
  "keeps_copy_contract S status_at status_ok (status_view S) (status_cells S)
     (\<lambda>p q. OpenStackLightspeedStatus_DeepCopyInto L (Some p) (Some q))"
  unfolding keeps_copy_contract_def
proof (intro allI impI)
  let ?A = "status_at :: (var place, ('m, 'l, 'c, 'x) block, Status_struct) access"
  let ?F = "conditions_at :: (var place, ('m, 'l, 'c, 'x) block, slice option) access"
  fix p q h v u
  assume h: "typed S h" and p: "load status_at p h = GoOk v" and q: "load status_at q h = GoOk u"
    and pq: "p \<noteq> q" "base ?A q \<notin> status_cells S h v"
  obtain h1 where h1: "store status_at q v h = GoOk h1" and w1: "written status_at q v h h1"
    and t1: "typed S h1" and p1: "load status_at p h1 = GoOk v" "load status_at q h1 = GoOk v"
    and f: "status_view S h1 v = status_view S h v" "status_cells S h1 v = status_cells S h v"
    and u1: "used h1 = used h"
    by (rule status_laws.shallow_start [OF h p q pq])
  have "load conditions_at p h1 = GoOk (st_Conditions v)"
    "load conditions_at q h1 = GoOk (st_Conditions v)"
    using p1 by (auto simp: conditions.load_field)
  moreover have "base ?F q \<notin> slice_cells as_Conds (cond_cells S) h1 (st_Conditions v)"
    using pq(2) f(2) by (simp add: status_cells_def)
  ultimately obtain c k where k: "copy_slice conditions_at Conds (zero_Condition L)
      (Condition_DeepCopyInto L) p q h1 = GoOk k"
    "copied S conditions_at (slice_ok as_Conds) (slice_view as_Conds (cond_view S))
      (slice_cells as_Conds (cond_cells S)) h1 (st_Conditions v) q c k"
    using conditions_copy.copy_slice_copies [OF t1 _ _ pq(1)] by blast
  let ?w = "v\<lparr>st_Conditions := c\<rparr>"
  have "written status_at q ?w h k"
    using conditions.written_field [OF w1] k(2) by (simp add: copied_def)
  with k(2) f(1) u1
  have "copied S status_at status_ok (status_view S) (status_cells S) h v q ?w k"
    by (simp add: copied_def status_ok_def status_view_def status_cells_def)
  moreover have "OpenStackLightspeedStatus_DeepCopyInto L (Some p) (Some q) h = GoOk k"
    using p h1 k(1) by (simp add: OpenStackLightspeedStatus_DeepCopyInto_def assign_distinct)
  ultimately show "\<exists>w k. OpenStackLightspeedStatus_DeepCopyInto L (Some p) (Some q) h = GoOk k \<and>
      copied S status_at status_ok (status_view S) (status_cells S) h v q w k"
    by blast
qed

end

sublocale copy_library \<subseteq> status_copy: deep_copier S status_at status_ok "status_view S" "status_cells S"
    "\<lambda>p q. OpenStackLightspeedStatus_DeepCopyInto L (Some p) (Some q)"
  by unfold_locales (rule status_contract)


text \<open>The instance: its metadata, and then its status.\<close>

sublocale copy_library \<subseteq> osl_laws: struct_access S osl_at "osl_ok S" "osl_view S" "osl_cells S"
proof
  fix h k :: "('m, 'l, 'c, 'x) heap" and v
  show "osl_ok S k v" if "osl_ok S h v" "hext h k"
    using that by (rule meta_laws.osl_ok_hext)
  show "osl_cells S h v \<subseteq> used h" if "typed S h" "osl_ok S h v"
    using meta_laws.cells_used status_laws.cells_used that by (simp add: osl_cells_def osl_ok_def)
  show "osl_view S k v = osl_view S h v \<and> osl_cells S k v = osl_cells S h v"
    if "typed S h" "osl_ok S h v" "same_on (osl_cells S h v) h k"
    using that meta_laws.frame [of h "os_ObjectMeta v" k] status_laws.frame [of h "os_Status v" k]
    by (auto simp: osl_view_def osl_cells_def osl_ok_def intro: same_on_mono)
qed (rule osl_at_block_ok, assumption+)+

sublocale copy_library \<subseteq> osl_meta: part_copier S osl_at os_ObjectMeta
    "\<lambda>m v. v\<lparr>os_ObjectMeta := m\<rparr>" meta_at "osl_ok S" "osl_view S" "osl_cells S"
    "meta_ok S" "meta_view S" "meta_cells S" "ObjectMeta_DeepCopyInto L"
  by unfold_locales (auto simp: osl_cells_def meta_at_def)

context copy_library
begin

lemma osl_contract:
  "keeps_copy_contract S osl_at (osl_ok S) (osl_view S) (osl_cells S)
     (\<lambda>p q. OpenStackLightspeed_DeepCopyInto L (Some p) (Some q))"
  unfolding keeps_copy_contract_def
proof (intro allI impI)
  let ?A = "osl_at :: (var, ('m, 'l, 'c, 'x) block, 'm OSL_struct) access"
  let ?T = "status_at :: (var place, ('m, 'l, 'c, 'x) block, Status_struct) access"
  fix p q h v u
  assume h: "typed S h" and p: "load osl_at p h = GoOk v" and q: "load osl_at q h = GoOk u"
    and pq: "p \<noteq> q" "base ?A q \<notin> osl_cells S h v"
  obtain h1 m h2 where h1: "store osl_at q v h = GoOk h1" "load osl_at p h1 = GoOk v"
      "load osl_at q h1 = GoOk v" "ObjectMeta_DeepCopyInto L p q h1 = GoOk h2"
    and w2: "written osl_at q (v\<lparr>os_ObjectMeta := m\<rparr>) h h2" and t2: "typed S h2"
    and m2: "meta_ok S h2 m" "meta_view S h2 m = meta_view S h (os_ObjectMeta v)"
      "meta_cells S h2 m \<inter> used h = {}"
    by (rule osl_meta.shallow_then_part [OF h p q pq])
  have p2: "load status_at (Within p) h2 = GoOk (os_Status v)"
    "load status_at (Within q) h2 = GoOk (os_Status v)"
    "load spec_at (Within p) h2 = GoOk (os_Spec v)" "load spec_at (Within q) h2 = GoOk (os_Spec v)"
    using osl.written_other [OF w2 pq(1) p] osl.written_load [OF w2]
    by (auto simp: osl_status.load_field osl_spec.load_field)
  have st: "status_ok h (os_Status v)" "base ?A q \<notin> status_cells S h (os_Status v)"
    using osl_laws.load_ok [OF h p] pq(2) by (auto simp: osl_ok_def osl_cells_def)
  note f2 = status_laws.frame_written [OF h st(1) osl.written_same_on [OF w2] st(2)]
  have "Within p \<noteq> Within q" "base ?T (Within q) \<notin> status_cells S h2 (os_Status v)"
    using pq(1) f2(2) st(2) by simp_all
  then obtain s k where k:
    "OpenStackLightspeedStatus_DeepCopyInto L (Some (Within p)) (Some (Within q)) h2 = GoOk k"
    "copied S status_at status_ok (status_view S) (status_cells S) h2 (os_Status v) (Within q) s k"
    by (rule status_copy.copies [OF t2 p2(1,2)])
  let ?w = "v\<lparr>os_ObjectMeta := m, os_Status := s\<rparr>"
  have ws: "written (field osl_at os_Status (\<lambda>s v. v\<lparr>os_Status := s\<rparr>)) q s h2 k"
    using k(2) by (simp add: copied_def written_def)
  have "base ?A q \<notin> meta_cells S h2 m"
    using m2(3) osl.load_used [OF q] by auto
  then have f3: "meta_view S k m = meta_view S h2 m" "meta_cells S k m = meta_cells S h2 m"
    using meta_copy.frame_written [OF t2 m2(1) osl_status.fld.written_same_on [OF ws]] by simp_all
  have "meta_ok S k m"
    by (rule meta_laws.meta_hext [OF m2(1) osl_status.fld.written_hext [OF ws]])
  moreover have "status_cells S k s \<inter> used h = {}"
    using osl.written_used [OF w2] k(2) by (fastforce simp: copied_def)
  ultimately have "copied S osl_at (osl_ok S) (osl_view S) (osl_cells S) h v q ?w k"
    using osl_status.written_field [OF w2 ws] k(2) m2 f2(1) f3
    by (simp add: copied_def osl_ok_def osl_view_def osl_cells_def Int_Un_distrib2)
  moreover have "OpenStackLightspeed_DeepCopyInto L (Some p) (Some q) h = GoOk k"
    using p h1 osl.store_same [OF h1(3)] p2(3) spec.plc.store_same [OF p2(4)] k(1)
    by (simp add: OpenStackLightspeed_DeepCopyInto_def assign_distinct)
  ultimately show "\<exists>w k. OpenStackLightspeed_DeepCopyInto L (Some p) (Some q) h = GoOk k \<and>
      copied S osl_at (osl_ok S) (osl_view S) (osl_cells S) h v q w k"
    by blast
qed

end

sublocale copy_library \<subseteq> osl_copy: deep_copier S osl_at "osl_ok S" "osl_view S" "osl_cells S"
    "\<lambda>p q. OpenStackLightspeed_DeepCopyInto L (Some p) (Some q)"
  by unfold_locales (rule osl_contract)


text \<open>The list: its metadata, and then its items.\<close>

sublocale copy_library \<subseteq> osl_elem: element_copier as_OSLs OSLs S "osl_ok S" "osl_view S" "osl_cells S"
    "\<lambda>p q. OpenStackLightspeed_DeepCopyInto L (Some p) (Some q)"
  rewrites "own as_OSLs OSLs = osl_at"
proof -
  show "element_copier as_OSLs OSLs S (osl_ok S) (osl_view S) (osl_cells S)
      (\<lambda>p q. OpenStackLightspeed_DeepCopyInto L (Some p) (Some q))"
    unfolding element_copier_def osl_at_def [symmetric]
    by (intro conjI) unfold_locales
qed (simp add: osl_at_def)

sublocale copy_library \<subseteq> items_copy: slice_copier as_OSLs OSLs S "osl_ok S" "osl_view S" "osl_cells S"
    "\<lambda>p q. OpenStackLightspeed_DeepCopyInto L (Some p) (Some q)" items_at "zero_OSL L"
proof
  fix h k :: "('m, 'l, 'c, 'x) heap" and so
  show "slice_ok as_OSLs k so" if "slice_ok as_OSLs h so" "hext h k"
    using that by (rule osl.slice_ok_hext)
  show "slice_cells as_OSLs (osl_cells S) h so \<subseteq> used h" if "typed S h" "slice_ok as_OSLs h so"
    using that by (rule osl_elem.slice_cells_used)
  show "slice_view as_OSLs (osl_view S) k so = slice_view as_OSLs (osl_view S) h so \<and>
      slice_cells as_OSLs (osl_cells S) k so = slice_cells as_OSLs (osl_cells S) h so"
    if "typed S h" "slice_ok as_OSLs h so" "same_on (slice_cells as_OSLs (osl_cells S) h so) h k"
    using that by (rule osl_elem.slice_frame)
next
  fix h b p so s2
  assume b: "block_ok S h b" and "get_in items_at p b = Some so"
  then obtain u where u: "get_in list_at p b = Some u" "so = ls_Items u"
    by (auto simp: items.field_get_iff)
  with list_at_block_ok(1) [OF b u(1)] have ok: "list_ok S h u" "slice_ok as_OSLs h so"
    by (simp_all add: list_ok_def)
  then show "slice_ok as_OSLs h so" by simp
  show "block_ok S h (put_in items_at p s2 b)" if "slice_ok as_OSLs h s2"
    using that u(1) ok(1) list_at_block_ok(2) [OF b u(1)] by (simp add: items.field_put list_ok_def)
qed (auto simp: list_all_iff zero_ok osl_ok_def status_ok_def zero_OSL_def zero_Status_def)

sublocale copy_library \<subseteq> list_laws: struct_access S list_at "list_ok S" "list_view S" "list_cells S"
proof
  fix h k :: "('m, 'l, 'c, 'x) heap" and v
  show "list_ok S k v" if "list_ok S h v" "hext h k"
    using that by (rule meta_laws.list_ok_hext)
  show "list_cells S h v \<subseteq> used h" if "typed S h" "list_ok S h v"
    using listmeta_laws.cells_used osl_elem.slice_cells_used that
    by (simp add: list_cells_def list_ok_def)
  show "list_view S k v = list_view S h v \<and> list_cells S k v = list_cells S h v"
    if "typed S h" "list_ok S h v" "same_on (list_cells S h v) h k"
    using that listmeta_laws.frame [of h "ls_ListMeta v" k] osl_elem.slice_frame [of h "ls_Items v" k]
    by (auto simp: list_view_def list_cells_def list_ok_def intro: same_on_mono)
qed (rule list_at_block_ok, assumption+)+

sublocale copy_library \<subseteq> list_meta: part_copier S list_at ls_ListMeta
    "\<lambda>m v. v\<lparr>ls_ListMeta := m\<rparr>" listmeta_at "list_ok S" "list_view S" "list_cells S"
    "listmeta_ok S" "listmeta_view S" "listmeta_cells S" "ListMeta_DeepCopyInto L"
  by unfold_locales (auto simp: list_cells_def listmeta_at_def)

context copy_library
begin

lemma list_contract:
  "keeps_copy_contract S list_at (list_ok S) (list_view S) (list_cells S)
     (\<lambda>p q. OpenStackLightspeedList_DeepCopyInto L (Some p) (Some q))"
  unfolding keeps_copy_contract_def
proof (intro allI impI)
  let ?A = "list_at :: (var, ('m, 'l, 'c, 'x) block, 'l List_struct) access"
  let ?F = "items_at :: (var, ('m, 'l, 'c, 'x) block, slice option) access"
  fix p q h v u
  assume h: "typed S h" and p: "load list_at p h = GoOk v" and q: "load list_at q h = GoOk u"
    and pq: "p \<noteq> q" "base ?A q \<notin> list_cells S h v"
  obtain h1 m h2 where h1: "store list_at q v h = GoOk h1" "load list_at p h1 = GoOk v"
      "load list_at q h1 = GoOk v" "ListMeta_DeepCopyInto L p q h1 = GoOk h2"
    and w2: "written list_at q (v\<lparr>ls_ListMeta := m\<rparr>) h h2" and t2: "typed S h2"
    and m2: "listmeta_ok S h2 m" "listmeta_view S h2 m = listmeta_view S h (ls_ListMeta v)"
      "listmeta_cells S h2 m \<inter> used h = {}"
    by (rule list_meta.shallow_then_part [OF h p q pq])
  have p0: "load items_at p h = GoOk (ls_Items v)"
    and p2: "load items_at p h2 = GoOk (ls_Items v)" "load items_at q h2 = GoOk (ls_Items v)"
    using p osllist.written_other [OF w2 pq(1) p] osllist.written_load [OF w2]
    by (auto simp: items.load_field)
  have qi: "base ?A q \<notin> slice_cells as_OSLs (osl_cells S) h (ls_Items v)"
    using pq(2) by (auto simp: list_cells_def)
  note f2 = items_copy.hdr.frame_written [OF h items_copy.hdr.load_ok [OF h p0]
      osllist.written_same_on [OF w2] qi]
  have "base ?F q \<notin> slice_cells as_OSLs (osl_cells S) h2 (ls_Items v)"
    using f2(2) qi by simp
  then obtain s k where k: "copy_slice items_at OSLs (zero_OSL L)
      (\<lambda>x y. OpenStackLightspeed_DeepCopyInto L (Some x) (Some y)) p q h2 = GoOk k"
    "copied S items_at (slice_ok as_OSLs) (slice_view as_OSLs (osl_view S))
      (slice_cells as_OSLs (osl_cells S)) h2 (ls_Items v) q s k"
    using items_copy.copy_slice_copies [OF t2 p2 pq(1)] by blast
  let ?w = "v\<lparr>ls_ListMeta := m, ls_Items := s\<rparr>"
  have ws: "written items_at q s h2 k"
    using k(2) by (simp add: copied_def)
  have "base ?A q \<notin> listmeta_cells S h2 m"
    using m2(3) osllist.load_used [OF q] by auto
  then have f3: "listmeta_view S k m = listmeta_view S h2 m" "listmeta_cells S k m = listmeta_cells S h2 m"
    using listmeta_copy.frame_written [OF t2 m2(1) items.fld.written_same_on [OF ws]] by simp_all
  have "listmeta_ok S k m"
    by (rule meta_laws.listmeta_hext [OF m2(1) items.fld.written_hext [OF ws]])
  moreover have "slice_cells as_OSLs (osl_cells S) k s \<inter> used h = {}"
    using osllist.written_used [OF w2] k(2) by (fastforce simp: copied_def)
  ultimately have "copied S list_at (list_ok S) (list_view S) (list_cells S) h v q ?w k"
    using items.written_field [OF w2 ws] k(2) m2 f2(1) f3
    by (simp add: copied_def list_ok_def list_view_def list_cells_def Int_Un_distrib2)
  moreover have "OpenStackLightspeedList_DeepCopyInto L (Some p) (Some q) h = GoOk k"
    using p h1 osllist.store_same [OF h1(3)] k(1)
    by (simp add: OpenStackLightspeedList_DeepCopyInto_def assign_distinct)
  ultimately show "\<exists>w k. OpenStackLightspeedList_DeepCopyInto L (Some p) (Some q) h = GoOk k \<and>
      copied S list_at (list_ok S) (list_view S) (list_cells S) h v q w k"
    by blast
qed

end

sublocale copy_library \<subseteq> list_copy: deep_copier S list_at "list_ok S" "list_view S" "list_cells S"
    "\<lambda>p q. OpenStackLightspeedList_DeepCopyInto L (Some p) (Some q)"
  by unfold_locales (rule list_contract)


section \<open>Copies into new variables\<close>

context deep_copier
begin

lemma original_kept:
  assumes "typed S h" "load A p h = GoOk v" "extends h k" "X \<inter> used h = {}" "same_on (- X) k l"
  shows "load A p l = GoOk v \<and> view l v = view h v"
proof -
  have "same_on (used h) k l"
    by (rule same_on_mono [OF assms(5)]) (use assms(4) in auto)
  then have hl: "extends h l"
    using assms(3) by (auto simp: extends_iff_same_on intro: same_on_trans)
  have ok: "ok h v" by (rule load_ok [OF assms(1,2)])
  have "same_on (cells h v) h l"
    using hl cells_used [OF assms(1) ok] by (auto simp: extends_iff_same_on intro: same_on_mono)
  with ok hl assms(1,2) show ?thesis
    by (auto simp: frame intro: load_extends)
qed

lemma value_in_own_blocks:
  assumes "typed S k" "load A q k = GoOk w" "same_on (insert (base A q) (cells k w)) k l"
  shows "load A q l = GoOk w \<and> view l w = view k w"
proof -
  have "same_on (cells k w) k l"
    by (rule same_on_mono [OF assms(3)]) auto
  then show ?thesis
    using load_same_on [OF assms(3), of q] frame [OF assms(1) load_ok [OF assms(1,2)]] assms(2)
    by auto
qed

end

context copy_library
begin

lemmas osl_deep_copier = osl_copy.deep_copier_axioms
lemmas list_deep_copier = list_copy.deep_copier_axioms
lemmas list_loaded_ok = list_laws.load_ok

lemma osl_DeepCopy:
  assumes h: "typed S h" and p: "load osl_at p h = GoOk v"
  obtains q k w where "OpenStackLightspeed_DeepCopy L (Some p) h = GoOk (Some q, k)"
    and "typed S k" and "extends h k" and "load osl_at q k = GoOk w"
    and "osl_view S k w = osl_view S h v" and "insert (fst q) (osl_cells S k w) \<inter> used h = {}"
proof -
  define q :: var where "q = (next_addr h, 0)"
  let ?b = "OSLs [zero_OSL L] :: ('m, 'l, 'c, 'x) block"
  obtain h1 where new: "new_block ?b h = (next_addr h, h1)"
    by (simp add: new_block_def)
  have "block_ok S h ?b"
    by (simp add: zero_ok osl_ok_def status_ok_def zero_OSL_def zero_Status_def)
  moreover have "new_block ?b h = (base osl_at q, h1)" "get_in osl_at q ?b = Some (zero_OSL L)"
    using new by (simp_all add: q_def osl.own_get_iff)
  ultimately obtain w k where "OpenStackLightspeed_DeepCopyInto L (Some p) (Some q) h1 = GoOk k"
    "typed S k" "extends h k" "load osl_at q k = GoOk w" "osl_view S k w = osl_view S h v"
    "insert (fst q) (osl_cells S k w) \<inter> used h = {}"
    using osl_copy.copies_to_new [OF h p, of ?b q h1 "zero_OSL L"] by (auto simp: disjoint_iff)
  with new that [of q k w] show ?thesis
    by (simp add: OpenStackLightspeed_DeepCopy_def q_def)
qed

lemma list_DeepCopy:
  assumes h: "typed S h" and p: "load list_at p h = GoOk v"
  obtains q k w where "OpenStackLightspeedList_DeepCopy L (Some p) h = GoOk (Some q, k)"
    and "typed S k" and "extends h k" and "load list_at q k = GoOk w"
    and "list_view S k w = list_view S h v" and "insert (fst q) (list_cells S k w) \<inter> used h = {}"
proof -
  define q :: var where "q = (next_addr h, 0)"
  let ?b = "OSLLists [zero_List L] :: ('m, 'l, 'c, 'x) block"
  obtain h1 where new: "new_block ?b h = (next_addr h, h1)"
    by (simp add: new_block_def)
  have "block_ok S h ?b"
    by (simp add: zero_ok list_ok_def zero_List_def)
  moreover have "new_block ?b h = (base list_at q, h1)" "get_in list_at q ?b = Some (zero_List L)"
    using new by (simp_all add: q_def osllist.own_get_iff)
  ultimately obtain w k where "OpenStackLightspeedList_DeepCopyInto L (Some p) (Some q) h1 = GoOk k"
    "typed S k" "extends h k" "load list_at q k = GoOk w" "list_view S k w = list_view S h v"
    "insert (fst q) (list_cells S k w) \<inter> used h = {}"
    using list_copy.copies_to_new [OF h p, of ?b q h1 "zero_List L"] by (auto simp: disjoint_iff)
  with new that [of q k w] show ?thesis
    by (simp add: OpenStackLightspeedList_DeepCopy_def q_def)
qed

lemma status_DeepCopy:
  assumes h: "typed S h" and p: "load status_at p h = GoOk v"
  obtains a k w where "OpenStackLightspeedStatus_DeepCopy L (Some p) h = GoOk (Some (Own (a, 0)), k)"
    and "typed S k" and "extends h k" and "load status_at (Own (a, 0)) k = GoOk w"
    and "status_view S k w = status_view S h v" and "insert a (status_cells S k w) \<inter> used h = {}"
proof -
  define a where "a = next_addr h"
  let ?b = "Statuses [zero_Status] :: ('m, 'l, 'c, 'x) block"
  obtain h1 where new: "new_block ?b h = (a, h1)"
    by (simp add: new_block_def a_def)
  have "block_ok S h ?b"
    by (simp add: status_ok_def zero_Status_def)
  moreover have "new_block ?b h = (base status_at (Own (a, 0)), h1)"
    "get_in status_at (Own (a, 0)) ?b = Some zero_Status"
    using new by (simp_all add: statuses.own_get_iff)
  ultimately obtain w k where
    "OpenStackLightspeedStatus_DeepCopyInto L (Some p) (Some (Own (a, 0))) h1 = GoOk k"
    "typed S k" "extends h k" "load status_at (Own (a, 0)) k = GoOk w"
    "status_view S k w = status_view S h v" "insert a (status_cells S k w) \<inter> used h = {}"
    using status_copy.copies_to_new [OF h p, of ?b "Own (a, 0)" h1 zero_Status] by (auto simp: disjoint_iff)
  with new that [of a k w] show ?thesis
    by (simp add: OpenStackLightspeedStatus_DeepCopy_def)
qed

end

text \<open>Structs without references: the shallow copy is all there is to do.\<close>

context accessible
begin

lemma assign_to_new:
  assumes p: "load A p h = GoOk v" and fresh: "blocks h (next_addr h) = None"
    and new: "new_block b h = (base A q, h1)" and q: "get_in A q b = Some u"
  shows "\<exists>k. assign A p q h1 = GoOk k \<and> load A p k = GoOk v \<and> load A q k = GoOk v \<and>
    extends h k \<and> base A q \<notin> used h"
proof -
  note n = new_block_extends [OF new fresh]
  have p1: "load A p h1 = GoOk v" by (rule load_extends [OF n(1) p])
  have "load A q h1 = GoOk u" using n(3) q by (simp add: load_iff)
  then obtain k where k: "store A q v h1 = GoOk k" using store_loaded by blast
  have "p \<noteq> q" using load_used [OF p] n(2) by auto
  then have "load A p k = GoOk v" using load_other [OF k _ p1] by blast
  moreover have "extends h k"
    using n(1) store_same_on [OF k n(2)] by (auto simp: extends_iff_same_on intro: same_on_trans)
  ultimately show ?thesis
    using p1 k load_stored [OF k] n(2) by (auto simp: assign_distinct)
qed

end

lemma defaults_DeepCopy:
  assumes "load defaults_at p h = GoOk v" and "blocks h (next_addr h) = None"
  shows "\<exists>a k. OpenStackLightspeedDefaults_DeepCopy (Some p) h = GoOk (Some (a, 0), k) \<and>
    load defaults_at (a, 0) k = GoOk v \<and> extends h k \<and> a \<notin> used h"
  using defaults.assign_to_new [OF assms, of "Defaults [zero_Defaults]"
      "(next_addr h, 0)" "snd (new_block (Defaults [zero_Defaults]) h)" zero_Defaults]
  by (auto simp: OpenStackLightspeedDefaults_DeepCopy_def OpenStackLightspeedDefaults_DeepCopyInto_def
      new_block_def defaults.own_get_iff)

lemma core_DeepCopy:
  assumes "load core_at p h = GoOk v" and "blocks h (next_addr h) = None"
  shows "\<exists>a k. OpenStackLightspeedCore_DeepCopy (Some p) h = GoOk (Some (Own (a, 0)), k) \<and>
    load core_at (Own (a, 0)) k = GoOk v \<and> extends h k \<and> a \<notin> used h"
  using core.plc.assign_to_new [OF assms, of "Cores [zero_Core]" "Own (next_addr h, 0)"
      "snd (new_block (Cores [zero_Core]) h)" zero_Core]
  by (auto simp: OpenStackLightspeedCore_DeepCopy_def OpenStackLightspeedCore_DeepCopyInto_def
      new_block_def cores.own_get_iff)

lemma spec_DeepCopy:
  assumes "load spec_at p h = GoOk v" and "blocks h (next_addr h) = None"
  shows "\<exists>a k. OpenStackLightspeedSpec_DeepCopy (Some p) h = GoOk (Some (Own (a, 0)), k) \<and>
    load spec_at (Own (a, 0)) k = GoOk v \<and> extends h k \<and> a \<notin> used h"
proof -
  define q :: "var place" where "q = Own (next_addr h, 0)"
  obtain h1 where new: "new_block (Specs [zero_Spec]) h = (next_addr h, h1)"
    by (simp add: new_block_def)
  obtain k where k: "assign spec_at p q h1 = GoOk k" "load spec_at p k = GoOk v"
    "load spec_at q k = GoOk v" "extends h k" "next_addr h \<notin> used h"
    using spec.plc.assign_to_new [OF assms, of "Specs [zero_Spec]" q h1 zero_Spec] new
    by (auto simp: q_def specs.own_get_iff)
  then have "load core_at (Within p) k = GoOk (core_of v)" "load core_at (Within q) k = GoOk (core_of v)"
    by (auto simp: spec_core.load_field)
  then have "assign core_at (Within p) (Within q) k = GoOk k"
    by (simp add: assign_distinct core.plc.store_same del: core.load_place core.store_place)
  with new k show ?thesis
    by (auto simp: OpenStackLightspeedSpec_DeepCopy_def OpenStackLightspeedSpec_DeepCopyInto_def q_def)
qed

end
