(* ===== verification/Deep_Copy_Properties.thy ===== *)
theory Deep_Copy_Properties
  imports Deep_Copy
begin

text \<open>
  The properties of the generated deep copies, for every library that keeps the contract, and
  an instance of the library with which they are run.
\<close>

section \<open>A library that keeps the contract\<close>

text \<open>
  An instance of the parameters: metadata with a slice of finalizers that the library keeps
  in blocks of its own, conditions and list metadata without references.
\<close>

record ref_meta =
  rm_meta :: ObjectMeta
  rm_Finalizers :: "slice option"

type_synonym ref_heap = "(ref_meta, string, Condition, string list) heap"

fun as_strings :: "('m, 'l, 'c, string list) block \<Rightarrow> string list option" where
  "as_strings (External xs) = Some xs"
| "as_strings _ = None"

definition ref_meaning :: "(ref_meta, string, Condition, string list, string) meaning" where
  "ref_meaning = \<lparr>
     meta_ok = (\<lambda>h m. slice_ok as_strings h (rm_Finalizers m)),
     meta_view = (\<lambda>h m. (rm_meta m)\<lparr>meta_Finalizers :=
        (case rm_Finalizers m of None \<Rightarrow> [] | Some s \<Rightarrow> elems as_strings h s)\<rparr>),
     meta_cells = (\<lambda>h m. slice_cells as_strings (\<lambda>_ _. {}) h (rm_Finalizers m)),
     listmeta_ok = (\<lambda>_ _. True), listmeta_view = (\<lambda>_ l. l), listmeta_cells = (\<lambda>_ _. {}),
     cond_ok = (\<lambda>_ _. True), cond_view = (\<lambda>_ c. c), cond_cells = (\<lambda>_ _. {}),
     external_ok = (\<lambda>_ _. True)\<rparr>"

definition ref_meta_copy :: "var \<Rightarrow> var \<Rightarrow> ref_heap \<Rightarrow> ref_heap gores" where
  "ref_meta_copy p q h = resThen (load meta_at p h) (\<lambda>m.
     case rm_Finalizers m of
       None \<Rightarrow> store meta_at q m h
     | Some s \<Rightarrow> (case new_block (External (elems as_strings h s)) h of (a, h1) \<Rightarrow>
         store meta_at q (m\<lparr>rm_Finalizers :=
           Some \<lparr>slice_array = a, slice_offset = 0, slice_len = slice_len s\<rparr>\<rparr>) h1))"

definition ref_copiers :: "(ref_meta, string, Condition, string list) copiers" where
  "ref_copiers = \<lparr>ObjectMeta_DeepCopyInto = ref_meta_copy,
     ListMeta_DeepCopyInto = assign listmeta_at, Condition_DeepCopyInto = assign cond_at,
     zero_ObjectMeta = \<lparr>rm_meta = empty_ObjectMeta, rm_Finalizers = None\<rparr>, zero_ListMeta = [],
     zero_Condition = \<lparr>cond_Type = [], cond_Status = ConditionUnknown, cond_Severity = [],
       cond_Reason = [], cond_Message = [], cond_LastTransitionTime = None\<rparr>\<rparr>"

lemma as_strings_iff: "as_strings b = Some xs \<longleftrightarrow> b = External xs"
  by (cases b) simp_all

lemma strings_kept:
  assumes "slice_ok as_strings h (Some s)" and "hext h k \<or> same_on {slice_array s} h k"
  shows "blocks k (slice_array s) = blocks h (slice_array s)"
proof -
  from assms(1) obtain xs where "blocks h (slice_array s) = Some (External xs)"
    by (auto simp: slice_ok_def array_at_def as_strings_iff bind_eq_Some_conv split: option.splits)
  with assms(2) show ?thesis
    by (auto simp: hext_def same_on_def elim!: same_shape.elims)
qed

lemma ref_slice_cells: "slice_cells as_strings (\<lambda>_ _. {}) h so = (case so of None \<Rightarrow> {} | Some s \<Rightarrow> {slice_array s})"
  by (simp add: slice_cells_def split: option.split)

lemma ref_typing: "heap_typing ref_meaning"
proof
  fix h k :: ref_heap and m
  assume "meta_ok ref_meaning h m" "hext h k"
  then show "meta_ok ref_meaning k m"
    using strings_kept [of h _ k]
    by (cases "rm_Finalizers m") (auto simp: ref_meaning_def slice_ok_def array_at_def)
qed (simp_all add: ref_meaning_def)

interpretation ref_meta: struct_access ref_meaning meta_at "meta_ok ref_meaning"
  "meta_view ref_meaning" "meta_cells ref_meaning"
proof (intro struct_access.intro struct_laws.intro struct_access_axioms.intro
    struct_laws_axioms.intro ref_typing)
  fix h k :: ref_heap and m
  show "meta_ok ref_meaning k m" if "meta_ok ref_meaning h m" "hext h k"
    using that by (rule heap_typing.meta_hext [OF ref_typing])
  show "meta_cells ref_meaning h m \<subseteq> used h" if "meta_ok ref_meaning h m"
    using that by (auto simp: ref_meaning_def ref_slice_cells slice_ok_def array_at_def
        bind_eq_Some_conv split: option.splits)
  show "meta_view ref_meaning k m = meta_view ref_meaning h m \<and>
      meta_cells ref_meaning k m = meta_cells ref_meaning h m"
    if "meta_ok ref_meaning h m" "same_on (meta_cells ref_meaning h m) h k"
    using that strings_kept [of h _ k]
    by (cases "rm_Finalizers m") (auto simp: ref_meaning_def ref_slice_cells elems_def array_at_def)
qed (unfold_locales, (rule meta_at_block_ok, assumption+)+)

lemma ref_meta_contract:
  "keeps_copy_contract ref_meaning meta_at (meta_ok ref_meaning) (meta_view ref_meaning)
     (meta_cells ref_meaning) ref_meta_copy"
  unfolding keeps_copy_contract_def
proof (intro allI impI)
  fix p q and h :: ref_heap and m u
  assume h: "typed ref_meaning h" and p: "load meta_at p h = GoOk m"
    and q: "load meta_at q h = GoOk u" and pq: "p \<noteq> q"
  show "\<exists>w k. ref_meta_copy p q h = GoOk k \<and> copied ref_meaning meta_at (meta_ok ref_meaning)
      (meta_view ref_meaning) (meta_cells ref_meaning) h m q w k"
  proof (cases "rm_Finalizers m")
    case None
    then have "meta_cells ref_meaning h m = {}"
      by (simp add: ref_meaning_def)
    from ref_meta.shallow_copied [OF h p q pq this] p None show ?thesis
      by (auto simp: ref_meta_copy_def)
  next
    case (Some s)
    let ?b = "External (elems as_strings h s) :: (ref_meta, string, Condition, string list) block"
    obtain a h1 where new: "new_block ?b h = (a, h1)" by (cases "new_block ?b h")
    have "block_ok ref_meaning h ?b" by (simp add: ref_meaning_def)
    note n = ref_meta.typed_new [OF h this new]
    let ?t = "\<lparr>slice_array = a, slice_offset = 0, slice_len = slice_len s\<rparr>"
    let ?w = "m\<lparr>rm_Finalizers := Some ?t\<rparr>"
    have len: "length (elems as_strings h s) = slice_len s"
      using ref_meta.load_ok [OF h p] Some
      by (auto simp: ref_meaning_def slice_ok_def elems_def split: option.splits)
    have at: "meta_ok ref_meaning k ?w" "meta_view ref_meaning k ?w = meta_view ref_meaning h m"
      "meta_cells ref_meaning k ?w = {a}" if "blocks k a = Some ?b" for k
      using that len Some
      by (simp_all add: ref_meaning_def slice_ok_def array_at_def elems_def [of _ _ ?t] ref_slice_cells)
    obtain k where k: "store meta_at q ?w h1 = GoOk k"
      using meta.fld.store_loaded [OF meta.fld.load_extends [OF n(2) q]] by blast
    obtain hs where hs: "store meta_at q ?w h = GoOk hs"
      using meta.fld.store_loaded [OF q] by blast
    have w: "written meta_at q ?w h k"
      using meta.fld.store_extends [OF n(2) hs] hs k by (auto simp: written_def)
    have "blocks k a = Some ?b"
      using meta.fld.store_same_on [OF k, of "{a}"] meta.fld.load_used [OF q] n(3,4)
      by (auto simp: same_on_def)
    then have "copied ref_meaning meta_at (meta_ok ref_meaning) (meta_view ref_meaning)
        (meta_cells ref_meaning) h m q ?w k"
      using at ref_meta.typed_store [OF n(1) at(1) [OF n(4)] k] w n(3) by (simp add: copied_def)
    moreover have "ref_meta_copy p q h = GoOk k"
      using p Some new k by (simp add: ref_meta_copy_def)
    ultimately show ?thesis by blast
  qed
qed

lemma ref_plain:
  "listmeta_ok ref_meaning h l" "listmeta_cells ref_meaning h l = {}"
  "listmeta_view ref_meaning h l = l" "cond_ok ref_meaning h c" "cond_cells ref_meaning h c = {}"
  "cond_view ref_meaning h c = c"
  by (simp_all add: ref_meaning_def)

interpretation ref_listmeta: struct_access ref_meaning listmeta_at "listmeta_ok ref_meaning"
  "listmeta_view ref_meaning" "listmeta_cells ref_meaning"
proof
  show "block_ok ref_meaning h (put_in listmeta_at p w b)"
    if "block_ok ref_meaning h b" "get_in listmeta_at p b = Some v" "listmeta_ok ref_meaning h w"
    for h b p v w
    using that by (rule listmeta_at_block_ok)
qed (simp_all add: ref_plain)

interpretation ref_cond: struct_access ref_meaning cond_at "cond_ok ref_meaning"
  "cond_view ref_meaning" "cond_cells ref_meaning"
proof
  show "block_ok ref_meaning h (put_in cond_at p w b)"
    if "block_ok ref_meaning h b" "get_in cond_at p b = Some v" "cond_ok ref_meaning h w"
    for h b p v w
    using that by (rule cond_at_block_ok)
qed (simp_all add: ref_plain)

interpretation ref_library: copy_library ref_meaning ref_copiers
proof
  show "keeps_copy_contract ref_meaning meta_at (meta_ok ref_meaning) (meta_view ref_meaning)
      (meta_cells ref_meaning) (ObjectMeta_DeepCopyInto ref_copiers)"
    using ref_meta_contract by (simp add: ref_copiers_def)
  show "keeps_copy_contract ref_meaning listmeta_at (listmeta_ok ref_meaning)
      (listmeta_view ref_meaning) (listmeta_cells ref_meaning) (ListMeta_DeepCopyInto ref_copiers)"
    using ref_listmeta.plain_contract by (simp add: ref_copiers_def ref_plain)
  show "keeps_copy_contract ref_meaning cond_at (cond_ok ref_meaning) (cond_view ref_meaning)
      (cond_cells ref_meaning) (Condition_DeepCopyInto ref_copiers)"
    using ref_cond.plain_contract by (simp add: ref_copiers_def ref_plain)
qed (simp_all add: ref_plain ref_copiers_def ref_meaning_def)


section \<open>A heap to copy from\<close>

text \<open>
  An instance with a finalizer and two conditions, of which its slice shows the second, in a
  list of two items; and a status of its own.
\<close>

definition sample_cond :: "string \<Rightarrow> Condition" where
  "sample_cond t = \<lparr>cond_Type = t, cond_Status = ConditionTrue, cond_Severity = [],
     cond_Reason = [], cond_Message = [], cond_LastTransitionTime = Some 7\<rparr>"

definition sample_status :: Status_struct where
  "sample_status = \<lparr>st_Conditions = Some \<lparr>slice_array = 1, slice_offset = 1, slice_len = 1\<rparr>,
     st_ObservedGeneration = 3, st_ActiveOCPRAGVersion = ''4.16''\<rparr>"

definition sample_osl :: "ref_meta OSL_struct" where
  "sample_osl = \<lparr>os_TypeMeta = zero_TypeMeta,
     os_ObjectMeta = \<lparr>rm_meta = empty_ObjectMeta\<lparr>meta_Name := ''a''\<rparr>,
       rm_Finalizers = Some \<lparr>slice_array = 2, slice_offset = 0, slice_len = 1\<rparr>\<rparr>,
     os_Spec = zero_Spec, os_Status = sample_status\<rparr>"

definition sample_heap :: ref_heap where
  "sample_heap = \<lparr>next_addr = 5, blocks = Map.empty
     (0 \<mapsto> OSLs [sample_osl, zero_OSL ref_copiers],
      1 \<mapsto> Conds [sample_cond ''A'', sample_cond ''B''],
      2 \<mapsto> External [''f''],
      3 \<mapsto> OSLLists [\<lparr>ls_TypeMeta = zero_TypeMeta, ls_ListMeta = ''7'',
             ls_Items = Some \<lparr>slice_array = 0, slice_offset = 0, slice_len = 2\<rparr>\<rparr>,
           zero_List ref_copiers],
      4 \<mapsto> Statuses [sample_status])\<rparr>"

lemmas sample_heap_defs = sample_heap_def sample_osl_def sample_status_def zero_OSL_def
  zero_Status_def zero_List_def ref_copiers_def

lemma sample_heap_typed: "typed ref_meaning sample_heap"
  by (auto simp: typed_def sample_heap_defs ref_meaning_def osl_ok_def status_ok_def list_ok_def
      slice_ok_def array_at_def)

lemma sample_loads:
  "load osl_at (0, 0) sample_heap = GoOk sample_osl"
  "load list_at (3, 0) sample_heap = GoOk \<lparr>ls_TypeMeta = zero_TypeMeta, ls_ListMeta = ''7'',
     ls_Items = Some \<lparr>slice_array = 0, slice_offset = 0, slice_len = 2\<rparr>\<rparr>"
  "load list_at (3, 1) sample_heap = GoOk (zero_List ref_copiers)"
  by (auto simp: load_def osl_at_def list_at_def own_def sample_heap_def)

text \<open>
  Copying a status onto itself is not a copy: the new array takes the place of the old one
  before its elements are read, so the conditions are lost. The distinctness of the two
  pointers is therefore part of the contract.
\<close>

lemma in_place_copy_loses_conditions:
  "resThen (OpenStackLightspeedStatus_DeepCopyInto ref_copiers (Some (Own (4, 0))) (Some (Own (4, 0)))
     sample_heap) (\<lambda>k. resThen (load status_at (Own (4, 0)) k) (\<lambda>s.
       GoOk (Conditions (status_view ref_meaning k s)))) = GoOk (Some [zero_Condition ref_copiers])"
  by (simp add: OpenStackLightspeedStatus_DeepCopyInto_def assign_def copy_slice_def index_def
      load_def store_def own_def place_def conditions_at_def status_at_def field_def cond_at_def
      new_block_def sample_heap_def sample_status_def ref_copiers_def status_view_def slice_view_def
      elems_def array_at_def ref_meaning_def numeral_2_eq_2)

section \<open>Properties\<close>

text \<open>
  C23: \<^verbatim>\<open>DeepCopy\<close> of an instance returns a pointer to an instance of the same value, and the two
  are independent: whatever is assigned to the blocks of the copy, the original keeps its
  value, and whatever is assigned elsewhere, the copy keeps its value.
\<close>

theorem instance_copy_independent:
  assumes "copy_library S L" and "typed S h" and "load osl_at p h = GoOk v"
  shows "\<exists>q k w. OpenStackLightspeed_DeepCopy L (Some p) h = GoOk (Some q, k) \<and>
     load osl_at q k = GoOk w \<and> osl_view S k w = osl_view S h v \<and>
     (\<forall>l. same_on (- insert (fst q) (osl_cells S k w)) k l \<longrightarrow>
        load osl_at p l = GoOk v \<and> osl_view S l v = osl_view S h v) \<and>
     (\<forall>l. same_on (insert (fst q) (osl_cells S k w)) k l \<longrightarrow>
        load osl_at q l = GoOk w \<and> osl_view S l w = osl_view S h v)"
proof -
  obtain q k w where k: "OpenStackLightspeed_DeepCopy L (Some p) h = GoOk (Some q, k)"
    "typed S k" "extends h k" "load osl_at q k = GoOk w" "osl_view S k w = osl_view S h v"
    "insert (fst q) (osl_cells S k w) \<inter> used h = {}"
    by (rule copy_library.osl_DeepCopy [OF assms])
  note keep = deep_copier.original_kept [OF copy_library.osl_deep_copier [OF assms(1)]]
  note own = deep_copier.value_in_own_blocks [OF copy_library.osl_deep_copier [OF assms(1)]]
  show ?thesis
    using k keep [OF assms(2,3) k(3,6)] own [OF k(2,4)] by auto
qed

theorem instance_copy_independent_witness:
  "\<exists>q k w. OpenStackLightspeed_DeepCopy ref_copiers (Some (0, 0)) sample_heap = GoOk (Some q, k) \<and>
     load osl_at q k = GoOk w \<and>
     osl_view ref_meaning k w = osl_view ref_meaning sample_heap sample_osl \<and>
     (\<forall>l. same_on (- insert (fst q) (osl_cells ref_meaning k w)) k l \<longrightarrow>
        load osl_at (0, 0) l = GoOk sample_osl \<and>
        osl_view ref_meaning l sample_osl = osl_view ref_meaning sample_heap sample_osl) \<and>
     (\<forall>l. same_on (insert (fst q) (osl_cells ref_meaning k w)) k l \<longrightarrow>
        load osl_at q l = GoOk w \<and>
        osl_view ref_meaning l w = osl_view ref_meaning sample_heap sample_osl)"
  by (rule instance_copy_independent [OF ref_library.copy_library_axioms sample_heap_typed
        sample_loads(1)])

text \<open>
  C24: \<^verbatim>\<open>DeepCopyObject\<close> of a list returns a list of its own: the type and the metadata are the
  same, nil items stay nil, and otherwise there are as many items, each with the value of
  the original one, in another array. All blocks of the original are as they were, and the
  copy shares none of them.
\<close>

theorem list_copy_elementwise:
  assumes "copy_library S L" and "typed S h" and "load list_at p h = GoOk v"
  shows "\<exists>q k w. OpenStackLightspeedList_DeepCopyObject L (Some p) h = GoOk (OSLListObject (Some q), k) \<and>
     load list_at q k = GoOk w \<and> ls_TypeMeta w = ls_TypeMeta v \<and>
     listmeta_view S k (ls_ListMeta w) = listmeta_view S h (ls_ListMeta v) \<and>
     (case (ls_Items v, ls_Items w) of
        (None, None) \<Rightarrow> True
      | (Some s, Some t) \<Rightarrow> slice_array t \<noteq> slice_array s \<and>
          length (elems as_OSLs k t) = slice_len s \<and>
          map (osl_view S k) (elems as_OSLs k t) = map (osl_view S h) (elems as_OSLs h s)
      | _ \<Rightarrow> False) \<and>
     extends h k \<and> insert (fst q) (list_cells S k w) \<inter> used h = {}"
proof -
  obtain q k w where k: "OpenStackLightspeedList_DeepCopy L (Some p) h = GoOk (Some q, k)"
    "typed S k" "extends h k" "load list_at q k = GoOk w" "list_view S k w = list_view S h v"
    "insert (fst q) (list_cells S k w) \<inter> used h = {}"
    by (rule copy_library.list_DeepCopy [OF assms])
  have "slice_ok as_OSLs h (ls_Items v)"
    using copy_library.list_loaded_ok [OF assms] by (simp add: list_ok_def)
  then have "slice_array t \<noteq> slice_array s \<and> length (elems as_OSLs h s) = slice_len s"
    if "ls_Items v = Some s" "ls_Items w = Some t" for s t
    using that k(6) by (auto simp: osl.slice_ok_Some osl.elems_eq list_cells_def slice_cells_def)
  moreover have "slice_view as_OSLs (osl_view S) k (ls_Items w) =
      slice_view as_OSLs (osl_view S) h (ls_Items v)"
    using k(5) by (simp add: list_view_def)
  ultimately have "case (ls_Items v, ls_Items w) of (None, None) \<Rightarrow> True
      | (Some s, Some t) \<Rightarrow> slice_array t \<noteq> slice_array s \<and>
          length (elems as_OSLs k t) = slice_len s \<and>
          map (osl_view S k) (elems as_OSLs k t) = map (osl_view S h) (elems as_OSLs h s)
      | _ \<Rightarrow> False"
    by (cases "ls_Items v"; cases "ls_Items w")
      (auto simp: slice_view_def, metis length_map)
  with k show ?thesis
    by (auto simp: OpenStackLightspeedList_DeepCopyObject_def list_view_def)
qed

theorem list_copy_elementwise_witness:
  "\<exists>q k w. OpenStackLightspeedList_DeepCopyObject ref_copiers (Some (3, 0)) sample_heap =
       GoOk (OSLListObject (Some q), k) \<and> load list_at q k = GoOk w \<and>
     (case ls_Items w of None \<Rightarrow> False
      | Some t \<Rightarrow> slice_array t \<noteq> 0 \<and> map (osl_view ref_meaning k) (elems as_OSLs k t) =
          map (osl_view ref_meaning sample_heap) [sample_osl, zero_OSL ref_copiers])"
proof -
  have "elems as_OSLs sample_heap \<lparr>slice_array = 0, slice_offset = 0, slice_len = 2\<rparr> =
      [sample_osl, zero_OSL ref_copiers]"
    by (simp add: elems_def array_at_def sample_heap_def)
  then show ?thesis
    using list_copy_elementwise [OF ref_library.copy_library_axioms sample_heap_typed sample_loads(2)]
    by (fastforce split: option.splits)
qed

text \<open>
  C25: Copying a list into another one neither panics nor breaks the typing of the memory: every
  slice still has an array of its type and of sufficient length, every block keeps its type
  and length, and only the target variable has been assigned to.
\<close>

theorem copies_keep_types:
  assumes "copy_library S L" and "typed S h"
    and "load list_at p h = GoOk v" and "load list_at q h = GoOk u"
    and "p \<noteq> q" and "fst q \<notin> list_cells S h v"
  shows "\<exists>w k. OpenStackLightspeedList_DeepCopyInto L (Some p) (Some q) h = GoOk k \<and>
     typed S k \<and> hext h k \<and> list_ok S k w \<and> written list_at q w h k"
proof (rule deep_copier.copies [OF copy_library.list_deep_copier [OF assms(1)] assms(2-5)])
  fix w k
  assume k: "OpenStackLightspeedList_DeepCopyInto L (Some p) (Some q) h = GoOk k"
    "copied S list_at (list_ok S) (list_view S) (list_cells S) h v q w k"
  then have "written list_at q w h k" by (simp add: copied_def)
  with k osllist.written_hext [OF this] show ?thesis by (auto simp: copied_def)
qed (use assms(6) in simp)

theorem copies_keep_types_witness:
  "\<exists>w k. OpenStackLightspeedList_DeepCopyInto ref_copiers (Some (3, 0)) (Some (3, 1)) sample_heap = GoOk k \<and>
     typed ref_meaning k \<and> hext sample_heap k \<and> list_ok ref_meaning k w \<and>
     written list_at (3, 1) w sample_heap k"
  by (rule copies_keep_types [OF ref_library.copy_library_axioms sample_heap_typed sample_loads(2,3)])
    (simp_all add: list_cells_def slice_cells_def elems_def array_at_def sample_heap_def osl_cells_def
      status_cells_def ref_meaning_def sample_osl_def sample_status_def zero_OSL_def zero_Status_def
      ref_copiers_def)

text \<open>
  Nil pointers. \<^verbatim>\<open>DeepCopyObject\<close> of a nil pointer is the nil interface, not an interface that
  holds a nil pointer, and of any other pointer never nil; \<^verbatim>\<open>DeepCopyInto\<close> with a nil receiver or a
  nil target panics.
\<close>

lemma nil_receivers:
  "OpenStackLightspeed_DeepCopyObject L None h = GoOk (NilObject, h) \<and>
   OpenStackLightspeedList_DeepCopyObject L None h = GoOk (NilObject, h) \<and>
   (case OpenStackLightspeed_DeepCopyObject L (Some p) h of
      GoOk (r, k) \<Rightarrow> (\<exists>q. r = OSLObject (Some q)) | _ \<Rightarrow> True) \<and>
   (case OpenStackLightspeedList_DeepCopyObject L (Some p) h of
      GoOk (r, k) \<Rightarrow> (\<exists>q. r = OSLListObject (Some q)) | _ \<Rightarrow> True) \<and>
   OpenStackLightspeed_DeepCopyInto L None q h = GoPanic nil_dereference \<and>
   OpenStackLightspeed_DeepCopyInto L (Some p) None h = GoPanic nil_dereference \<and>
   OpenStackLightspeedList_DeepCopyInto L None q h = GoPanic nil_dereference \<and>
   OpenStackLightspeedList_DeepCopyInto L (Some p) None h = GoPanic nil_dereference"
  by (auto simp: OpenStackLightspeed_DeepCopyObject_def OpenStackLightspeedList_DeepCopyObject_def
      OpenStackLightspeed_DeepCopy_def OpenStackLightspeedList_DeepCopy_def resThen_def
      OpenStackLightspeed_DeepCopyInto_def OpenStackLightspeedList_DeepCopyInto_def
      split: gores.splits prod.splits)

end
