(* ===== verification/Lifecycle.thy ===== *)
theory Lifecycle
  imports Reconciler
begin

text \<open>
  Many runs: histories of reconciliations of any instances, with steps of everything else in
  between. What holds of single runs is put together here to a statement about the whole life
  of an instance: what a run has set up for it is not forgotten when the instance goes away.
\<close>

section \<open>Operations that keep a property of the world\<close>

definition preserves :: "('w \<Rightarrow> bool) \<Rightarrow> ('w, 'a) op \<Rightarrow> bool" where
  "preserves P m \<longleftrightarrow> (\<forall>s. P (world s) \<longrightarrow> P (world (snd (m s))))"

named_theorems preserves_intros \<open>which operations keep a property of the world\<close>

lemma preservesD: "preserves P m \<Longrightarrow> m s = (r, t) \<Longrightarrow> P (world s) \<Longrightarrow> P (world t)"
  unfolding preserves_def by (metis snd_conv)

lemma preserves_pure [preserves_intros]:
  "preserves P (ret x)" "preserves P (fail e)" "preserves P (panic p)" "preserves P (lift_res r)"
  by (simp_all add: preserves_def)

lemma preserves_perform [preserves_intros]:
  "(\<And>w. P w \<Longrightarrow> P (snd (a w))) \<Longrightarrow> preserves P (perform c a)"
  unfolding preserves_def perform_def by (auto split: prod.split) (metis snd_conv)

lemma preserves_onErr [preserves_intros]:
  fixes m :: "('w, 'a) op"
  assumes "preserves P m" "\<And>e. preserves P (h e)" "\<And>x. preserves P (f x)"
  shows "preserves P (onErr m h f)"
  unfolding preserves_def
proof (intro allI impI)
  fix s :: "'w state" assume "P (world s)"
  obtain r s' where m: "m s = (r, s')" by (cases "m s")
  with assms(1) \<open>P (world s)\<close> have "P (world s')" by (auto dest: preservesD)
  with m assms(2,3) show "P (world (snd (onErr m h f s)))"
    by (cases r) (simp_all add: onErr_run preserves_def)
qed

lemma preserves_andThen [preserves_intros]:
  "preserves P m \<Longrightarrow> (\<And>x. preserves P (f x)) \<Longrightarrow> preserves P (andThen m f)"
  unfolding andThen_def by (intro preserves_intros)

lemma preserves_andThen_returns:
  assumes "preserves P m" and "returns Q m" and "\<And>x. Q x \<Longrightarrow> preserves P (f x)"
  shows "preserves P (andThen m f)"
proof -
  have "preserves P (andThen m (\<lambda>x. if Q x then f x else ret undefined))"
    using assms(1,3) by (intro preserves_intros) (auto simp: preserves_pure split: if_split)
  moreover have "andThen m (\<lambda>x. if Q x then f x else ret undefined) = andThen m f"
    using assms(2) by (auto simp: fun_eq_iff andThen_run returns_def split: prod.split gores.split)
  ultimately show ?thesis by simp
qed

lemma preserves_cases [preserves_intros]:
  "preserves P m \<Longrightarrow> preserves P n \<Longrightarrow> preserves P (if b then m else n)"
  "preserves P m \<Longrightarrow> (\<And>x. preserves P (f x)) \<Longrightarrow> preserves P (case opt of None \<Rightarrow> m | Some x \<Rightarrow> f x)"
  "(\<And>x y. preserves P (g x y)) \<Longrightarrow> preserves P (case p of (x, y) \<Rightarrow> g x y)"
  "preserves P m \<Longrightarrow> (\<And>x xs. preserves P (h x xs)) \<Longrightarrow> preserves P (case l of [] \<Rightarrow> m | x # xs \<Rightarrow> h x xs)"
  by (cases b, simp_all) (cases opt, simp_all, cases p, simp, cases l, simp_all)

text \<open>
  A client whose calls keep a property of the world: first the calls that have nothing to do with
  the \<^verbatim>\<open>OLSConfig\<close>, then also those that have. The patch of an instance is left out.
\<close>

definition olm_calls_keep :: "('w \<Rightarrow> bool) \<Rightarrow> 'w client \<Rightarrow> bool" where
  "olm_calls_keep P C \<longleftrightarrow>
     (\<forall>w. P w \<longrightarrow>
        (\<forall>k. P (snd (get_instance C k w))) \<and> (\<forall>ns. P (snd (list_instances C ns w))) \<and>
        P (snd (get_config C w)) \<and> P (snd (new_client C w)) \<and>
        (\<forall>n. P (snd (raw_get_cluster_version C n w))) \<and> (\<forall>ns. P (snd (raw_list_csvs C ns w))) \<and>
        (\<forall>c. P (snd (update_csv C c w))) \<and> (\<forall>c. P (snd (delete_csv C c w))) \<and>
        (\<forall>k. P (snd (get_subscription C k w))) \<and>
        (\<forall>x f. P (snd (create_or_update_subscription C x f w))) \<and>
        (\<forall>ns. P (snd (list_install_plans C ns w))) \<and> (\<forall>p. P (snd (update_install_plan C p w))) \<and>
        (\<forall>p. P (snd (delete_install_plan C p w))))"

definition config_calls_keep :: "('w \<Rightarrow> bool) \<Rightarrow> 'w client \<Rightarrow> bool" where
  "config_calls_keep P C \<longleftrightarrow>
     (\<forall>w. P w \<longrightarrow>
        P (snd (list_olsconfigs C w)) \<and> (\<forall>x f. P (snd (create_or_patch_olsconfig C x f w))) \<and>
        (\<forall>x. P (snd (update_olsconfig C x w))) \<and> (\<forall>x. P (snd (delete_olsconfig C x w))) \<and>
        (\<forall>n. P (snd (rand_Int C n w))))"

locale kept_by_olm =
  fixes P :: "'w \<Rightarrow> bool" and D :: "'w deps"
  assumes olm_keeps: "olm_calls_keep P (cli D)"
begin

lemmas kept = olm_keeps [unfolded olm_calls_keep_def, rule_format]

lemma keeps_get: "P w \<Longrightarrow> get_instance (cli D) k w = (r, w') \<Longrightarrow> P w'"
  using kept [of w] by (metis snd_conv)

lemma preserves_GetRawClient: "preserves P (GetRawClient D)"
  unfolding GetRawClient_def by (intro preserves_intros) (simp_all add: kept)

lemma preserves_olm_reads:
  "preserves P (GetOLSOperatorCSV D)" "preserves P (GetOLSOperatorInstallPlan D i)"
  "preserves P (DetectOCPVersion D)"
  unfolding GetOLSOperatorCSV_def GetOLSOperatorInstallPlan_def DetectOCPVersion_def
  by (intro preserves_intros preserves_GetRawClient; simp add: kept)+

lemma preserves_resolveOCPVersion: "preserves P (resolveOCPVersion D i)"
  unfolding resolveOCPVersion_def Let_def by (intro preserves_intros preserves_olm_reads)

lemma preserves_install: "preserves P (EnsureOLSOperatorInstalled D i)"
  unfolding EnsureOLSOperatorInstalled_def IsUserInstalledOLSOperatorMode_def install_parts
    approve_and_adopt_def adopt_def adopt_csv_def InstanceOwnedOLSOperatorComplete_def Let_def
  by (intro preserves_intros preserves_olm_reads) (simp_all add: kept)

lemma preserves_uninstall: "preserves P (UninstallInstanceOwnedOLSOperator D i)"
  unfolding UninstallInstanceOwnedOLSOperator_def DeleteOLSOperatorInstallPlan_def
  by (intro preserves_intros preserves_olm_reads) (simp_all add: kept)

text \<open>
  The body keeps what its part about the \<^verbatim>\<open>OLSConfig\<close> keeps: the removal when the instance is being
  deleted, with the metadata that the run has read, and otherwise the patch and the check.
\<close>

lemma preserves_body_parts:
  assumes "\<And>i. \<not> Time_IsZero D (meta_DeletionTimestamp (osl_Meta inst)) \<Longrightarrow> osl_Meta i = osl_Meta inst \<Longrightarrow>
      preserves P (RemoveOLSConfig D h i)"
    and "\<And>i. Time_IsZero D (meta_DeletionTimestamp (osl_Meta inst)) \<Longrightarrow> osl_UID i = osl_UID inst \<Longrightarrow>
      preserves P (reconcile_olsConfig D h i)"
    and "finalizers_contract D"
  shows "preserves P (reconcile_body D dflt h inst)"
proof -
  let ?zero = "Time_IsZero D (meta_DeletionTimestamp (osl_Meta inst))"
  have delete: "preserves P (reconcileDelete D h i)" if "osl_Meta i = osl_Meta inst" "\<not> ?zero" for i
    unfolding reconcileDelete_def
    by (intro preserves_intros assms(1) [OF that(2,1)] preserves_uninstall)
  have install: "preserves P (reconcile_install D h i)" if "osl_UID i = osl_UID inst" ?zero for i
    unfolding reconcile_install_def Let_def
    by (intro preserves_intros preserves_install assms(2)) (simp_all add: that)
  show ?thesis
    unfolding reconcile_body_def
  proof (rule preserves_andThen_returns [OF preserves_resolveOCPVersion returns_resolveOCPVersion])
    fix x :: "string \<times> OpenStackLightspeed"
    assume "case x of (v, inst') \<Rightarrow> ocp_outcome D (initialise_status D inst) v inst'"
    then have x: "osl_Meta (snd x) = osl_Meta inst"
      by (auto simp: ocp_outcome_frame split: prod.splits)
    have "osl_UID (apply_defaults dflt (snd (AddFinalizer D (snd x) f))) = osl_UID inst" for f
      using x by (simp add: add_finalizer_frame [OF assms(3)])
    with x delete [OF x] show "preserves P (case x of (_, inst) \<Rightarrow>
       if \<not> Time_IsZero D (meta_DeletionTimestamp (osl_Meta inst)) then reconcileDelete D h inst
       else (let (added, inst) = AddFinalizer D inst (GetFinalizer D h) in
          if added then ret ((empty_Result, None), inst)
          else reconcile_install D h (apply_defaults dflt inst)))"
      by (simp add: case_prod_beta Let_def preserves_pure install)
  qed
qed

end

locale kept_world = kept_by_olm P D
  for P :: "'w \<Rightarrow> bool" and D :: "'w deps" +
  assumes config_keeps: "config_calls_keep P (cli D)"
begin

lemmas kept_config = config_keeps [unfolded config_calls_keep_def, rule_format]

lemma preserves_GetOLSConfig: "preserves P (GetOLSConfig D)"
  unfolding GetOLSConfig_def by (intro preserves_intros) (simp_all add: kept_config)

lemma preserves_RemoveOLSConfig: "preserves P (RemoveOLSConfig D h i)"
  unfolding RemoveOLSConfig_def by (intro preserves_intros preserves_GetOLSConfig) (simp_all add: kept_config)

lemma preserves_reconcile_olsConfig: "preserves P (reconcile_olsConfig D h i)"
  unfolding reconcile_olsConfig_def IsOLSConfigReady_def OLSConfigPing_def Let_def
  by (intro preserves_intros preserves_GetOLSConfig) (simp_all add: kept_config)

text \<open>The body of a run keeps what all of its calls keep.\<close>

lemma preserves_body: "finalizers_contract D \<Longrightarrow> preserves P (reconcile_body D dflt h i)"
  by (intro preserves_body_parts preserves_RemoveOLSConfig preserves_reconcile_olsConfig)

end

section \<open>Instances in the cluster\<close>

text \<open>
  \<open>stored w k\<close> is the instance that the cluster has under the key \<open>k\<close>. An instance is held when it
  is the one with the given identifier and has the finalizer.
\<close>

definition instance_key :: "OpenStackLightspeed \<Rightarrow> NamespacedName" where
  "instance_key i = \<lparr>nn_Namespace = osl_Namespace i, nn_Name = meta_Name (osl_Meta i)\<rparr>"

definition held :: "string \<Rightarrow> string \<Rightarrow> OpenStackLightspeed option \<Rightarrow> bool" where
  "held f uid opt \<longleftrightarrow>
     (case opt of None \<Rightarrow> False | Some i \<Rightarrow> osl_UID i = uid \<and> f \<in> set (meta_Finalizers (osl_Meta i)))"

lemma held_unique: "held f u opt \<Longrightarrow> held f v opt \<Longrightarrow> u = v"
  by (auto simp: held_def split: option.splits)

lemma held_Some [simp]: "held f uid (Some i) \<longleftrightarrow> osl_UID i = uid \<and> f \<in> set (meta_Finalizers (osl_Meta i))"
  by (simp add: held_def)

text \<open>
  What the cluster and everybody else in it promise: reading gives the instance that is stored;
  no step of somebody else (\<open>env\<close>) and no call apart from the patch of an instance takes the
  finalizer away or removes an instance that has it; a patch touches only the instance it is
  for, and leaves that one held if the patched object has the finalizer. The name of the
  finalizer does not depend on the instance.
\<close>

locale instance_store =
  fixes D :: "'w deps"
    and stored :: "'w \<Rightarrow> NamespacedName \<Rightarrow> OpenStackLightspeed option"
    and env :: "'w \<Rightarrow> 'w \<Rightarrow> bool"
    and f :: string
  assumes reading: "get_instance (cli D) k w = (Inr i, w') \<Longrightarrow> stored w' k = Some i \<and> instance_key i = k"
    and others_keep: "env w w' \<Longrightarrow> held f uid (stored w k) \<Longrightarrow> held f uid (stored w' k)"
    and calls_keep: "olm_calls_keep (\<lambda>w. held f uid (stored w k)) (cli D)"
      "config_calls_keep (\<lambda>w. held f uid (stored w k)) (cli D)"
    and patch_keeps: "held f uid (stored w k) \<Longrightarrow>
      (instance_key i = k \<Longrightarrow> osl_UID i = uid \<and> f \<in> set (meta_Finalizers (osl_Meta i))) \<Longrightarrow>
      held f uid (stored (snd (patch_instance (cli D) before i w)) k)"
    and one_finalizer: "NewHelper D i = Inr helper \<Longrightarrow> GetFinalizer D helper = f"

sublocale instance_store \<subseteq> store: kept_world "\<lambda>w. held f uid (stored w k)" D for uid k
  by unfold_locales (rule calls_keep)+

section \<open>Histories\<close>

datatype 'w event =
    Ran NamespacedName "'w state" "ReconcileResult gores" "'w state"
  | Moved

inductive history ::
  "'w deps \<Rightarrow> OpenStackLightspeedDefaults \<Rightarrow> ('w \<Rightarrow> 'w \<Rightarrow> bool) \<Rightarrow> 'w \<Rightarrow> 'w event list \<Rightarrow> 'w \<Rightarrow> bool"
  for D :: "'w deps" and dflt env start where
  begun: "history D dflt env start [] start"
| ran:
    "history D dflt env start tr w \<Longrightarrow>
     Reconcile D dflt req \<lparr>world = w, calls = []\<rparr> = (r, t) \<Longrightarrow>
     history D dflt env start (tr @ [Ran req \<lparr>world = w, calls = []\<rparr> r t]) (world t)"
| moved:
    "history D dflt env start tr w \<Longrightarrow> env w w' \<Longrightarrow> history D dflt env start (tr @ [Moved]) w'"

text \<open>
  A history in which nobody else does anything: what every run keeps holds at the end, and what
  every run then returns is what all of them have returned.
\<close>

lemma runs_only:
  assumes "\<And>w req r t. Inv w \<Longrightarrow> Reconcile D dflt req \<lparr>world = w, calls = []\<rparr> = (r, t) \<Longrightarrow> Inv (world t) \<and> Res req r"
  shows "history D dflt (\<lambda>_ _. False) start tr w \<Longrightarrow> Inv start \<Longrightarrow>
    Inv w \<and> (\<forall>k s r t. Ran k s r t \<in> set tr \<longrightarrow> Res k r)"
proof (induction rule: history.induct)
  case (ran tr w req r t)
  then show ?case using assms [OF _ ran.hyps(2)] by auto
qed simp_all

text \<open>
  A run that has done the work of a deletion: it saw the removal of the \<^verbatim>\<open>OLSConfig\<close> and the
  uninstallation of the operator succeed, and then patched the instance.
\<close>

definition cleaned_up :: "'w deps \<Rightarrow> string \<Rightarrow> 'w state \<Rightarrow> bool" where
  "cleaned_up D uid t \<longleftrightarrow>
     (\<exists>helper inst1 inst' s1 s2 s3. osl_UID inst1 = uid \<and>
        RemoveOLSConfig D helper inst1 s1 = (GoOk True, s2) \<and>
        UninstallInstanceOwnedOLSOperator D inst1 s2 = (GoOk True, s3) \<and>
        calls t = calls s3 @ [PatchInstance inst'])"

text \<open>The body of a run keeps the identity of the instance.\<close>

lemma body_identity:
  assumes "finalizers_contract D" and "reconcile_body D dflt helper inst s = (GoOk (p, inst'), t)"
  shows "instance_key inst' = instance_key inst" "osl_UID inst' = osl_UID inst"
proof -
  have "osl_UID inst' = osl_UID inst \<and> instance_key inst' = instance_key inst"
    using assms(2)
  proof (rule body_cases, goal_cases)
    case (1 v inst1 s1)
    have "osl_Meta inst1 = osl_Meta inst" using 1(2) by (simp add: ocp_outcome_frame)
    with 1(3) show ?case
      by (auto dest!: delete_outcome install_outcome simp: instance_key_def
          finalizers_contract.add_object [OF assms(1)] finalizers_contract.remove_object [OF assms(1)])
  qed
  then show "instance_key inst' = instance_key inst" "osl_UID inst' = osl_UID inst" by simp_all
qed

text \<open>Without the finalizer a run reads and patches the instance, and does nothing else.\<close>

lemma body_without_finalizer:
  assumes "finalizers_contract D" and "Time_IsZero D (meta_DeletionTimestamp (osl_Meta inst))"
    and "GetFinalizer D helper \<notin> set (meta_Finalizers (osl_Meta inst))"
  shows "reads_only (reconcile_body D dflt helper inst)"
  unfolding reconcile_body_def
proof (rule emits_andThen_returns [OF _ returns_resolveOCPVersion])
  show "reads_only (resolveOCPVersion D (initialise_status D inst))"
    by (intro emits_intros) simp_all
  fix x :: "string \<times> OpenStackLightspeed"
  assume x: "case x of (v, inst') \<Rightarrow> ocp_outcome D (initialise_status D inst) v inst'"
  then have "fst (AddFinalizer D (snd x) (GetFinalizer D helper))"
    using assms(3) by (auto simp: finalizers_contract.add_result [OF assms(1)] ocp_outcome_frame split: prod.splits)
  with x assms(2) show "reads_only (case x of (_, inst) \<Rightarrow>
     if \<not> Time_IsZero D (meta_DeletionTimestamp (osl_Meta inst)) then reconcileDelete D helper inst
     else (let (added, inst) = AddFinalizer D inst (GetFinalizer D helper) in
        if added then ret ((empty_Result, None), inst)
        else reconcile_install D helper (apply_defaults dflt inst)))"
    by (auto simp: ocp_outcome_frame case_prod_beta intro!: emits_pure split: prod.split)
qed

context instance_store
begin

text \<open>
  From the moment it has read its instance, a run keeps an instance held, or it is the run that
  has cleaned up after it.
\<close>

lemma run_keeps_from_read:
  assumes "finalizers_contract D" and "get_instance (cli D) req (world s) = (Inr inst, w)"
    and "held f uid (stored w k)" and "Reconcile D dflt req s = (r, t)"
  shows "held f uid (stored (world t) k) \<or>
    req = k \<and> \<not> Time_IsZero D (meta_DeletionTimestamp (osl_Meta inst)) \<and> cleaned_up D uid t"
proof (cases "NewHelper D inst")
  case (Inl e)
  with assms(2,4) have "world t = w" by (auto simp: Reconcile_def onErr_run perform_def)
  with assms(3) show ?thesis by simp
next
  case new: (Inr helper)
  note body_keeps = preservesD [OF store.preserves_body [OF assms(1), of uid k dflt helper inst]]
  from assms(2) new assms(4) show ?thesis
  proof (cases rule: Reconcile_cases)
    case (panicked p)
    from body_keeps [OF panicked(2)] assms(3) show ?thesis by (simp add: after_get_def)
  next
    case (finished p inst0 s')
    let ?i = "patched D inst inst0"
    have h': "held f uid (stored (world s') k)"
      using body_keeps [OF finished(2)] assms(3) by (simp add: after_get_def)
    from reading [OF assms(2)] have rd: "stored w req = Some inst" "instance_key inst = req" by auto
    have key: "instance_key ?i = req" "osl_UID ?i = osl_UID inst"
      using body_identity [OF assms(1) finished(2)] rd(2) by (simp_all add: instance_key_def)
    show ?thesis
    proof (cases "req = k \<and> f \<notin> set (meta_Finalizers (osl_Meta ?i))")
      case True
      with rd assms(3) have u: "osl_UID inst = uid" "f \<in> set (meta_Finalizers (osl_Meta inst))" by auto
      from finished(3) have "last (calls t) = PatchInstance ?i" by simp
      from finalizer_released [OF assms(1,2) new _ assms(4) this] one_finalizer [OF new] u True
      show ?thesis unfolding cleaned_up_def by blast
    next
      case False
      have "osl_UID ?i = uid" if "req = k" using that rd assms(3) key(2) by simp
      with False h' key(1) have "held f uid (stored (snd (patch_instance (cli D) helper ?i (world s'))) k)"
        by (intro patch_keeps) auto
      with finished(3) show ?thesis by simp
    qed
  qed
qed

lemma run_keeps:
  assumes "finalizers_contract D" and "held f uid (stored (world s) k)"
    and "Reconcile D dflt req s = (r, t)"
  shows "held f uid (stored (world t) k) \<or> req = k \<and> cleaned_up D uid t"
proof -
  obtain g w where g: "get_instance (cli D) req (world s) = (g, w)"
    by (cases "get_instance (cli D) req (world s)")
  have h: "held f uid (stored w k)" using assms(2) g by (rule store.keeps_get)
  show ?thesis
  proof (cases g)
    case (Inl e)
    with g assms(3) have "world t = w"
      by (auto simp: Reconcile_def onErr_run perform_def split: if_splits)
    with h show ?thesis by simp
  next
    case (Inr inst)
    with g have "get_instance (cli D) req (world s) = (Inr inst, w)" by simp
    from run_keeps_from_read [OF assms(1) this h assms(3)] show ?thesis by blast
  qed
qed

text \<open>A run that has written anything but the instance has the instance held.\<close>

lemma writing_run_held:
  assumes "finalizers_contract D" and "get_instance (cli D) k (world s) = (Inr inst, w)"
    and "Time_IsZero D (meta_DeletionTimestamp (osl_Meta inst))"
    and "Reconcile D dflt k s = (r, t)" and "\<exists>c\<in>set (calls t). c \<notin> set (calls s) \<and> is_external_write c"
  shows "held f (osl_UID inst) (stored w k)"
proof (rule ccontr)
  assume "\<not> held f (osl_UID inst) (stored w k)"
  with reading [OF assms(2)] have nf: "f \<notin> set (meta_Finalizers (osl_Meta inst))" by auto
  show False
  proof (cases "NewHelper D inst")
    case (Inl e)
    with assms(2,4,5) show False by (auto simp: Reconcile_def onErr_run perform_def)
  next
    case (Inr helper)
    have "reads_only (reconcile_body D dflt helper inst)"
      by (rule body_without_finalizer [OF assms(1,3)]) (simp add: one_finalizer [OF Inr] nf)
    then obtain new where new: "calls (snd (reconcile_body D dflt helper inst (after_get k w s))) =
        calls s @ GetInstance k # new" "list_all (\<lambda>c. \<not> is_write c) new"
      by (rule emitsE [of _ _ "after_get k w s"]) simp
    have ext: "is_external_write c \<Longrightarrow> is_write c" for c by (cases c) simp_all
    from assms(2) Inr assms(4) show False
      by (cases rule: Reconcile_cases) (use new assms(5) ext in \<open>auto simp: list_all_iff\<close>)
  qed
qed

text \<open>
  After a run for an instance that is not being deleted has written anything but the instance,
  the instance stays held until a later run has cleaned up.
\<close>

lemma held_until_cleaned_up:
  assumes "finalizers_contract D"
  shows "history D dflt env start tr w \<Longrightarrow> tr = before @ Ran k s r t # after \<Longrightarrow>
    get_instance (cli D) k (world s) = (Inr inst, w1) \<Longrightarrow>
    Time_IsZero D (meta_DeletionTimestamp (osl_Meta inst)) \<Longrightarrow> list_ex is_external_write (calls t) \<Longrightarrow>
    held f (osl_UID inst) (stored w k) \<or>
    (\<exists>s' r' t'. Ran k s' r' t' \<in> set after \<and> cleaned_up D (osl_UID inst) t')"
proof (induction arbitrary: after rule: history.induct)
  case begun
  then show ?case by simp
next
  case (ran tr w req r' t')
  show ?case
  proof (cases after rule: rev_cases)
    case Nil
    with ran.prems(1) have e: "req = k" "s = \<lparr>world = w, calls = []\<rparr>" "r' = r" "t' = t" by auto
    from ran.hyps(2) have run: "Reconcile D dflt k s = (r, t)" by (simp add: e)
    have "held f (osl_UID inst) (stored w1 k)"
      by (rule writing_run_held [OF assms ran.prems(2,3) run])
        (use ran.prems(4) e(2) in \<open>auto simp: list_ex_iff\<close>)
    from run_keeps_from_read [OF assms ran.prems(2) this run] ran.prems(3) e show ?thesis by simp
  next
    case (snoc after' e)
    with ran.prems(1) have tr: "tr = before @ Ran k s r t # after'"
      and e: "e = Ran req \<lparr>world = w, calls = []\<rparr> r' t'" by auto
    from ran.IH [OF tr ran.prems(2-4)] show ?thesis
    proof
      assume "held f (osl_UID inst) (stored w k)"
      with run_keeps [OF assms _ ran.hyps(2), of "osl_UID inst" k] show ?thesis
        by (auto simp: snoc e)
    qed (auto simp: snoc)
  qed
next
  case (moved tr w w')
  then obtain after' where "after = after' @ [Moved]" "tr = before @ Ran k s r t # after'"
    by (cases after rule: rev_cases) auto
  with moved show ?case using others_keep by fastforce
qed

end

section \<open>Nothing is left behind\<close>

text \<open>
  C3: what was set up is cleaned up before the instance goes. In every history of runs for any
  instances and of steps of anybody else, once a run for an instance that is not being
  deleted has written anything but the instance, that instance stays in the cluster with its
  finalizer, unless a later run for it has seen the removal of the \<^verbatim>\<open>OLSConfig\<close> and the
  uninstallation of the operator succeed.
\<close>

theorem nothing_left_behind:
  assumes "instance_store D stored env f" and "finalizers_contract D"
    and "history D dflt env start (before @ Ran k s r t # after) w"
    and "get_instance (cli D) k (world s) = (Inr inst, w1)"
    and "Time_IsZero D (meta_DeletionTimestamp (osl_Meta inst))" and "list_ex is_external_write (calls t)"
  shows "held f (osl_UID inst) (stored w k) \<or>
    (\<exists>s' r' t'. Ran k s' r' t' \<in> set after \<and> cleaned_up D (osl_UID inst) t')"
  using instance_store.held_until_cleaned_up [OF assms(1,2,3) refl assms(4,5,6)] .

end
