(* ===== verification/Cluster_Steps.thy ===== *)
theory Cluster_Steps
  imports Lifecycle Progress Stability
begin

text \<open>
  The cluster in memory with everybody else in it: the users, who create, edit and delete
  instances, the API server, the garbage collector, the Operator Lifecycle Manager and the
  OpenShift Lightspeed operator. They satisfy what the histories assume of them.
\<close>

section \<open>The steps of the others\<close>

definition change_instance ::
  "NamespacedName \<Rightarrow> (OpenStackLightspeed \<Rightarrow> OpenStackLightspeed) \<Rightarrow> cluster \<Rightarrow> cluster" where
  "change_instance k g w =
     w\<lparr>c_instances := map (\<lambda>i. if instance_key i = k then g i else i) (c_instances w)\<rparr>"

text \<open>A deletion is requested: the API server sets the deletion timestamp, once.\<close>

definition mark_deleted :: "int \<Rightarrow> OpenStackLightspeed \<Rightarrow> OpenStackLightspeed" where
  "mark_deleted n i =
     (if meta_DeletionTimestamp (osl_Meta i) = None
      then i\<lparr>osl_Meta := (osl_Meta i)\<lparr>meta_DeletionTimestamp := Some n\<rparr>\<rparr> else i)"

text \<open>An instance that is being deleted and has no finalizers is removed.\<close>

definition removable :: "OpenStackLightspeed \<Rightarrow> bool" where
  "removable i \<longleftrightarrow> meta_DeletionTimestamp (osl_Meta i) \<noteq> None \<and> meta_Finalizers (osl_Meta i) = []"

text \<open>The garbage collector removes subscriptions none of whose owners exists.\<close>

definition orphaned :: "cluster \<Rightarrow> Subscription \<Rightarrow> bool" where
  "orphaned w sub \<longleftrightarrow> meta_OwnerReferences (sub_Meta sub) \<noteq> [] \<and>
     list_all (\<lambda>r. ref_UID r \<notin> osl_UID ` set (c_instances w)) (meta_OwnerReferences (sub_Meta sub))"

text \<open>
  The Operator Lifecycle Manager resolves a subscription into a plan that waits for approval,
  and installs the cluster service versions of an approved plan.
\<close>

definition link_plan :: "Subscription \<Rightarrow> InstallPlan \<Rightarrow> cluster \<Rightarrow> cluster" where
  "link_plan sub plan w =
     w\<lparr>c_subs := map (\<lambda>x. if x = sub then x\<lparr>sub_InstallPlanRef := Some (meta_Name (ip_Meta plan))\<rparr> else x) (c_subs w),
       c_plans := c_plans w @ [plan]\<rparr>"

definition installed_csv :: "InstallPlan \<Rightarrow> string \<Rightarrow> ClusterServiceVersion" where
  "installed_csv plan n =
     \<lparr>csv_Meta = empty_ObjectMeta\<lparr>meta_Name := n, meta_Namespace := meta_Namespace (ip_Meta plan)\<rparr>,
      csv_Phase = CSVPhaseSucceeded\<rparr>"

text \<open>
  The OpenShift Lightspeed operator reports the status of the \<^verbatim>\<open>OLSConfig\<close>. Anybody may change any
  field of it but the labels, finalizers included; when it is being deleted and has no
  finalizers the API server removes it.
\<close>

definition config_removable :: "object \<Rightarrow> bool" where
  "config_removable cfg \<longleftrightarrow>
     at_path cfg [''metadata'', ''deletionTimestamp''] \<noteq> None \<and> ref_finalizers cfg = []"

definition report_status :: "string \<Rightarrow> object \<Rightarrow> object" where
  "report_status st cfg = ref_put cfg (JString st) [''status'', ''overallStatus'']"

inductive cluster_step :: "cluster \<Rightarrow> cluster \<Rightarrow> bool" where
  created: "instance_key i \<notin> instance_key ` set (c_instances w) \<Longrightarrow> meta_Finalizers (osl_Meta i) = [] \<Longrightarrow>
     osl_UID i \<noteq> [] \<Longrightarrow>
     cluster_step w (w\<lparr>c_instances := c_instances w @ [i]\<rparr>)"
| edited: "cluster_step w (change_instance k (\<lambda>i. i\<lparr>Spec := sp\<rparr>) w)"
| deleted: "n \<noteq> 0 \<Longrightarrow> cluster_step w (change_instance k (mark_deleted n) w)"
| removed: "cluster_step w (w\<lparr>c_instances := filter (\<lambda>i. \<not> removable i) (c_instances w)\<rparr>)"
| collected: "cluster_step w (w\<lparr>c_subs := filter (\<lambda>x. \<not> orphaned w x) (c_subs w)\<rparr>)"
| linked: "sub \<in> set (c_subs w) \<Longrightarrow> \<not> ip_Approved plan \<Longrightarrow>
     meta_Namespace (ip_Meta plan) = meta_Namespace (sub_Meta sub) \<Longrightarrow> cluster_step w (link_plan sub plan w)"
| installed: "plan \<in> set (c_plans w) \<Longrightarrow> ip_Approved plan \<Longrightarrow> n \<in> set (ip_ClusterServiceVersionNames plan) \<Longrightarrow>
     cluster_step w (w\<lparr>c_csvs := c_csvs w @ [installed_csv plan n]\<rparr>)"
| touched: "c_config w = Some cfg \<Longrightarrow> apart p label_path \<Longrightarrow>
     cluster_step w (w\<lparr>c_config := Some (ref_put cfg v p)\<rparr>)"
| config_removed: "c_config w = Some cfg \<Longrightarrow> config_removable cfg \<Longrightarrow> cluster_step w (w\<lparr>c_config := None\<rparr>)"

lemma reported: "c_config w = Some cfg \<Longrightarrow> cluster_step w (w\<lparr>c_config := Some (report_status st cfg)\<rparr>)"
  unfolding report_status_def by (rule touched) (simp_all add: apart_def label_path_def)

definition stored_instance :: "cluster \<Rightarrow> NamespacedName \<Rightarrow> OpenStackLightspeed option" where
  "stored_instance w k = find (\<lambda>i. instance_key i = k) (c_instances w)"

section \<open>They keep their promises\<close>

lemma find_map_key:
  "(\<And>i. instance_key (g i) = instance_key i) \<Longrightarrow>
   find (\<lambda>i. instance_key i = k) (map g xs) = map_option g (find (\<lambda>i. instance_key i = k) xs)"
  by (induction xs) simp_all

lemma find_filter: "find p xs = Some x \<Longrightarrow> q x \<Longrightarrow> find p (filter q xs) = Some x"
  by (induction xs) (auto split: if_splits)

lemma find_append: "find p xs = Some x \<Longrightarrow> find p (xs @ ys) = Some x"
  by (induction xs) (auto split: if_splits)

lemma find_key: "find (\<lambda>i. instance_key i = k) xs = Some i \<Longrightarrow> instance_key i = k"
  by (induction xs) (auto split: if_splits)

lemma held_stored: "held f uid (stored_instance w k) \<longleftrightarrow>
   (\<exists>i. find (\<lambda>i. instance_key i = k) (c_instances w) = Some i \<and> osl_UID i = uid \<and>
      f \<in> set (meta_Finalizers (osl_Meta i)))"
  by (auto simp: held_def stored_instance_def split: option.splits)

lemma held_map:
  assumes "held f uid (stored_instance w k)" and "c_instances w' = map g (c_instances w)"
    and key: "\<And>i. instance_key (g i) = instance_key i"
    and g: "\<And>i. instance_key i = k \<Longrightarrow> osl_UID i = uid \<Longrightarrow> f \<in> set (meta_Finalizers (osl_Meta i)) \<Longrightarrow>
      osl_UID (g i) = uid \<and> f \<in> set (meta_Finalizers (osl_Meta (g i)))"
  shows "held f uid (stored_instance w' k)"
proof -
  from assms(1) obtain i where i: "find (\<lambda>i. instance_key i = k) (c_instances w) = Some i"
    "osl_UID i = uid" "f \<in> set (meta_Finalizers (osl_Meta i))" by (auto simp: held_stored)
  with find_map_key [of g k "c_instances w", OF key] g [OF find_key [OF i(1)] i(2,3)] show ?thesis
    unfolding held_stored assms(2) by simp
qed

lemma held_change:
  assumes "held f uid (stored_instance w k)"
    and "\<And>i. meta_Name (osl_Meta (g i)) = meta_Name (osl_Meta i)" "\<And>i. osl_Namespace (g i) = osl_Namespace i"
      "\<And>i. osl_UID (g i) = osl_UID i" "\<And>i. meta_Finalizers (osl_Meta (g i)) = meta_Finalizers (osl_Meta i)"
  shows "held f uid (stored_instance (change_instance k' g w) k)"
  by (rule held_map [OF assms(1), where g = "\<lambda>i. if instance_key i = k' then g i else i"])
    (use assms(2-) in \<open>auto simp: change_instance_def instance_key_def\<close>)

lemma mark_deleted_frame [simp]:
  "meta_Name (osl_Meta (mark_deleted n i)) = meta_Name (osl_Meta i)"
  "osl_Namespace (mark_deleted n i) = osl_Namespace i" "osl_UID (mark_deleted n i) = osl_UID i"
  "meta_Finalizers (osl_Meta (mark_deleted n i)) = meta_Finalizers (osl_Meta i)"
  by (simp_all add: mark_deleted_def)

lemma step_keeps_held:
  assumes "cluster_step w w'" and "held f uid (stored_instance w k)"
  shows "held f uid (stored_instance w' k)"
  using assms(1)
proof cases
  case (created i)
  with assms(2) show ?thesis by (auto simp: held_stored dest: find_append)
next
  case (edited k' sp)
  with assms(2) show ?thesis by (auto intro!: held_change)
next
  case (deleted n k')
  with assms(2) show ?thesis by (auto intro!: held_change)
next
  case removed
  from assms(2) obtain i where i: "find (\<lambda>i. instance_key i = k) (c_instances w) = Some i"
    "osl_UID i = uid" "f \<in> set (meta_Finalizers (osl_Meta i))" by (auto simp: held_stored)
  then have "\<not> removable i" by (auto simp: removable_def)
  from find_filter [where q = "\<lambda>i. \<not> removable i", OF i(1) this] i removed show ?thesis
    by (auto simp: held_stored)
qed (use assms(2) in \<open>auto simp: held_stored link_plan_def\<close>)

lemma ref_get_instance:
  "get_instance ref_client k w =
     (case stored_instance w k of Some i \<Rightarrow> Inr i | None \<Rightarrow> Inl (ref_NotFound (nn_Name k)), w)"
proof -
  have "(case filter p xs of i # _ \<Rightarrow> (Inr i, w) | [] \<Rightarrow> (Inl e, w)) =
      (case find p xs of Some i \<Rightarrow> Inr i | None \<Rightarrow> Inl e, w)" for p xs and e :: goerr
    by (induction xs) simp_all
  moreover have "(\<lambda>i. meta_Name (osl_Meta i) = nn_Name k \<and> osl_Namespace i = nn_Namespace k) =
      (\<lambda>i. instance_key i = k)"
    by (auto simp: fun_eq_iff instance_key_def)
  ultimately show ?thesis by (simp add: ref_client_def stored_instance_def)
qed

lemma nobody_run:
  assumes "stored_instance w req = None" and "Reconcile (ref_deps vars) dflt req \<lparr>world = w, calls = []\<rparr> = (r, t)"
  shows "r = GoOk empty_Result" "world t = w"
proof -
  have "IsNotFound (ref_deps vars) (ref_NotFound x)" for x by (simp add: ref_deps_def ref_NotFound_def)
  with assms show "r = GoOk empty_Result" "world t = w"
    by (auto simp: Reconcile_def onErr_run perform_def ref_get_instance)
qed

lemma ref_calls_keep:
  "olm_calls_keep (\<lambda>w. Q (c_instances w)) ref_client" "config_calls_keep (\<lambda>w. Q (c_instances w)) ref_client"
  by (simp_all add: olm_calls_keep_def config_calls_keep_def ref_client_def ref_create_or_update_subscription_def
      ref_create_or_patch_olsconfig_def ref_delete_olsconfig_def
      split: list.split gores.split option.split)

lemma patch_keeps_held:
  assumes "held f uid (stored_instance w k)"
    and "instance_key i = k \<Longrightarrow> osl_UID i = uid \<and> f \<in> set (meta_Finalizers (osl_Meta i))"
  shows "held f uid (stored_instance (snd (patch_instance ref_client before i w)) k)"
  by (rule held_map [OF assms(1), where g = "\<lambda>y. if same_key (osl_Meta y) (osl_Meta i) then i else y"])
    (use assms(2) in \<open>auto simp: ref_client_def ref_update_def same_key_def instance_key_def\<close>)

interpretation ref_store: instance_store "ref_deps vars" stored_instance cluster_step ref_finalizer for vars
proof
  fix k w i w'
  assume "get_instance (cli (ref_deps vars)) k w = (Inr i, w')"
  then show "stored_instance w' k = Some i \<and> instance_key i = k"
    by (auto simp: ref_get_instance stored_instance_def split: option.splits dest: find_key)
next
  let ?Q = "\<lambda>uid k l. held ref_finalizer uid (find (\<lambda>i. instance_key i = k) l)"
  show "olm_calls_keep (\<lambda>w. held ref_finalizer uid (stored_instance w k)) (cli (ref_deps vars))"
    "config_calls_keep (\<lambda>w. held ref_finalizer uid (stored_instance w k)) (cli (ref_deps vars))" for uid k
    unfolding stored_instance_def ref_deps_sel by (rule ref_calls_keep [where Q = "?Q uid k"])+
qed (auto intro: step_keeps_held patch_keeps_held)

end
