(* ===== verification/Config_Life.thy ===== *)
theory Config_Life
  imports Cluster_Steps
begin

text \<open>
  The \<^verbatim>\<open>OLSConfig\<close> over many runs, in the cluster in memory: for as long as it is there, its owner
  label names the instance whose run created it, and only the runs for this instance change it,
  apart from those for an instance that is being deleted.
\<close>

section \<open>The owner of an OLSConfig\<close>

definition owner_of :: "object \<Rightarrow> string" where
  "owner_of cfg = label_of (GetLabels ref_uns cfg) OpenStackLightspeedOwnerIDLabel"

definition owned_by :: "string \<Rightarrow> object \<Rightarrow> bool" where
  "owned_by u cfg \<longleftrightarrow> u \<noteq> [] \<and> owned_exclusively cfg (Some u) []"

lemma owned_by_labels:
  "owned_by u cfg \<longleftrightarrow> u \<noteq> [] \<and>
     (\<exists>labels. labels_at cfg labels \<and> settable cfg label_path \<and> owner_in labels = Some u)"
  by (auto simp: owned_by_def owned_exclusively_def)

lemma owned_by_labelsE:
  assumes "owned_by u cfg"
  obtains labels where "u \<noteq> []" "labels_at cfg labels" "owner_in labels = Some u"
  using assms unfolding owned_by_labels by blast

lemma owned_by_owner: "owned_by u cfg \<Longrightarrow> owner_of cfg = u \<and> u \<noteq> []"
  using object_metadata.labels_at_GetLabels [OF ref_metadata.object_metadata_axioms]
  by (elim owned_by_labelsE) (auto simp: owner_of_def label_of_owner)

text \<open>The mutate functions, the ping and changes elsewhere keep the owner.\<close>

lemma patch_owner:
  assumes "olsConfig_mutate (ref_deps vars) h i cfg = GoOk cfg'" and "owned_by u cfg"
  shows "osl_UID i = u" "owned_by u cfg'"
proof -
  have om: "object_metadata (unsl (ref_deps vars))" by simp
  show u: "osl_UID i = u"
    using assms(1) owned_by_owner [OF assms(2)] by (auto simp: olsConfig_mutate_GoOk owner_of_def)
  obtain labels where l: "u \<noteq> []" "labels_at cfg labels" "owner_in labels = Some u"
    by (rule owned_by_labelsE [OF assms(2)])
  have "PatchOLSConfig (ref_deps vars) h i cfg = GoOk cfg'" using assms(1) by (simp add: olsConfig_mutate_GoOk)
  from PatchOLSConfig_labels [OF om this l(2)] labels_at_settable l show "owned_by u cfg'"
    unfolding owned_by_labels u by (auto simp: owner_in_updated)
qed

lemma creation_owner:
  assumes "olsConfig_mutate (ref_deps vars) h i (new_olsConfig (ref_deps vars)) = GoOk cfg" and "osl_UID i \<noteq> []"
  shows "owned_by (osl_UID i) cfg"
proof -
  have om: "object_metadata (unsl (ref_deps vars))" by simp
  have "labels_at (new_olsConfig (ref_deps vars)) None"
    by (simp add: labels_at_def new_olsConfig_def ref_uns_def ref_put_def olsConfigGVK_def label_path_def)
  moreover have "PatchOLSConfig (ref_deps vars) h i (new_olsConfig (ref_deps vars)) = GoOk cfg"
    using assms(1) by (simp add: olsConfig_mutate_GoOk)
  ultimately have l: "labels_at cfg (Some (updated_labels (osl_UID i) None))"
    using PatchOLSConfig_labels [OF om] by blast
  have "owner_in (Some (updated_labels (osl_UID i) None)) = Some (osl_UID i)"
    by (simp add: owner_in_updated) (simp add: owner_in_def)
  with l labels_at_settable [OF l] assms(2) show ?thesis unfolding owned_by_labels by blast
qed

lemma ping_owner:
  "owned_by u cfg \<Longrightarrow> owned_by u (SetLabels ref_uns cfg
     ((case ref_labels cfg of None \<Rightarrow> Map.empty | Some ls \<Rightarrow> ls)(randomLabelKey \<mapsto> n)))"
  using ping_keeps_owned [of "ref_deps vars" cfg "Some u" "[]" n for vars] by (simp add: owned_by_def)

lemma release_owner:
  "owned_by u cfg \<Longrightarrow> RemoveOLSConfig_mutate (ref_deps vars) h i cfg = GoOk cfg' \<Longrightarrow> owned_by u cfg'"
  using release_keeps_owned [of "ref_deps vars" cfg "Some u" "[]"] by (simp add: owned_by_def)

lemma put_owner:
  assumes "owned_by u cfg" and "apart p label_path"
  shows "owned_by u (ref_put cfg v p)"
proof -
  have "settable cfg label_path" using assms(1) unfolding owned_by_labels by blast
  then have "settable (ref_put cfg v p) label_path"
    using assms(2) by (auto simp: ref_put_def apart_def intro: set_path_settable split: option.split)
  moreover have "at_path (ref_put cfg v p) label_path = at_path cfg label_path"
    using assms(2) by (simp add: ref_put_other apart_def)
  ultimately show ?thesis using assms(1) unfolding owned_by_labels labels_at_def by auto
qed

section \<open>The operations on the OLSConfig\<close>

text \<open>What the \<^verbatim>\<open>OLSConfig\<close> is, is kept by all calls that have nothing to do with it.\<close>

interpretation config_olm: kept_by_olm "\<lambda>w. Q (c_config w)" "ref_deps vars" for Q vars
  by unfold_locales
    (simp add: olm_calls_keep_def ref_client_def ref_create_or_update_subscription_def
      split: list.split gores.split option.split)

abbreviation at_most :: "string \<Rightarrow> object option \<Rightarrow> bool" where
  "at_most u \<equiv> pred_option (owned_by u)"

lemma patch_keeps:
  assumes "at_most u (c_config w)" and "osl_UID i \<noteq> []" and "c_config w = None \<Longrightarrow> osl_UID i = u"
  shows "at_most u (c_config (snd (create_or_patch_olsconfig (cli (ref_deps vars)) (new_olsConfig (ref_deps vars))
    (olsConfig_mutate (ref_deps vars) h i) w)))"
proof -
  let ?base = "case c_config w of None \<Rightarrow> new_olsConfig (ref_deps vars) | Some c \<Rightarrow> c"
  have "owned_by u c'" if "olsConfig_mutate (ref_deps vars) h i ?base = GoOk c'" for c'
    using that assms creation_owner [OF _ assms(2)] patch_owner(2) by (cases "c_config w") auto
  with assms(1) show ?thesis
    by (simp add: ref_client_def ref_create_or_patch_olsconfig_def split: gores.split)
qed

lemma check_keeps: "preserves (\<lambda>w. at_most u (c_config w)) (IsOLSConfigReady (ref_deps vars))"
  unfolding preserves_def
proof (intro allI impI)
  fix s :: "cluster state"
  assume inv: "at_most u (c_config (world s))"
  show "at_most u (c_config (world (snd (IsOLSConfigReady (ref_deps vars) s))))"
  proof (cases "c_config (world s)")
    case None
    with inv show ?thesis
      by (simp add: IsOLSConfigReady_def GetOLSConfig_def andThen_run perform_def ref_client_def)
  next
    case (Some cfg)
    with inv have own: "owned_by u cfg" by simp
    obtain r where r: "NestedString ref_uns cfg [''status'', ''overallStatus''] = r" by simp
    note run = IsOLSConfigReady_def OLSConfigPing_def GetOLSConfig_def andThen_run perform_def ref_client_def Let_def
    show ?thesis
    proof (cases r)
      case (GoOk p)
      then obtain st found where "r = GoOk (st, found)" by (cases p) auto
      with Some r inv ping_owner [OF own] show ?thesis
        by (auto simp: run simp del: ref_uns_sel(4,6) cong: if_cong)
    qed (use Some r inv in \<open>simp_all add: run del: ref_uns_sel(6)\<close>)
  qed
qed

lemma remove_keeps: "preserves (\<lambda>w. at_most u (c_config w)) (RemoveOLSConfig (ref_deps vars) h i)"
  unfolding preserves_def
proof (intro allI impI)
  let ?D = "ref_deps vars"
  fix s :: "cluster state"
  assume inv: "at_most u (c_config (world s))"
  note run = RemoveOLSConfig_def GetOLSConfig_def onErr_run andThen_run perform_def ref_client_def
    ref_create_or_patch_olsconfig_def
  show "at_most u (c_config (world (snd (RemoveOLSConfig ?D h i s))))"
  proof (cases "c_config (world s)")
    case None
    with inv show ?thesis by (simp add: run)
  next
    case (Some cfg)
    with inv have own: "owned_by u cfg" by simp
    show ?thesis
    proof (cases "RemoveOLSConfig_mutate ?D h i cfg")
      case (GoOk cfg')
      have "owned_by u (ref_put cfg' v [''metadata'', ''deletionTimestamp''])" for v
        by (rule put_owner [OF release_owner [OF own GoOk]]) (simp add: apart_def label_path_def)
      with Some GoOk show ?thesis by (simp add: run ref_delete_olsconfig_def)
    qed (use Some inv in \<open>simp_all add: run\<close>)
  qed
qed

text \<open>For an instance that does not own it, the patch is refused and leaves the \<^verbatim>\<open>OLSConfig\<close> as it is.\<close>

lemma foreign_keeps:
  assumes "owned_by u cfg" and "osl_UID i \<noteq> u"
  shows "preserves (\<lambda>w. c_config w = Some cfg) (reconcile_olsConfig (ref_deps vars) h i)"
  unfolding preserves_def
proof (intro allI impI)
  fix s :: "cluster state"
  assume c: "c_config (world s) = Some cfg"
  show "c_config (world (snd (reconcile_olsConfig (ref_deps vars) h i s))) = Some cfg"
  proof (cases "olsConfig_mutate (ref_deps vars) h i cfg")
    case (GoOk c')
    with patch_owner(1) [OF GoOk assms(1)] assms(2) show ?thesis by simp
  qed (use c in \<open>simp_all add: reconcile_olsConfig_def Let_def onErr_run perform_def ref_client_def
        ref_create_or_patch_olsconfig_def\<close>)
qed

section \<open>A run\<close>

lemma run_keeps_config:
  assumes "stored_instance (world s) req = Some inst" and "Reconcile (ref_deps vars) dflt req s = (r, t)"
    and body: "preserves (\<lambda>w. Q (c_config w)) (reconcile_body (ref_deps vars) dflt inst inst)" and "Q (c_config (world s))"
  shows "Q (c_config (world t))"
proof -
  let ?D = "ref_deps vars"
  have g: "get_instance (cli ?D) req (world s) = (Inr inst, world s)" "NewHelper ?D inst = Inr inst"
    using assms(1) by (simp_all add: ref_get_instance)
  from g assms(2) show ?thesis
  proof (cases rule: Reconcile_cases)
    case (panicked p)
    from preservesD [OF body panicked(2)] assms(4) show ?thesis by (simp add: after_get_def)
  next
    case (finished p inst0 s')
    from preservesD [OF body finished(2)] assms(4) show ?thesis
      by (simp add: finished(3) after_get_def ref_client_def)
  qed
qed

lemma run_owner:
  assumes inst: "stored_instance (world s) req = Some inst" and r: "Reconcile (ref_deps vars) dflt req s = (r, t)"
    and "osl_UID inst = u \<or> c_config (world s) \<noteq> None" and uid: "osl_UID inst \<noteq> []" and own: "at_most u (c_config (world s))"
  shows "at_most u (c_config (world t)) \<and>
    (osl_UID inst = u \<or> c_config (world t) = c_config (world s) \<or>
     \<not> Time_IsZero (ref_deps vars) (meta_DeletionTimestamp (osl_Meta inst)))"
proof -
  let ?D = "ref_deps vars" and ?del = "\<not> Time_IsZero (ref_deps vars) (meta_DeletionTimestamp (osl_Meta inst))"
  have fc: "finalizers_contract ?D" by (rule ref_typed_finalizers.finalizers_contract_axioms)
  show ?thesis
  proof (cases "osl_UID inst = u \<or> ?del")
    case True
    have patch: "preserves (\<lambda>w. at_most u (c_config w)) (reconcile_olsConfig ?D inst i)"
      if "osl_UID i = osl_UID inst" "osl_UID inst = u" for i
      unfolding reconcile_olsConfig_def Let_def
      by (intro preserves_intros check_keeps patch_keeps) (use that uid in simp_all)
    have "preserves (\<lambda>w. at_most u (c_config w)) (reconcile_body ?D dflt inst inst)"
      by (intro config_olm.preserves_body_parts remove_keeps patch fc) (use True in auto)
    from run_keeps_config [where Q = "at_most u", OF inst r this own] True show ?thesis by blast
  next
    case False
    with assms(3) own obtain c where c: "c_config (world s) = Some c" "owned_by u c" by auto
    have "preserves (\<lambda>w. c_config w = Some c) (reconcile_olsConfig ?D inst i)"
      if "osl_UID i = osl_UID inst" for i
      using False that by (intro foreign_keeps [OF c(2)]) simp
    with False have "preserves (\<lambda>w. c_config w = Some c) (reconcile_body ?D dflt inst inst)"
      by (intro config_olm.preserves_body_parts [where Q = "\<lambda>x. x = Some c"] fc) auto
    from run_keeps_config [where Q = "\<lambda>x. x = Some c", OF inst r this c(1)] c show ?thesis by simp
  qed
qed

text \<open>Instances have identifiers.\<close>

definition identified :: "cluster \<Rightarrow> bool" where
  "identified w \<longleftrightarrow> list_all (\<lambda>i. osl_UID i \<noteq> []) (c_instances w)"

lemma stored_identified: "identified w \<Longrightarrow> stored_instance w k = Some i \<Longrightarrow> osl_UID i \<noteq> []"
  by (auto simp: identified_def stored_instance_def find_Some_iff list_all_iff)

interpretation named_olm: kept_world identified "ref_deps vars" for vars
  using ref_calls_keep [where Q = "list_all (\<lambda>i. osl_UID i \<noteq> [])"]
  by unfold_locales (simp_all add: identified_def [abs_def])

lemma run_keeps_identified:
  assumes "identified (world s)" and "Reconcile (ref_deps vars) dflt req s = (r, t)"
  shows "identified (world t)"
proof (cases "stored_instance (world s) req")
  case None
  with assms show ?thesis
    by (auto simp: Reconcile_def onErr_run perform_def ref_get_instance split: if_splits)
next
  case (Some inst)
  let ?D = "ref_deps vars"
  have g: "get_instance (cli ?D) req (world s) = (Inr inst, world s)" "NewHelper ?D inst = Inr inst"
    using Some by (simp_all add: ref_get_instance)
  have body: "preserves identified (reconcile_body ?D dflt inst inst)"
    by (intro named_olm.preserves_body ref_typed_finalizers.finalizers_contract_axioms)
  from g assms(2) show ?thesis
  proof (cases rule: Reconcile_cases)
    case (panicked p)
    from preservesD [OF body panicked(2)] assms(1) show ?thesis by (simp add: after_get_def)
  next
    case (finished p inst0 s')
    from preservesD [OF body finished(2)] assms(1) have "identified (world s')" by (simp add: after_get_def)
    moreover have "osl_UID (patched ?D inst inst0) \<noteq> []"
      using body_identity(2) [OF _ finished(2)] stored_identified [OF assms(1) Some] by simp
    ultimately show ?thesis by (auto simp: finished(3) ref_client_def ref_update_def identified_def list_all_iff)
  qed
qed

section \<open>Everybody else\<close>

lemma step_keeps_identified: "cluster_step w w' \<Longrightarrow> identified w \<Longrightarrow> identified w'"
  by (cases rule: cluster_step.cases)
    (auto simp: identified_def change_instance_def link_plan_def list_all_iff)

lemma step_keeps_owner: "cluster_step w w' \<Longrightarrow> at_most u (c_config w) \<Longrightarrow> at_most u (c_config w')"
  by (cases rule: cluster_step.cases) (auto simp: change_instance_def link_plan_def intro: put_owner)

lemma step_creates_none: "cluster_step w w' \<Longrightarrow> c_config w = None \<Longrightarrow> c_config w' = None"
  by (cases rule: cluster_step.cases) (auto simp: change_instance_def link_plan_def)

section \<open>One owner\<close>

text \<open>A run of a history that created the \<^verbatim>\<open>OLSConfig\<close>, for the instance with the identifier \<open>u\<close>.\<close>

definition created_by :: "string \<Rightarrow> cluster event list \<Rightarrow> bool" where
  "created_by u tr \<longleftrightarrow> (\<exists>k s r t inst. Ran k s r t \<in> set tr \<and> stored_instance (world s) k = Some inst \<and>
     osl_UID inst = u \<and> c_config (world s) = None \<and> c_config (world t) \<noteq> None)"

lemma created_by_append: "created_by u tr \<Longrightarrow> created_by u (tr @ tr')"
  unfolding created_by_def by fastforce

text \<open>
  What a run may do to the \<^verbatim>\<open>OLSConfig\<close> of the instance with the identifier \<open>u\<close>: anything if it is a
  run for this instance or for one that is being deleted, and nothing otherwise.
\<close>

definition minds_owner :: "(string \<Rightarrow> string option) \<Rightarrow> string \<Rightarrow> cluster event \<Rightarrow> bool" where
  "minds_owner vars u ev \<longleftrightarrow> (case ev of Moved \<Rightarrow> True
     | Ran k s r t \<Rightarrow> c_config (world t) = c_config (world s) \<or>
         (\<exists>inst. stored_instance (world s) k = Some inst \<and>
            (osl_UID inst = u \<or> \<not> Time_IsZero (ref_deps vars) (meta_DeletionTimestamp (osl_Meta inst)))))"

lemma minds_owner_Moved [simp]: "minds_owner vars u Moved"
  by (simp add: minds_owner_def)

lemma origin:
  "history (ref_deps vars) dflt cluster_step start tr w \<Longrightarrow> identified start \<Longrightarrow> c_config start = None \<Longrightarrow>
   identified w \<and> (\<forall>cfg. c_config w = Some cfg \<longrightarrow> (\<exists>u. owned_by u cfg \<and> created_by u tr))"
proof (induction rule: history.induct)
  case (ran tr w req r t)
  let ?ev = "Ran req \<lparr>world = w, calls = []\<rparr> r t"
  from ran have id: "identified w" by simp
  have "\<exists>u. owned_by u cfg \<and> created_by u (tr @ [?ev])" if cfg: "c_config (world t) = Some cfg" for cfg
  proof (cases "stored_instance w req")
    case None
    from nobody_run(2) [OF this ran.hyps(2)] cfg ran show ?thesis by (auto intro: created_by_append)
  next
    case (Some inst)
    note uid = stored_identified [OF id Some]
    note run = run_owner [OF _ ran.hyps(2), simplified, OF Some _ uid]
    show ?thesis
    proof (cases "c_config w")
      case None
      with run [of "osl_UID inst"] cfg have "owned_by (osl_UID inst) cfg" by simp
      moreover have "created_by (osl_UID inst) (tr @ [?ev])"
        unfolding created_by_def by (intro exI conjI) (use Some None cfg in auto)
      ultimately show ?thesis by blast
    next
      case (Some c)
      with ran obtain u where u: "owned_by u c" "created_by u tr" by auto
      from run [of u] Some u(1) cfg have "owned_by u cfg" by simp
      with u(2) show ?thesis by (blast intro: created_by_append)
    qed
  qed
  with run_keeps_identified [OF _ ran.hyps(2)] id show ?case by simp
next
  case (moved tr w w')
  have "\<exists>u. owned_by u cfg \<and> created_by u (tr @ [Moved])" if cfg: "c_config w' = Some cfg" for cfg
  proof (cases "c_config w")
    case None
    from step_creates_none [OF moved.hyps(2) this] cfg show ?thesis by simp
  next
    case (Some c)
    with moved obtain u where u: "owned_by u c" "created_by u tr" by auto
    with step_keeps_owner [OF moved.hyps(2), of u] Some cfg show ?thesis by (auto intro: created_by_append)
  qed
  with step_keeps_identified [OF moved.hyps(2)] moved show ?case by simp
qed simp

lemma ownership_lasts:
  "history (ref_deps vars) dflt (\<lambda>w w'. cluster_step w w' \<and> c_config w' \<noteq> None) start tr w \<Longrightarrow>
   identified start \<Longrightarrow> c_config start = Some c0 \<Longrightarrow> owned_by u c0 \<Longrightarrow>
   \<forall>k s r t. Ran k s r t \<in> set tr \<longrightarrow> c_config (world t) \<noteq> None \<Longrightarrow>
   identified w \<and> (\<exists>cfg. c_config w = Some cfg \<and> owned_by u cfg) \<and> list_all (minds_owner vars u) tr"
proof (induction rule: history.induct)
  case (ran tr w req r t)
  from ran.prems(4) have prems: "\<forall>k s r t. Ran k s r t \<in> set tr \<longrightarrow> c_config (world t) \<noteq> None"
    and there: "c_config (world t) \<noteq> None" by auto
  from ran.IH [OF ran.prems(1-3) prems] obtain c where id: "identified w" and c: "c_config w = Some c" "owned_by u c"
    and all: "list_all (minds_owner vars u) tr" by blast
  have "at_most u (c_config (world t)) \<and> minds_owner vars u (Ran req \<lparr>world = w, calls = []\<rparr> r t)"
  proof (cases "stored_instance w req")
    case None
    from nobody_run(2) [OF this ran.hyps(2)] c show ?thesis by (simp add: minds_owner_def)
  next
    case (Some inst)
    from run_owner [OF _ ran.hyps(2), simplified, OF Some _ stored_identified [OF id Some], of u] c Some
    show ?thesis by (auto simp: minds_owner_def)
  qed
  with there all run_keeps_identified [OF _ ran.hyps(2)] id show ?case by auto
next
  case (moved tr w w')
  from moved.hyps(2) have step: "cluster_step w w'" "c_config w' \<noteq> None" by simp_all
  have "\<forall>k s r t. Ran k s r t \<in> set tr \<longrightarrow> c_config (world t) \<noteq> None" using moved.prems(4) by simp
  from moved.IH [OF moved.prems(1-3) this] obtain c where id: "identified w" and c: "c_config w = Some c" "owned_by u c"
    and all: "list_all (minds_owner vars u) tr" by blast
  have "at_most u (c_config w')" by (rule step_keeps_owner [OF step(1)]) (simp add: c)
  with step id all step_keeps_identified [OF step(1)] show ?case by auto
qed simp

text \<open>
  C6: in every history of runs for any instances and of steps of anybody else, from a cluster
  without an \<^verbatim>\<open>OLSConfig\<close> on, the \<^verbatim>\<open>OLSConfig\<close> that there is belongs to one instance: its owner label
  is the identifier, which is not empty, of an instance for which a run of this history created
  the \<^verbatim>\<open>OLSConfig\<close>. And whatever happens from there on, as long as the \<^verbatim>\<open>OLSConfig\<close> is not removed, the
  owner stays the same, and every run for another instance that is not being deleted leaves the
  \<^verbatim>\<open>OLSConfig\<close> exactly as it was.
\<close>

theorem one_owner_in_every_history:
  assumes "history (ref_deps vars) dflt cluster_step start tr w"
    and "list_all (\<lambda>i. osl_UID i \<noteq> []) (c_instances start)" and "c_config start = None"
    and "c_config w = Some cfg"
  shows "owner_of cfg \<noteq> [] \<and> created_by (owner_of cfg) tr \<and>
     (\<forall>tr2 w2. history (ref_deps vars) dflt (\<lambda>w w'. cluster_step w w' \<and> c_config w' \<noteq> None) w tr2 w2 \<longrightarrow>
        (\<forall>k s r t. Ran k s r t \<in> set tr2 \<longrightarrow> c_config (world t) \<noteq> None) \<longrightarrow>
        (\<exists>cfg2. c_config w2 = Some cfg2 \<and> owner_of cfg2 = owner_of cfg) \<and>
        list_all (minds_owner vars (owner_of cfg)) tr2)"
proof -
  have "identified start" using assms(2) by (simp add: identified_def)
  with origin [OF assms(1) _ assms(3)] assms(4) obtain u where
    id: "identified w" and u: "owned_by u cfg" "created_by u tr" by blast
  have o: "owner_of cfg = u" "u \<noteq> []" using owned_by_owner [OF u(1)] by simp_all
  have "(\<exists>cfg2. c_config w2 = Some cfg2 \<and> owner_of cfg2 = u) \<and> list_all (minds_owner vars u) tr2"
    if "history (ref_deps vars) dflt (\<lambda>w w'. cluster_step w w' \<and> c_config w' \<noteq> None) w tr2 w2"
      "\<forall>k s r t. Ran k s r t \<in> set tr2 \<longrightarrow> c_config (world t) \<noteq> None" for tr2 w2
    using ownership_lasts [OF that(1) id assms(4) u(1) that(2)] owned_by_owner by blast
  with o u(2) show ?thesis by simp
qed

end
