(* ===== verification/End_To_End.thy ===== *)
theory End_To_End
  imports Config_Life
begin

text \<open>
  The whole life of an instance in the cluster in memory: from its creation in an empty cluster
  to readiness, and from the request to delete it back to an empty cluster.
\<close>

section \<open>The objects of an installation\<close>

definition fresh_instance :: "OpenStackLightspeed \<Rightarrow> bool" where
  "fresh_instance inst \<longleftrightarrow> meta_Finalizers (osl_Meta inst) = [] \<and>
     meta_DeletionTimestamp (osl_Meta inst) = None \<and> 5 \<le> length (osl_UID inst)"

abbreviation subscription_name :: "OpenStackLightspeed \<Rightarrow> string" where
  "subscription_name inst \<equiv> OLSOperatorName @ ''-'' @ take 5 (osl_UID inst)"

abbreviation csv_name :: "string \<Rightarrow> string" where
  "csv_name v \<equiv> OLSOperatorName @ ''.v'' @ v"

definition own_subscription :: "string \<Rightarrow> OpenStackLightspeed \<Rightarrow> string option \<Rightarrow> Subscription" where
  "own_subscription v inst ref = empty_Subscription\<lparr>
     sub_Meta := empty_ObjectMeta\<lparr>meta_Name := subscription_name inst, meta_Namespace := osl_Namespace inst,
       meta_OwnerReferences := instanceOwnerReference inst\<rparr>,
     sub_Spec := Some \<lparr>subs_Channel = ''stable'', subs_InstallPlanApproval = ApprovalManual,
       subs_CatalogSource = CatalogSourceName (Spec inst),
       subs_CatalogSourceNamespace = CatalogSourceNamespace (Spec inst),
       subs_Package = OLSOperatorName, subs_StartingCSV = (if v = [] then [] else csv_name v)\<rparr>,
     sub_InstallPlanRef := ref\<rparr>"

definition own_plan :: "string \<Rightarrow> OpenStackLightspeed \<Rightarrow> bool \<Rightarrow> InstallPlan" where
  "own_plan v inst b = \<lparr>ip_Meta = empty_ObjectMeta\<lparr>meta_Name := ''install'', meta_Namespace := osl_Namespace inst\<rparr>,
     ip_ClusterServiceVersionNames = [csv_name v], ip_Approved = b\<rparr>"

definition own_csv :: "string \<Rightarrow> OpenStackLightspeed \<Rightarrow> OwnerReference list \<Rightarrow> ClusterServiceVersion" where
  "own_csv v inst owners = \<lparr>csv_Meta = empty_ObjectMeta\<lparr>meta_Name := csv_name v,
     meta_Namespace := osl_Namespace inst, meta_OwnerReferences := owners\<rparr>, csv_Phase = CSVPhaseSucceeded\<rparr>"

text \<open>A cluster with at most one object of each kind.\<close>

definition stage ::
  "cluster \<Rightarrow> OpenStackLightspeed list \<Rightarrow> ClusterServiceVersion list \<Rightarrow> Subscription list \<Rightarrow>
   InstallPlan list \<Rightarrow> object option \<Rightarrow> cluster" where
  "stage w is csvs subs plans cfg = w\<lparr>c_instances := is, c_csvs := csvs, c_subs := subs, c_plans := plans,
     c_config := cfg\<rparr>"

lemma stage_sel [simp]:
  "c_instances (stage w is csvs subs plans cfg) = is" "c_csvs (stage w is csvs subs plans cfg) = csvs"
  "c_subs (stage w is csvs subs plans cfg) = subs" "c_plans (stage w is csvs subs plans cfg) = plans"
  "c_config (stage w is csvs subs plans cfg) = cfg" "c_version (stage w is csvs subs plans cfg) = c_version w"
  "c_random (stage w is csvs subs plans cfg) = c_random w"
  by (simp_all add: stage_def)

lemma stage_upd [simp]:
  "(stage w is csvs subs plans cfg)\<lparr>c_instances := is'\<rparr> = stage w is' csvs subs plans cfg"
  "(stage w is csvs subs plans cfg)\<lparr>c_csvs := csvs'\<rparr> = stage w is csvs' subs plans cfg"
  "(stage w is csvs subs plans cfg)\<lparr>c_subs := subs'\<rparr> = stage w is csvs subs' plans cfg"
  "(stage w is csvs subs plans cfg)\<lparr>c_plans := plans'\<rparr> = stage w is csvs subs plans' cfg"
  "(stage w is csvs subs plans cfg)\<lparr>c_config := cfg'\<rparr> = stage w is csvs subs plans cfg'"
  by (simp_all add: stage_def)

section \<open>Installing on the cluster in memory\<close>

lemma fresh_name: "fresh_instance inst \<Longrightarrow> GetOLSSubscriptionName inst = GoOk (subscription_name inst)"
  by (simp add: subscription_name_cases fresh_instance_def)

lemma own_objects [simp]:
  "is_ols_csv (own_csv v inst owners)" "is_ols_plan v (own_plan v inst b)"
  "(own_plan v inst b)\<lparr>ip_Approved := True\<rparr> = own_plan v inst True"
  "meta_Namespace (ip_Meta (own_plan v inst b)) = osl_Namespace inst"
  "owned_csv inst (own_csv v inst owners) = own_csv v inst (instanceOwnerReference inst)"
  "csv_Phase (own_csv v inst owners) = CSVPhaseSucceeded"
  "IsOwnedBy (csv_Meta (own_csv v inst (instanceOwnerReference inst))) (osl_Meta inst)"
  "IsOwnedBy (sub_Meta (own_subscription v inst ref)) (osl_Meta inst)"
  "sub_InstallPlanRef (own_subscription v inst ref) = ref"
proof -
  have "HasSuffix (OLSOperatorName @ ''.v'' @ v) v"
    using HasSuffix_append [of "OLSOperatorName @ ''.v''" v] by simp
  then show "is_ols_plan v (own_plan v inst b)" by (simp add: own_plan_def)
qed (simp_all add: own_csv_def own_plan_def own_subscription_def owned_csv_def IsOwnedBy_def
    instanceOwnerReference_def)

lemma ref_install_plan:
  assumes "GetRecommendedOLSVersion (ref_deps vars) = GoOk v"
  shows "GetOLSOperatorInstallPlan (ref_deps vars) inst s =
     (GoOk (find_ols_plan v (filter (\<lambda>p. meta_Namespace (ip_Meta p) = osl_Namespace inst)
        (c_plans (world s)))), s\<lparr>calls := calls s @ [ListInstallPlans (osl_Namespace inst)]\<rparr>)"
  by (simp add: GetOLSOperatorInstallPlan_def andThen_run perform_def ref_client_def assms)

lemma subscribe_first:
  assumes "GetRecommendedOLSVersion (ref_deps vars) = GoOk v"
  shows "ref_create_or_update_subscription (new_subscription inst (subscription_name inst))
     (subscription_mutate (ref_deps vars) inst) (stage w is csvs [] plans cfg) =
   (Inr (OperationResultCreated, own_subscription v inst None),
      stage w is csvs [own_subscription v inst None] plans cfg)"
proof -
  have "subscription_mutate (ref_deps vars) inst (new_subscription inst (subscription_name inst)) =
      GoOk (own_subscription v inst None)"
    unfolding subscription_mutate_GoOk using assms
    by (simp add: own_subscription_def new_subscription_def empty_Subscription_def)
  then show ?thesis by (simp add: ref_create_or_update_subscription_def)
qed

lemma subscribe_again:
  assumes "GetRecommendedOLSVersion (ref_deps vars) = GoOk v"
  shows "ref_create_or_update_subscription (new_subscription inst (subscription_name inst))
     (subscription_mutate (ref_deps vars) inst) (stage w is csvs [own_subscription v inst ref] plans cfg) =
   (Inr (OperationResultNone, own_subscription v inst ref),
      stage w is csvs [own_subscription v inst ref] plans cfg)"
proof -
  have "subscription_mutate (ref_deps vars) inst (own_subscription v inst ref) =
      GoOk (own_subscription v inst ref)"
    unfolding subscription_mutate_GoOk using assms
    by (simp add: own_subscription_def empty_Subscription_def)
  moreover have "same_key (sub_Meta (own_subscription v inst ref))
      (sub_Meta (new_subscription inst (subscription_name inst)))"
    by (simp add: same_key_def own_subscription_def new_subscription_def)
  ultimately show ?thesis by (simp add: ref_create_or_update_subscription_def)
qed

lemma no_csv_mode:
  "IsUserInstalledOLSOperatorMode (ref_deps vars) inst \<lparr>world = stage w is [] subs plans cfg, calls = cs\<rparr> =
     (GoOk False, \<lparr>world = stage w is [] subs plans cfg, calls = cs @ [GetConfig, NewClient, ListCSVs []]\<rparr>)"
  by (simp add: IsUserInstalledOLSOperatorMode_def andThen_run ref_GetOLSOperatorCSV)

lemma own_subscription_mode:
  assumes "fresh_instance inst"
  shows "\<exists>more. IsUserInstalledOLSOperatorMode (ref_deps vars) inst
       \<lparr>world = stage w is [own_csv v inst owners] [own_subscription v inst ref] plans cfg, calls = cs\<rparr> =
     (GoOk False, \<lparr>world = stage w is [own_csv v inst owners] [own_subscription v inst ref] plans cfg,
        calls = cs @ more\<rparr>)"
proof -
  have "meta_Name (sub_Meta (own_subscription v inst ref)) = subscription_name inst"
    "meta_Namespace (sub_Meta (own_subscription v inst ref)) = osl_Namespace inst"
    by (simp_all add: own_subscription_def)
  then show ?thesis
    by (simp add: IsUserInstalledOLSOperatorMode_def andThen_run ref_GetOLSOperatorCSV fresh_name [OF assms]
        onErr_run perform_def ref_client_def Let_def)
qed

text \<open>The three kinds of passes through the installation.\<close>

lemma ensure_subscribes:
  assumes "GetRecommendedOLSVersion (ref_deps vars) = GoOk v" and "fresh_instance inst"
  shows "\<exists>more. EnsureOLSOperatorInstalled (ref_deps vars) inst
       \<lparr>world = stage w is [] [] plans cfg, calls = cs\<rparr> =
     (GoOk False, \<lparr>world = stage w is [] [own_subscription v inst None] plans cfg, calls = cs @ more\<rparr>)"
proof -
  have "create_or_update_subscription (cli (ref_deps vars)) (new_subscription inst (subscription_name inst))
      (subscription_mutate (ref_deps vars) inst) (stage w is [] [] plans cfg) =
      (Inr (OperationResultCreated, own_subscription v inst None),
       stage w is [] [own_subscription v inst None] plans cfg)"
    using subscribe_first [OF assms(1), of inst w "is" "[]" plans cfg] by (simp add: ref_client_def)
  from install_waits_for_link [OF fresh_name [OF assms(2)], of "ref_deps vars"] this show ?thesis
    by (simp add: ensure_GoOk no_csv_mode)
qed

lemma linked_install:
  assumes "GetRecommendedOLSVersion (ref_deps vars) = GoOk v" and "fresh_instance inst"
  shows "\<exists>more. InstallInstanceOwnedOLSOperator (ref_deps vars) inst
       \<lparr>world = stage w is csvs [own_subscription v inst (Some n)] [own_plan v inst b] cfg, calls = cs\<rparr> =
     adopt (ref_deps vars) inst \<lparr>world = stage w is csvs [own_subscription v inst (Some n)]
       [own_plan v inst True] cfg, calls = cs @ more\<rparr>"
proof -
  have "ref_update ip_Meta (own_plan v inst True) [own_plan v inst b] = [own_plan v inst True]"
    by (simp add: ref_update_def own_plan_def same_key_def)
  then have "approve_and_adopt (ref_deps vars) inst
       \<lparr>world = stage w is csvs [own_subscription v inst (Some n)] [own_plan v inst b] cfg, calls = cs'\<rparr> =
     adopt (ref_deps vars) inst \<lparr>world = stage w is csvs [own_subscription v inst (Some n)] [own_plan v inst True] cfg,
        calls = cs' @ [ListInstallPlans (osl_Namespace inst), UpdateInstallPlan (own_plan v inst True)]\<rparr>" for cs'
    by (simp add: approve_and_adopt_def andThen_run ref_install_plan [OF assms(1)] perform_def ref_client_def
        split: prod.split gores.split)
  moreover have "create_or_update_subscription (cli (ref_deps vars)) (new_subscription inst (subscription_name inst))
      (subscription_mutate (ref_deps vars) inst) (stage w is csvs [own_subscription v inst (Some n)] [own_plan v inst b] cfg) =
      (Inr (OperationResultNone, own_subscription v inst (Some n)),
       stage w is csvs [own_subscription v inst (Some n)] [own_plan v inst b] cfg)"
    using subscribe_again [OF assms(1)] by (simp add: ref_client_def)
  ultimately show ?thesis
    by (intro exI [of _ "[CreateOrUpdateSubscription (new_subscription inst (subscription_name inst)),
          ListInstallPlans (osl_Namespace inst), UpdateInstallPlan (own_plan v inst True)]"])
      (simp add: install_parts andThen_run fresh_name [OF assms(2)] perform_def)
qed

lemma adopt_none:
  "adopt (ref_deps vars) inst \<lparr>world = stage w is [] subs plans cfg, calls = cs\<rparr> =
     (GoOk False, \<lparr>world = stage w is [] subs plans cfg, calls = cs @ [GetConfig, NewClient, ListCSVs []]\<rparr>)"
  by (simp add: adopt_def andThen_run ref_GetOLSOperatorCSV)

lemma adopt_own:
  "\<exists>more. adopt (ref_deps vars) inst \<lparr>world = stage w is [own_csv v inst owners] subs plans cfg, calls = cs\<rparr> =
     (GoOk True, \<lparr>world = stage w is [own_csv v inst (instanceOwnerReference inst)] subs plans cfg,
        calls = cs @ more\<rparr>)"
proof -
  have "ref_update csv_Meta (own_csv v inst (instanceOwnerReference inst)) [own_csv v inst owners] =
      [own_csv v inst (instanceOwnerReference inst)]"
    by (simp add: ref_update_def own_csv_def same_key_def)
  then show ?thesis
    by (simp add: adopt_def adopt_csv_def andThen_run onErr_run ref_GetOLSOperatorCSV perform_def
        ref_client_def InstanceOwnedOLSOperatorComplete_def)
qed

lemma ensure_approves:
  assumes "GetRecommendedOLSVersion (ref_deps vars) = GoOk v" and "fresh_instance inst"
  shows "\<exists>more. EnsureOLSOperatorInstalled (ref_deps vars) inst
       \<lparr>world = stage w is [] [own_subscription v inst (Some n)] [own_plan v inst b] cfg, calls = cs\<rparr> =
     (GoOk False, \<lparr>world = stage w is [] [own_subscription v inst (Some n)] [own_plan v inst True] cfg,
        calls = cs @ more\<rparr>)"
  using linked_install [OF assms, of w "is" "[]" n b cfg "cs @ [GetConfig, NewClient, ListCSVs []]"]
  by (auto simp: ensure_GoOk no_csv_mode adopt_none)

lemma ensure_adopts:
  assumes "GetRecommendedOLSVersion (ref_deps vars) = GoOk v" and "fresh_instance inst"
  shows "\<exists>more. EnsureOLSOperatorInstalled (ref_deps vars) inst
       \<lparr>world = stage w is [own_csv v inst owners] [own_subscription v inst (Some n)] [own_plan v inst b] cfg,
        calls = cs\<rparr> =
     (GoOk True, \<lparr>world = stage w is [own_csv v inst (instanceOwnerReference inst)]
        [own_subscription v inst (Some n)] [own_plan v inst True] cfg, calls = cs @ more\<rparr>)"
proof -
  obtain m1 where m1: "IsUserInstalledOLSOperatorMode (ref_deps vars) inst
       \<lparr>world = stage w is [own_csv v inst owners] [own_subscription v inst (Some n)] [own_plan v inst b] cfg, calls = cs\<rparr> =
     (GoOk False, \<lparr>world = stage w is [own_csv v inst owners] [own_subscription v inst (Some n)] [own_plan v inst b] cfg,
        calls = cs @ m1\<rparr>)"
    using own_subscription_mode [OF assms(2)] by blast
  obtain m2 where m2: "InstallInstanceOwnedOLSOperator (ref_deps vars) inst
       \<lparr>world = stage w is [own_csv v inst owners] [own_subscription v inst (Some n)] [own_plan v inst b] cfg,
        calls = cs @ m1\<rparr> =
     adopt (ref_deps vars) inst \<lparr>world = stage w is [own_csv v inst owners] [own_subscription v inst (Some n)]
       [own_plan v inst True] cfg, calls = (cs @ m1) @ m2\<rparr>"
    using linked_install [OF assms] by blast
  from adopt_own [of vars inst w "is" v owners "[own_subscription v inst (Some n)]" "[own_plan v inst True]"
      cfg "(cs @ m1) @ m2"] m1 m2
  show ?thesis by (auto simp: ensure_GoOk)
qed

section \<open>The OLSConfig on the cluster in memory\<close>

text \<open>An object that the operator can patch for an instance, and one that it has patched for it.\<close>

definition patchable :: "OpenStackLightspeed \<Rightarrow> object \<Rightarrow> bool" where
  "patchable inst cfg \<longleftrightarrow>
     list_all (\<lambda>f. settable cfg (fst f)) (desired_fields inst) \<and> settable cfg label_path \<and>
     settable cfg finalizer_path \<and> set (ref_finalizers cfg) \<subseteq> {ref_finalizer} \<and>
     (\<exists>labels. labels_at cfg labels \<and> (owner_in labels = None \<or> owner_in labels = Some (osl_UID inst)))"

definition own_config :: "OpenStackLightspeed \<Rightarrow> object \<Rightarrow> bool" where
  "own_config inst cfg \<longleftrightarrow>
     list_all (\<lambda>f. at_path cfg (fst f) \<noteq> None) (desired_fields inst) \<and>
     set (ref_finalizers cfg) = {ref_finalizer} \<and> (\<exists>labels. labels_at cfg labels \<and> owner_in labels = Some (osl_UID inst))"

lemma own_config_patchable:
  assumes "own_config inst cfg"
  shows "patchable inst cfg"
proof -
  have "list_all (\<lambda>f. settable cfg (fst f)) (desired_fields inst)"
    using assms desired_paths at_path_settable by (fastforce simp: own_config_def list_all_iff)
  moreover obtain labels where l: "labels_at cfg labels" "owner_in labels = Some (osl_UID inst)"
    using assms by (auto simp: own_config_def)
  moreover from l have "settable cfg label_path"
    by (cases labels) (auto simp: owner_in_def dest: labels_at_settable)
  moreover have "at_path cfg finalizer_path \<noteq> None"
    using assms by (cases "at_path cfg finalizer_path") (simp_all add: own_config_def ref_finalizers_def)
  then have "settable cfg finalizer_path"
    using at_path_settable by (fastforce simp: finalizer_path_def)
  ultimately show ?thesis using assms by (auto simp: patchable_def own_config_def)
qed

lemma new_config_patchable: "patchable inst (new_olsConfig (ref_deps vars))"
proof -
  let ?c = "new_olsConfig (ref_deps vars)"
  have c: "?c ''spec'' = None" "?c ''metadata'' = Some (JObject [''name'' \<mapsto> JString OLSConfigName])"
    by (simp_all add: new_olsConfig_def ref_uns_def ref_put_def olsConfigGVK_def)
  have "labels_at ?c None" "ref_finalizers ?c = []"
    using c(2) by (simp_all add: labels_at_def label_path_def ref_finalizers_def finalizer_path_def)
  then show ?thesis
    using c by (auto simp: patchable_def desired_fields_def Let_def label_path_def finalizer_path_def owner_in_def)
qed

lemma ref_finalizers_cong: "at_path a finalizer_path = at_path b finalizer_path \<Longrightarrow> ref_finalizers a = ref_finalizers b"
  by (simp add: ref_finalizers_def)

text \<open>
  A patch makes a patchable object the instance's own. It keeps the status and the deletion
  timestamp.
\<close>

definition kept_path :: "string list \<Rightarrow> bool" where
  "kept_path p \<longleftrightarrow> (\<exists>q. p = ''status'' # q) \<or> p = [''metadata'', ''deletionTimestamp'']"

lemma kept_path_simps [simp]: "kept_path (''status'' # q)" "kept_path [''metadata'', ''deletionTimestamp'']"
  by (simp_all add: kept_path_def)

lemma patch_makes_own:
  assumes "patchable inst cfg" and "osl_Conditions inst \<noteq> None"
  obtains cfg' where "olsConfig_mutate (ref_deps vars) h inst cfg = GoOk cfg'" "own_config inst cfg'"
    "\<forall>q. kept_path q \<longrightarrow> at_path cfg' q = at_path cfg q"
proof -
  let ?D = "ref_deps vars"
  have om: "object_metadata (unsl ?D)" by simp
  note nf = object_metadata.axioms(1) [OF om]
  from assms(1) have s: "list_all (\<lambda>f. settable cfg (fst f)) (desired_fields inst)" "settable cfg label_path"
    "settable cfg finalizer_path" "set (ref_finalizers cfg) \<subseteq> {ref_finalizer}"
    by (auto simp: patchable_def)
  from assms(1) obtain labels where l: "labels_at cfg labels"
    "owner_in labels = None \<or> owner_in labels = Some (osl_UID inst)"
    by (auto simp: patchable_def)
  obtain cfg' where p: "PatchOLSConfig ?D h inst cfg = GoOk cfg'"
    using PatchOLSConfig_ok [OF om assms(2) s(1,2)] by blast
  have lab: "labels_at cfg' (Some (updated_labels (osl_UID inst) labels))"
    by (rule PatchOLSConfig_labels [OF om p l(1)])
  have own: "owner_in (Some (updated_labels (osl_UID inst) labels)) = Some (osl_UID inst)"
    using l(2) by (auto simp: owner_in_updated)
  obtain c1 where c1: "set_fields (unsl ?D) cfg (desired_fields inst) = GoOk c1"
    and claim: "claim_ownership ?D h inst c1 = GoOk cfg'"
    using om p by (rule PatchOLSConfig_GoOkE)
  from claim obtain c2 u where c2: "SetNestedField (unsl ?D) c1 u label_path = GoOk c2"
      "cfg' = snd (uns_AddFinalizer (unsl ?D) c2 ref_finalizer)"
    by (auto simp: claim_ownership_GoOk_iff)
  have "at_path c2 finalizer_path = at_path cfg finalizer_path"
    using nested_fields.set_other [OF nf c2(1), of finalizer_path] labels_apart_finalizers
      nested_fields.set_fields_other [OF nf c1 desired_apart_metadata(2)] by (simp add: apart_def)
  then have "ref_finalizers c2 = ref_finalizers cfg" by (rule ref_finalizers_cong)
  moreover have "settable c2 finalizer_path"
    using nested_fields.set_settable [OF nf c2(1), of finalizer_path] labels_apart_finalizers
      nested_fields.set_fields_settable [OF nf c1 desired_apart_metadata(2) s(3)] by (auto simp: apart_def)
  ultimately have "set (ref_finalizers cfg') = {ref_finalizer}"
    using object_metadata.add_finalizer_set [OF om, of c2 ref_finalizer] s(4) c2(2) by auto
  moreover have "list_all (\<lambda>f. at_path cfg' (fst f) \<noteq> None) (desired_fields inst)"
    using PatchOLSConfig_desired [OF om p] by (fastforce simp: list_all_iff)
  ultimately have "own_config inst cfg'" using lab own by (auto simp: own_config_def)
  moreover have "olsConfig_mutate ?D h inst cfg = GoOk cfg'"
    using object_metadata.labels_at_GetLabels [OF om l(1)] l(2) p
    by (auto simp: olsConfig_mutate_def label_of_owner)
  moreover have "at_path cfg' q = at_path cfg q" if "kept_path q" for q
    by (rule PatchOLSConfig_other [OF om p])
      (use that in \<open>auto simp: kept_path_def desired_fields_def Let_def apart_def label_path_def finalizer_path_def\<close>)
  ultimately show thesis using that by blast
qed

lemma own_config_put:
  assumes "own_config inst cfg" and "settable cfg p" and "apart p label_path" and "apart p finalizer_path"
    and "list_all (\<lambda>f. apart p (fst f)) (desired_fields inst)"
  shows "own_config inst (ref_put cfg x p)"
proof -
  have same: "at_path (ref_put cfg x p) q = at_path cfg q" if "apart p q" for q
    using that by (simp add: ref_put_other apart_def)
  have "ref_finalizers (ref_put cfg x p) = ref_finalizers cfg"
    by (rule ref_finalizers_cong) (rule same [OF assms(4)])
  moreover have "labels_at (ref_put cfg x p) labels = labels_at cfg labels" for labels
    by (simp add: labels_at_def same [OF assms(3)])
  ultimately show ?thesis
    using assms(1,5) by (auto simp: own_config_def list_all_iff same)
qed

lemma report_status_own:
  assumes "own_config inst cfg" and "at_path cfg [''status''] = None"
  shows "own_config inst (report_status st cfg)"
    "at_path (report_status st cfg) [''status'', ''overallStatus''] = Some (JString st)"
    "at_path (report_status st cfg) [''metadata'', ''deletionTimestamp''] =
       at_path cfg [''metadata'', ''deletionTimestamp'']"
proof -
  have s: "settable cfg [''status'', ''overallStatus'']" using assms(2) by simp
  show "own_config inst (report_status st cfg)"
    unfolding report_status_def
    by (rule own_config_put [OF assms(1) s])
      (simp_all add: apart_def label_path_def finalizer_path_def desired_fields_def Let_def)
  show "at_path (report_status st cfg) [''status'', ''overallStatus''] = Some (JString st)"
    unfolding report_status_def by (rule ref_put_get [OF s])
  show "at_path (report_status st cfg) [''metadata'', ''deletionTimestamp''] =
      at_path cfg [''metadata'', ''deletionTimestamp'']"
    unfolding report_status_def by (rule ref_put_other) simp_all
qed

text \<open>The ping keeps the object the instance's own and its status as it is.\<close>

definition pinged :: "string \<Rightarrow> object \<Rightarrow> object" where
  "pinged n cfg = SetLabels ref_uns cfg
     ((case ref_labels cfg of None \<Rightarrow> Map.empty | Some ls \<Rightarrow> ls)(randomLabelKey \<mapsto> n))"

lemma ping_keeps_own:
  assumes "own_config inst cfg"
  shows "own_config inst (pinged n cfg)" "kept_path q \<Longrightarrow> at_path (pinged n cfg) q = at_path cfg q"
proof -
  let ?c = "pinged n cfg"
  obtain labels where l: "labels_at cfg labels" "owner_in labels = Some (osl_UID inst)"
    using assms by (auto simp: own_config_def)
  let ?ls = "(case labels of None \<Rightarrow> Map.empty | Some ls \<Rightarrow> ls)(randomLabelKey \<mapsto> n)"
  have st: "settable cfg label_path"
    using own_config_patchable [OF assms] by (simp add: patchable_def)
  have g: "ref_labels cfg = labels"
    using object_metadata.labels_at_GetLabels [OF ref_metadata.object_metadata_axioms l(1)] by simp
  have same: "at_path ?c q = at_path cfg q" if "apart label_path q" for q
    using that by (simp add: pinged_def ref_put_other apart_def)
  have "labels_at ?c (Some ?ls)"
    using object_metadata.labels_set [OF ref_metadata.object_metadata_axioms st, of ?ls]
    by (simp add: labels_at_def g pinged_def)
  moreover have "owner_in (Some ?ls) = Some (osl_UID inst)"
    using l(2) owner_in_ping [of labels n] by simp
  moreover have "ref_finalizers ?c = ref_finalizers cfg"
    by (rule ref_finalizers_cong) (rule same [OF labels_apart_finalizers])
  moreover have "list_all (\<lambda>f. at_path ?c (fst f) \<noteq> None) (desired_fields inst)"
    using assms same desired_field_apart [of _ _ inst] unfolding own_config_def list_all_iff
    by (metis prod.collapse)
  ultimately show "own_config inst ?c" using assms by (auto simp: own_config_def)
  show "kept_path q \<Longrightarrow> at_path ?c q = at_path cfg q"
    by (rule same) (auto simp: kept_path_def apart_def label_path_def)
qed

lemma ref_not_ready:
  assumes "own_config inst cfg" and "at_path cfg [''status''] = None"
  shows "\<exists>cfg' more. IsOLSConfigReady (ref_deps vars) \<lparr>world = stage w is csvs subs plans (Some cfg), calls = cs\<rparr> =
      (GoOk False, \<lparr>world = stage w is csvs subs plans (Some cfg'), calls = cs @ more\<rparr>) \<and>
    own_config inst cfg' \<and> (\<forall>q. kept_path q \<longrightarrow> at_path cfg' q = at_path cfg q)"
proof -
  let ?n = "FormatInt (sint (word_of_int (c_random w mod MaxInt64) :: goint))"
  let ?c = "pinged ?n cfg"
  have "cfg ''status'' = None" using assms(2) by simp
  then have "IsOLSConfigReady (ref_deps vars) \<lparr>world = stage w is csvs subs plans (Some cfg), calls = cs\<rparr> =
      (GoOk False, \<lparr>world = stage w is csvs subs plans (Some ?c),
        calls = cs @ [ListOLSConfigs, ListOLSConfigs, RandInt MaxInt64, UpdateOLSConfig ?c]\<rparr>)"
    by (simp add: IsOLSConfigReady_def OLSConfigPing_def GetOLSConfig_def andThen_run perform_def ref_client_def
        Let_def pinged_def cong: if_cong)
  moreover have "own_config inst ?c" "\<forall>q. kept_path q \<longrightarrow> at_path ?c q = at_path cfg q"
    using ping_keeps_own [OF assms(1)] by simp_all
  ultimately show ?thesis by blast
qed

section \<open>Runs for the instance\<close>

text \<open>The instance as the runs leave it: the identity it was created with, and the finalizer.\<close>

definition managed :: "OpenStackLightspeed \<Rightarrow> OpenStackLightspeed \<Rightarrow> bool" where
  "managed inst i \<longleftrightarrow> osl_Meta i = (osl_Meta inst)\<lparr>meta_Finalizers := [ref_finalizer]\<rparr> \<and>
     same_identity i inst \<and> TLSCACertBundle (Spec i) = TLSCACertBundle (Spec inst)"

lemma managed_config:
  assumes "managed inst i"
  shows "own_config i cfg = own_config inst cfg" "patchable i cfg = patchable inst cfg"
proof -
  have paths: "map fst (desired_fields i) = map fst (desired_fields inst)"
    using assms by (simp add: desired_fields_def Let_def managed_def)
  have all: "list_all (\<lambda>f. Q (fst f)) (desired_fields i) = list_all (\<lambda>f. Q (fst f)) (desired_fields inst)" for Q
    using arg_cong [where f = "list_all Q", OF paths] by (simp add: list.pred_map comp_def)
  have "osl_UID i = osl_UID inst" using assms by (simp add: managed_def)
  with all [of "\<lambda>p. settable cfg p"] all [of "\<lambda>p. at_path cfg p \<noteq> None"] show "own_config i cfg = own_config inst cfg" "patchable i cfg = patchable inst cfg"
    by (simp_all add: own_config_def patchable_def)
qed

lemma managed_set [simp]: "managed inst (set_Conditions cs i) = managed inst i"
  by (simp add: managed_def same_identity_def)

lemma ref_resolves:
  obtains v i1 t where "resolveOCPVersion (ref_deps vars) (initialise_status (ref_deps vars) i) s = (GoOk (v, i1), t)"
    "world t = world s" "ocp_outcome (ref_deps vars) (initialise_status (ref_deps vars) i) v i1"
    "osl_Conditions i1 \<noteq> None"
proof -
  let ?D = "ref_deps vars"
  let ?i = "initialise_status ?D i"
  have parse: "\<not> is_panic (ParseMajorMinorVersion x)" for x
    by (simp add: ParseMajorMinorVersion_def Let_def)
  obtain d t' where d: "DetectOCPVersion ?D s = (d, t')" by (cases "DetectOCPVersion ?D s")
  have "preserves (\<lambda>w. w = world s) (DetectOCPVersion ?D)"
    unfolding DetectOCPVersion_def GetRawClient_def
    by (intro preserves_intros) (simp_all add: ref_client_def)
  from preservesD [OF this d] have wt: "world t' = world s" by simp
  have np: "\<not> is_panic d"
  proof (cases "c_version (world s)")
    case None
    with d show ?thesis
      by (auto simp: DetectOCPVersion_def onErr_run ref_GetRawClient perform_def ref_client_def)
  next
    case (Some obj)
    obtain p where "NestedString ref_uns obj [''status'', ''desired'', ''version''] = p" "\<not> is_panic p"
      by (simp split: option.split json.split)
    with Some d parse show ?thesis
      by (cases p) (auto simp del: ref_uns_sel simp: DetectOCPVersion_def onErr_run ref_GetRawClient perform_def
          ref_client_def split: prod.splits gores.splits if_splits)
  qed
  have "\<exists>v i1 t. resolveOCPVersion ?D ?i s = (GoOk (v, i1), t) \<and> world t = world s"
    using np wt
    by (cases d) (auto simp: resolveOCPVersion_def Let_def onErr_run d ResolveOCPVersion_def split: prod.split)
  then obtain v i1 t where r: "resolveOCPVersion ?D ?i s = (GoOk (v, i1), t)" "world t = world s" by blast
  then have o: "ocp_outcome ?D ?i v i1"
    using returns_resolveOCPVersion by (fastforce simp: returns_def)
  then have "osl_Conditions i1 \<noteq> None"
    by (auto simp: ocp_outcome_def ref_cond_def)
  with r o that show thesis by blast
qed

text \<open>An instance among others: no other one has its key.\<close>

definition alone :: "OpenStackLightspeed \<Rightarrow> OpenStackLightspeed list \<Rightarrow> bool" where
  "alone inst others \<longleftrightarrow> instance_key inst \<notin> instance_key ` set others"

lemma alone_Nil [simp]: "alone inst ([] @ [])"
  by (simp add: alone_def)

lemma stored_among:
  "alone inst (pre @ post) \<Longrightarrow> instance_key i = instance_key inst \<Longrightarrow>
   stored_instance (stage w (pre @ i # post) csvs subs plans cfg) (instance_key inst) = Some i"
  by (induction pre) (auto simp: stored_instance_def alone_def)

lemma update_among:
  assumes "alone inst (pre @ post)" and "instance_key i = instance_key inst" and "instance_key i' = instance_key inst"
  shows "ref_update osl_Meta i' (pre @ i # post) = pre @ i' # post"
proof -
  have same: "same_key (osl_Meta y) (osl_Meta i') \<longleftrightarrow> instance_key y = instance_key inst" for y
    using assms(3) by (auto simp: same_key_def instance_key_def)
  have "map (\<lambda>y. if instance_key y = instance_key inst then i' else y) xs = xs" if "alone inst xs" for xs
    using that by (induction xs) (auto simp: alone_def)
  then show ?thesis using assms(1,2) by (simp add: ref_update_def same alone_def image_Un)
qed

text \<open>
  A run for the managed instance: if the installation part does its work on the cluster, the run
  returns its result, and the instance in the cluster is the one that part has left.
\<close>

lemma managed_run:
  assumes "managed inst i" and "fresh_instance inst" and among: "alone inst (pre @ post)"
    and step: "\<And>i2 s2. managed inst i2 \<Longrightarrow> osl_Conditions i2 \<noteq> None \<Longrightarrow>
      \<not> IsTrue ref_cond (osl_Conditions i2) OpenStackLightspeedReadyCondition \<Longrightarrow> world s2 = stage w (pre @ i # post) csvs subs plans cfg \<Longrightarrow>
      \<exists>i3 s3 cfg'. reconcile_install (ref_deps vars) i i2 s2 = (GoOk ((res, None), i3), s3) \<and>
        world s3 = stage w (pre @ i # post) csvs' subs' plans' cfg' \<and> Q cfg' i3"
  obtains i' i3 t cfg' where
    "Reconcile (ref_deps vars) dflt (instance_key inst)
       \<lparr>world = stage w (pre @ i # post) csvs subs plans cfg, calls = []\<rparr> = (GoOk res, t)"
    "world t = stage w (pre @ i' # post) csvs' subs' plans' cfg'" "managed inst i'" "i' = patched (ref_deps vars) i i3" "Q cfg' i3"
proof -
  let ?D = "ref_deps vars"
  let ?w = "stage w (pre @ i # post) csvs subs plans cfg"
  let ?s = "\<lparr>world = ?w, calls = []\<rparr>"
  let ?s1 = "after_get (instance_key inst) ?w ?s"
  have key: "instance_key i = instance_key inst" and fin: "meta_Finalizers (osl_Meta i) = [ref_finalizer]"
    and del: "meta_DeletionTimestamp (osl_Meta i) = None"
    using assms(1,2) by (simp_all add: managed_def instance_key_def fresh_instance_def)
  have g: "get_instance (cli ?D) (instance_key inst) (world ?s) = (Inr i, ?w)"
    using key among by (simp add: ref_get_instance stored_among)
  obtain v i1 t1 where r: "resolveOCPVersion ?D (initialise_status ?D i) ?s1 = (GoOk (v, i1), t1)"
      "world t1 = world ?s1" "ocp_outcome ?D (initialise_status ?D i) v i1" "osl_Conditions i1 \<noteq> None"
    by (rule ref_resolves)
  let ?i2 = "apply_defaults dflt i1"
  have "osl_Meta ?i2 = osl_Meta i" "osl_TypeMeta ?i2 = osl_TypeMeta i" "Spec i1 = Spec i"
    using r(3) by (simp_all add: ocp_outcome_frame)
  then have m2: "managed inst ?i2"
    using assms(1) by (auto simp: managed_def same_identity_def apply_defaults_def Let_def)
  have "osl_Conditions ?i2 \<noteq> None" using r(4) by simp
  moreover have "\<not> IsTrue ref_cond (osl_Conditions ?i2) OpenStackLightspeedReadyCondition"
    using initialise_status_not_ready [of ?D i] ocp_outcome_other_conditions [OF _ r(3)] by simp
  ultimately obtain i3 s3 cfg' where s3: "reconcile_install ?D i ?i2 t1 = (GoOk ((res, None), i3), s3)"
    "world s3 = stage w (pre @ i # post) csvs' subs' plans' cfg'" "Q cfg' i3"
    using step [OF m2, of t1] r(2) by (auto simp: after_get_def)
  have b: "reconcile_body ?D dflt i i ?s1 = (GoOk ((res, None), i3), s3)"
    using body_installing [OF _ _ _ r(1), where helper = i and dflt = dflt] s3(1) fin del by simp
  have m3: "managed inst (patched ?D i i3)"
    using install_outcome [OF s3(1)] m2 by (auto simp: patched_def)
  have "ref_update osl_Meta (patched ?D i i3) (pre @ i # post) = pre @ patched ?D i i3 # post"
    by (rule update_among) (use m3 key among in \<open>auto simp: managed_def instance_key_def\<close>)
  then show thesis
    using that [OF _ _ m3 refl s3(3)] Reconcile_run [OF g _ b] s3(2)
    by (simp add: result_of_def ref_client_def)
qed

lemmas managed_run_alone = managed_run [where pre = "[]" and post = "[]", OF _ _ alone_Nil, unfolded append_Nil]

lemma install_waiting:
  "EnsureOLSOperatorInstalled D i2 s2 = (GoOk False, s3) \<Longrightarrow>
   \<exists>cs. reconcile_install D h i2 s2 = (GoOk ((requeue_install, None), set_Conditions cs i2), s3)"
  by (simp add: reconcile_install_def onErr_run Let_def requeue_install_def) blast

lemma managed_ensure: "managed inst i \<Longrightarrow> EnsureOLSOperatorInstalled D i = EnsureOLSOperatorInstalled D inst"
  by (rule ensure_identity) (simp add: managed_def)

lemma sys_eta: "\<exists>cs. s = \<lparr>world = world s, calls = cs\<rparr>" for s :: "'w state"
  by (rule exI [of _ "calls s"]) simp

text \<open>The runs that wait: the first creates the subscription, the second approves the plan.\<close>

lemma waiting_run:
  assumes "managed inst i" and "fresh_instance inst"
    and step: "\<And>cs. \<exists>more. EnsureOLSOperatorInstalled (ref_deps vars) inst
      \<lparr>world = stage w [i] csvs subs plans cfg, calls = cs\<rparr> =
      (GoOk False, \<lparr>world = stage w [i] csvs subs' plans' cfg, calls = cs @ more\<rparr>)"
  obtains i' t where "Reconcile (ref_deps vars) dflt (instance_key inst)
      \<lparr>world = stage w [i] csvs subs plans cfg, calls = []\<rparr> = (GoOk requeue_install, t)"
    "world t = stage w [i'] csvs subs' plans' cfg" "managed inst i'"
proof (rule managed_run_alone [OF assms(1,2), where Q = "\<lambda>c i3. c = cfg"])
  fix i2 and s2 :: "cluster state"
  assume m: "managed inst i2" and s2: "world s2 = stage w [i] csvs subs plans cfg"
  obtain cs where "s2 = \<lparr>world = stage w [i] csvs subs plans cfg, calls = cs\<rparr>"
    using sys_eta [of s2] s2 by auto
  with step [of cs] obtain more where "EnsureOLSOperatorInstalled (ref_deps vars) i2 s2 =
      (GoOk False, \<lparr>world = stage w [i] csvs subs' plans' cfg, calls = cs @ more\<rparr>)"
    by (auto simp: managed_ensure [OF m])
  from install_waiting [OF this, of i] show "\<exists>i3 s3 cfg'. reconcile_install (ref_deps vars) i i2 s2 =
      (GoOk ((requeue_install, None), i3), s3) \<and> world s3 = stage w [i] csvs subs' plans' cfg' \<and> cfg' = cfg"
    by fastforce
qed (use that in blast)

text \<open>The object that the patch starts from.\<close>

definition config_base :: "(string \<Rightarrow> string option) \<Rightarrow> object option \<Rightarrow> object" where
  "config_base vars cfg = (case cfg of None \<Rightarrow> new_olsConfig (ref_deps vars) | Some c \<Rightarrow> c)"

lemma config_step:
  assumes "managed inst i2" and "osl_Conditions i2 \<noteq> None" and "patchable inst (config_base vars cfg)"
  obtains x c where "perform (CreateOrPatchOLSConfig (new_olsConfig (ref_deps vars)))
      (create_or_patch_olsconfig ref_client (new_olsConfig (ref_deps vars)) (olsConfig_mutate (ref_deps vars) h i2))
      \<lparr>world = stage w is csvs subs plans cfg, calls = cs\<rparr> =
      (GoOk x, \<lparr>world = stage w is csvs subs plans (Some c),
         calls = cs @ [CreateOrPatchOLSConfig (new_olsConfig (ref_deps vars))]\<rparr>)"
    "own_config inst c" "\<forall>q. kept_path q \<longrightarrow> at_path c q = at_path (config_base vars cfg) q"
proof -
  have "patchable i2 (config_base vars cfg)" using assms(1,3) by (simp add: managed_config)
  then obtain c where c: "olsConfig_mutate (ref_deps vars) h i2 (config_base vars cfg) = GoOk c" "own_config i2 c"
    "\<forall>q. kept_path q \<longrightarrow> at_path c q = at_path (config_base vars cfg) q"
    using assms(2) by (rule patch_makes_own)
  have "create_or_patch_olsconfig ref_client (new_olsConfig (ref_deps vars)) (olsConfig_mutate (ref_deps vars) h i2)
      (stage w is csvs subs plans cfg) = (Inr (case cfg of None \<Rightarrow> OperationResultCreated | Some _ \<Rightarrow> OperationResultUpdated, c),
        stage w is csvs subs plans (Some c))"
    using c(1) by (cases cfg) (simp_all add: ref_client_def ref_create_or_patch_olsconfig_def config_base_def)
  then show thesis
    using that c(2,3) managed_config(1) [OF assms(1)] by (simp add: perform_def)
qed

text \<open>The last part of a run: ask for the status of the \<^verbatim>\<open>OLSConfig\<close>.\<close>

definition await_config :: "(string \<Rightarrow> string option) \<Rightarrow> OpenStackLightspeed \<Rightarrow> (cluster, outcome) op" where
  "await_config vars i = onErr (IsOLSConfigReady (ref_deps vars)) (\<lambda>err. ret ((empty_Result, Some err), i))
     (\<lambda>ready. if ready then ret ((empty_Result, None),
          set_Conditions (MarkTrue ref_cond (osl_Conditions i) OpenStackLightspeedReadyCondition
            OpenStackLightspeedReadyMessage) i)
        else ret ((requeue_config, None), i))"

text \<open>Once the cluster service version exists, a run adopts it and patches the \<^verbatim>\<open>OLSConfig\<close>.\<close>

lemma configuring_step:
  fixes s2 :: "cluster state"
  assumes v: "GetRecommendedOLSVersion (ref_deps vars) = GoOk v" and fr: "fresh_instance inst"
    and m: "managed inst i2" and pt: "patchable inst (config_base vars cfg)"
    and s2: "world s2 = stage w is [own_csv v inst owners] [own_subscription v inst (Some n)] [own_plan v inst b] cfg"
  obtains c cs where "reconcile_install (ref_deps vars) h i2 s2 = await_config vars (operator_marked (ref_deps vars) i2)
       \<lparr>world = stage w is [own_csv v inst (instanceOwnerReference inst)]
          [own_subscription v inst (Some n)] [own_plan v inst True] (Some c), calls = cs\<rparr>"
    "own_config inst c" "\<forall>q. kept_path q \<longrightarrow> at_path c q = at_path (config_base vars cfg) q"
proof -
  let ?D = "ref_deps vars"
  let ?i = "operator_marked ?D i2"
  obtain cs where "s2 = \<lparr>world = stage w is [own_csv v inst owners] [own_subscription v inst (Some n)]
      [own_plan v inst b] cfg, calls = cs\<rparr>"
    using sys_eta [of s2] s2 by auto
  with ensure_adopts [OF v fr] obtain cs' where e: "EnsureOLSOperatorInstalled ?D i2 s2 =
      (GoOk True, \<lparr>world = stage w is [own_csv v inst (instanceOwnerReference inst)]
        [own_subscription v inst (Some n)] [own_plan v inst True] cfg, calls = cs'\<rparr>)"
    unfolding managed_ensure [OF m] by blast
  have "managed inst ?i" "osl_Conditions ?i \<noteq> None"
    using m by (simp_all add: operator_marked_def ref_cond_def)
  then obtain x c where c: "perform (CreateOrPatchOLSConfig (new_olsConfig ?D))
      (create_or_patch_olsconfig ref_client (new_olsConfig ?D) (olsConfig_mutate ?D h ?i))
      \<lparr>world = stage w is [own_csv v inst (instanceOwnerReference inst)] [own_subscription v inst (Some n)]
        [own_plan v inst True] cfg, calls = cs'\<rparr> =
      (GoOk x, \<lparr>world = stage w is [own_csv v inst (instanceOwnerReference inst)] [own_subscription v inst (Some n)]
        [own_plan v inst True] (Some c), calls = cs' @ [CreateOrPatchOLSConfig (new_olsConfig ?D)]\<rparr>)"
    "own_config inst c" "\<forall>q. kept_path q \<longrightarrow> at_path c q = at_path (config_base vars cfg) q"
    using pt by (rule config_step)
  have "reconcile_install ?D h i2 s2 = reconcile_olsConfig ?D h ?i
      \<lparr>world = stage w is [own_csv v inst (instanceOwnerReference inst)] [own_subscription v inst (Some n)]
        [own_plan v inst True] cfg, calls = cs'\<rparr>"
    using e by (simp add: reconcile_install_def onErr_run Let_def operator_marked_def)
  with c(1) show thesis
    unfolding reconcile_olsConfig_def Let_def
    by (intro that [OF _ c(2,3)])
      (simp add: onErr_run [of "perform _ _"] await_config_def requeue_config_def cong: if_cong)
qed

lemma configuring_run:
  assumes v: "GetRecommendedOLSVersion (ref_deps vars) = GoOk v" and fr: "fresh_instance inst"
    and m: "managed inst i"
  obtains i' t c where "Reconcile (ref_deps vars) dflt (instance_key inst)
      \<lparr>world = stage w [i] [own_csv v inst owners] [own_subscription v inst (Some n)] [own_plan v inst b] None,
       calls = []\<rparr> = (GoOk requeue_config, t)"
    "world t = stage w [i'] [own_csv v inst (instanceOwnerReference inst)] [own_subscription v inst (Some n)]
      [own_plan v inst True] (Some c)"
    "managed inst i'" "own_config inst c" "at_path c [''status''] = None"
    "at_path c [''metadata'', ''deletionTimestamp''] = None"
proof (rule managed_run_alone [OF m fr, where Q = "\<lambda>cfg' i3. \<exists>c. cfg' = Some c \<and> own_config inst c \<and>
      at_path c [''status''] = None \<and> at_path c [''metadata'', ''deletionTimestamp''] = None"])
  let ?D = "ref_deps vars"
  fix i2 and s2 :: "cluster state"
  assume m2: "managed inst i2"
    and s2: "world s2 = stage w [i] [own_csv v inst owners] [own_subscription v inst (Some n)] [own_plan v inst b] None"
  have pt: "patchable inst (config_base vars None)" by (simp add: config_base_def new_config_patchable)
  have st: "at_path (config_base vars None) [''status''] = None"
    "at_path (config_base vars None) [''metadata'', ''deletionTimestamp''] = None"
    by (simp_all add: config_base_def new_olsConfig_def ref_uns_def ref_put_def olsConfigGVK_def)
  obtain c cs where r: "reconcile_install ?D i i2 s2 = await_config vars (operator_marked ?D i2)
       \<lparr>world = stage w [i] [own_csv v inst (instanceOwnerReference inst)]
          [own_subscription v inst (Some n)] [own_plan v inst True] (Some c), calls = cs\<rparr>"
    and c: "own_config inst c" "\<forall>q. kept_path q \<longrightarrow> at_path c q = at_path (config_base vars None) q"
    by (rule configuring_step [OF v fr m2 pt s2])
  with st have c0: "at_path c [''status''] = None" "at_path c [''metadata'', ''deletionTimestamp''] = None"
    by (metis kept_path_simps)+
  obtain c' more where n: "IsOLSConfigReady ?D \<lparr>world = stage w [i] [own_csv v inst (instanceOwnerReference inst)]
      [own_subscription v inst (Some n)] [own_plan v inst True] (Some c), calls = cs\<rparr> =
      (GoOk False, \<lparr>world = stage w [i] [own_csv v inst (instanceOwnerReference inst)]
      [own_subscription v inst (Some n)] [own_plan v inst True] (Some c'), calls = cs @ more\<rparr>)"
    and c': "own_config inst c'" "\<forall>q. kept_path q \<longrightarrow> at_path c' q = at_path c q"
    using ref_not_ready [OF c(1) c0(1)] by blast
  from c'(2) c0 have c0': "at_path c' [''status''] = None" "at_path c' [''metadata'', ''deletionTimestamp''] = None"
    by (metis kept_path_simps)+
  have "reconcile_install ?D i i2 s2 = (GoOk ((requeue_config, None), operator_marked ?D i2),
      \<lparr>world = stage w [i] [own_csv v inst (instanceOwnerReference inst)]
      [own_subscription v inst (Some n)] [own_plan v inst True] (Some c'), calls = cs @ more\<rparr>)"
    unfolding r await_config_def onErr_run n by simp
  with c'(1) c0' show "\<exists>i3 s3 cfg'. reconcile_install ?D i i2 s2 = (GoOk ((requeue_config, None), i3), s3) \<and>
      world s3 = stage w [i] [own_csv v inst (instanceOwnerReference inst)] [own_subscription v inst (Some n)]
        [own_plan v inst True] cfg' \<and> (\<exists>c. cfg' = Some c \<and> own_config inst c \<and> at_path c [''status''] = None \<and>
          at_path c [''metadata'', ''deletionTimestamp''] = None)"
    by (intro exI conjI) (assumption | simp)+
qed (use that in blast)

text \<open>The run that finds the \<^verbatim>\<open>OLSConfig\<close> ready.\<close>

lemma ready_run:
  assumes v: "GetRecommendedOLSVersion (ref_deps vars) = GoOk v" and fr: "fresh_instance inst"
    and m: "managed inst i" and among: "alone inst (pre @ post)" and o: "own_config inst c0"
    and st: "at_path c0 [''status'', ''overallStatus''] = Some (JString ''Ready'')"
  obtains i' t c where "Reconcile (ref_deps vars) dflt (instance_key inst)
      \<lparr>world = stage w (pre @ i # post) [own_csv v inst owners] [own_subscription v inst (Some n)] [own_plan v inst b] (Some c0),
       calls = []\<rparr> = (GoOk empty_Result, t)"
    "world t = stage w (pre @ i' # post) [own_csv v inst (instanceOwnerReference inst)] [own_subscription v inst (Some n)]
      [own_plan v inst True] (Some c)"
    "managed inst i'" "own_config inst c" "IsReady (IsTrue ref_cond) i'"
    "\<forall>q. kept_path q \<longrightarrow> at_path c q = at_path c0 q"
proof (rule managed_run [OF m fr among, where Q = "\<lambda>cfg' i3. \<exists>c cs. cfg' = Some c \<and> own_config inst c \<and> (\<forall>q. kept_path q \<longrightarrow> at_path c q = at_path c0 q) \<and>
      osl_Conditions i3 = MarkTrue ref_cond cs OpenStackLightspeedReadyCondition OpenStackLightspeedReadyMessage"])
  let ?D = "ref_deps vars"
  fix i2 and s2 :: "cluster state"
  assume m2: "managed inst i2"
    and s2: "world s2 = stage w (pre @ i # post) [own_csv v inst owners] [own_subscription v inst (Some n)] [own_plan v inst b] (Some c0)"
  have pt: "patchable inst (config_base vars (Some c0))"
    using own_config_patchable [OF o] by (simp add: config_base_def)
  obtain c cs where r: "reconcile_install ?D i i2 s2 = await_config vars (operator_marked ?D i2)
       \<lparr>world = stage w (pre @ i # post) [own_csv v inst (instanceOwnerReference inst)]
          [own_subscription v inst (Some n)] [own_plan v inst True] (Some c), calls = cs\<rparr>"
    and c: "own_config inst c" "\<forall>q. kept_path q \<longrightarrow> at_path c q = at_path (config_base vars (Some c0)) q"
    by (rule configuring_step [OF v fr m2 pt s2])
  with st have ready: "at_path c [''status'', ''overallStatus''] = Some (JString ''Ready'')"
    unfolding config_base_def option.case by (metis kept_path_simps(1))
  have n: "IsOLSConfigReady ?D \<lparr>world = stage w (pre @ i # post) [own_csv v inst (instanceOwnerReference inst)]
      [own_subscription v inst (Some n)] [own_plan v inst True] (Some c), calls = cs\<rparr> =
      (GoOk True, \<lparr>world = stage w (pre @ i # post) [own_csv v inst (instanceOwnerReference inst)]
      [own_subscription v inst (Some n)] [own_plan v inst True] (Some c), calls = cs @ [ListOLSConfigs]\<rparr>)"
    by (rule ref_IsOLSConfigReady [OF _ ready]) simp
  let ?i3 = "set_Conditions (MarkTrue ref_cond (osl_Conditions (operator_marked ?D i2))
    OpenStackLightspeedReadyCondition OpenStackLightspeedReadyMessage) (operator_marked ?D i2)"
  have "reconcile_install ?D i i2 s2 = (GoOk ((empty_Result, None), ?i3),
      \<lparr>world = stage w (pre @ i # post) [own_csv v inst (instanceOwnerReference inst)]
      [own_subscription v inst (Some n)] [own_plan v inst True] (Some c), calls = cs @ [ListOLSConfigs]\<rparr>)"
    unfolding r await_config_def onErr_run n by simp
  moreover have "osl_Conditions ?i3 = MarkTrue ref_cond (osl_Conditions (operator_marked ?D i2))
      OpenStackLightspeedReadyCondition OpenStackLightspeedReadyMessage" by simp
  ultimately show "\<exists>i3 s3 cfg'. reconcile_install ?D i i2 s2 = (GoOk ((empty_Result, None), i3), s3) \<and>
      world s3 = stage w (pre @ i # post) [own_csv v inst (instanceOwnerReference inst)] [own_subscription v inst (Some n)]
        [own_plan v inst True] cfg' \<and> (\<exists>c cs. cfg' = Some c \<and> own_config inst c \<and> (\<forall>q. kept_path q \<longrightarrow> at_path c q = at_path c0 q) \<and>
      osl_Conditions i3 = MarkTrue ref_cond cs OpenStackLightspeedReadyCondition OpenStackLightspeedReadyMessage)"
    using c unfolding config_base_def option.case by (metis sys.select_convs(1))
next
  fix i' i3 t cfg'
  assume run: "Reconcile (ref_deps vars) dflt (instance_key inst)
      \<lparr>world = stage w (pre @ i # post) [own_csv v inst owners] [own_subscription v inst (Some n)] [own_plan v inst b] (Some c0),
       calls = []\<rparr> = (GoOk empty_Result, t)"
    "world t = stage w (pre @ i' # post) [own_csv v inst (instanceOwnerReference inst)] [own_subscription v inst (Some n)]
      [own_plan v inst True] cfg'" "managed inst i'"
    and i': "i' = patched (ref_deps vars) i i3"
    and "\<exists>c cs. cfg' = Some c \<and> own_config inst c \<and> (\<forall>q. kept_path q \<longrightarrow> at_path c q = at_path c0 q) \<and>
      osl_Conditions i3 = MarkTrue ref_cond cs OpenStackLightspeedReadyCondition OpenStackLightspeedReadyMessage"
  moreover from this have "IsReady (IsTrue ref_cond) i'"
    using conditions_contract.ready_is_top(1) [OF ref_conditions.conditions_contract_axioms]
    by (auto simp: IsReady_def patched_def ref_conditions.is_true_overall ref_conditions.is_true_mark_true)
  ultimately show thesis using that by blast
qed

lemmas ready_run_alone = ready_run [where pre = "[]" and post = "[]", OF _ _ _ alone_Nil, unfolded append_Nil]

text \<open>The first run of all adds the finalizer.\<close>

lemma first_run:
  assumes fr: "fresh_instance inst" and among: "alone inst (pre @ post)"
  obtains i t where "Reconcile (ref_deps vars) dflt (instance_key inst)
      \<lparr>world = stage w (pre @ inst # post) csvs subs plans cfg, calls = []\<rparr> = (GoOk empty_Result, t)"
    "world t = stage w (pre @ i # post) csvs subs plans cfg" "managed inst i" "\<not> IsReady (IsTrue ref_cond) i"
proof -
  let ?D = "ref_deps vars"
  let ?w = "stage w (pre @ inst # post) csvs subs plans cfg"
  let ?s1 = "after_get (instance_key inst) ?w \<lparr>world = ?w, calls = []\<rparr>"
  have g: "get_instance (cli ?D) (instance_key inst) (world \<lparr>world = ?w, calls = []\<rparr>) = (Inr inst, ?w)"
    using among by (simp add: ref_get_instance stored_among)
  obtain v i1 t1 where r: "resolveOCPVersion ?D (initialise_status ?D inst) ?s1 = (GoOk (v, i1), t1)"
      "world t1 = world ?s1" "ocp_outcome ?D (initialise_status ?D inst) v i1" "osl_Conditions i1 \<noteq> None"
    by (rule ref_resolves)
  have i1: "osl_Meta i1 = osl_Meta inst" "osl_TypeMeta i1 = osl_TypeMeta inst" "Spec i1 = Spec inst"
    using r(3) by (simp_all add: ocp_outcome_frame)
  let ?i2 = "snd (AddFinalizer ?D i1 ref_finalizer)"
  have a: "AddFinalizer ?D i1 ref_finalizer = (True, i1\<lparr>osl_Meta := (osl_Meta i1)\<lparr>meta_Finalizers := [ref_finalizer]\<rparr>\<rparr>)"
    using fr i1 by (simp add: ref_deps_def ref_set_finalizers_def fresh_instance_def)
  then have b: "reconcile_body ?D dflt inst inst ?s1 = (GoOk ((empty_Result, None), ?i2), t1)"
    using r(1) fr i1 by (simp add: reconcile_body_def fresh_instance_def)
  have m: "managed inst (patched ?D inst ?i2)"
    using i1 a by (simp add: managed_def same_identity_def patched_def)
  then have u: "ref_update osl_Meta (patched ?D inst ?i2) (pre @ inst # post) = pre @ patched ?D inst ?i2 # post"
    by (intro update_among [OF among]) (simp_all add: managed_def instance_key_def)
  have "\<not> IsTrue ref_cond (osl_Conditions ?i2) OpenStackLightspeedReadyCondition"
    using initialise_status_not_ready [of ?D inst] ocp_outcome_other_conditions [OF _ r(3)] a by simp
  then have "\<not> IsReady (IsTrue ref_cond) (patched ?D inst ?i2)"
    using conditions_contract.ready_is_top(1) [OF ref_conditions.conditions_contract_axioms]
    by (simp add: IsReady_def patched_def ref_conditions.is_true_overall)
  then show thesis
    using that [OF _ _ m] Reconcile_run [OF g _ b] r(2) u
    by (simp add: result_of_def ref_client_def after_get_def)
qed

lemmas first_run_alone = first_run [where pre = "[]" and post = "[]", OF _ alone_Nil, unfolded append_Nil]

section \<open>Deletion on the cluster in memory\<close>

text \<open>
  An \<^verbatim>\<open>OLSConfig\<close> of the instance with the operator's finalizer: a removal takes that finalizer
  away, and answers whether there is no other.
\<close>

definition owned_config_of :: "OpenStackLightspeed \<Rightarrow> object \<Rightarrow> bool" where
  "owned_config_of inst cfg \<longleftrightarrow> (\<exists>labels. labels_at cfg labels \<and> owner_in labels = Some (osl_UID inst))"

definition without_finalizer :: "object \<Rightarrow> object" where
  "without_finalizer cfg =
     ref_put cfg (JArray (map JString (filter (\<lambda>x. x \<noteq> ref_finalizer) (ref_finalizers cfg)))) finalizer_path"

definition marked_config :: "object \<Rightarrow> object" where
  "marked_config cfg = ref_put cfg (JString ''now'') [''metadata'', ''deletionTimestamp'']"

lemma owned_labels:
  "owned_config_of inst cfg \<Longrightarrow> label_of (ref_labels cfg) OpenStackLightspeedOwnerIDLabel = osl_UID inst"
  using object_metadata.labels_at_GetLabels [OF ref_metadata.object_metadata_axioms]
  by (fastforce simp: owned_config_of_def label_of_owner)

lemma finalizers_settable: "ref_finalizers cfg \<noteq> [] \<Longrightarrow> settable cfg finalizer_path"
  using at_path_settable [of cfg finalizer_path]
  by (cases "at_path cfg finalizer_path") (simp_all add: ref_finalizers_def finalizer_path_def)

lemma without_finalizer_finalizers:
  "ref_finalizers cfg \<noteq> [] \<Longrightarrow>
   ref_finalizers (without_finalizer cfg) = filter (\<lambda>x. x \<noteq> ref_finalizer) (ref_finalizers cfg)"
  using ref_put_get [OF finalizers_settable]
  by (simp add: ref_finalizers_def [of "ref_put _ _ _"] without_finalizer_def)

lemma remove_attempt:
  assumes "owned_config_of inst c" and "ref_finalizer \<in> set (ref_finalizers c)"
    and "osl_UID i1 = osl_UID inst" and "osl_UID inst \<noteq> []"
  shows "\<exists>more. RemoveOLSConfig (ref_deps vars) h i1 \<lparr>world = stage w is csvs subs plans (Some c), calls = cs\<rparr> =
    (GoOk (ref_finalizers (without_finalizer c) = []), \<lparr>world = stage w is csvs subs plans
       (if ref_finalizers (without_finalizer c) = [] then None else Some (marked_config (without_finalizer c))),
       calls = cs @ more\<rparr>)"
proof -
  let ?D = "ref_deps vars" and ?c = "without_finalizer c"
  have "uns_RemoveFinalizer ref_uns c ref_finalizer = (True, ?c)"
    using assms(2) by (simp add: ref_uns_def without_finalizer_def)
  then have mut: "RemoveOLSConfig_mutate ?D h i1 c = GoOk ?c"
    using assms(3,4) owned_labels [OF assms(1)] by (simp add: RemoveOLSConfig_mutate_def)
  have nf: "IsNotFound ?D (NewNotFound ?D a b n)" for a b n
    by (simp add: client_contract.not_found)
  have "RemoveOLSConfig ?D h i1 \<lparr>world = stage w is csvs subs plans (Some c), calls = cs\<rparr> =
      (GoOk (ref_finalizers ?c = []), \<lparr>world = stage w is csvs subs plans
         (if ref_finalizers ?c = [] then None else Some (marked_config ?c)),
        calls = cs @ [ListOLSConfigs, CreateOrPatchOLSConfig c, DeleteOLSConfig ?c, ListOLSConfigs]\<rparr>)"
    by (simp add: RemoveOLSConfig_def GetOLSConfig_def onErr_run andThen_run perform_def ref_client_def
        ref_create_or_patch_olsconfig_def ref_delete_olsconfig_def mut nf marked_config_def)
  then show ?thesis by blast
qed

lemma remove_own_config:
  assumes "own_config inst c" and "osl_UID i1 = osl_UID inst" and "osl_UID inst \<noteq> []"
  shows "\<exists>more. RemoveOLSConfig (ref_deps vars) h i1 \<lparr>world = stage w is csvs subs plans (Some c), calls = cs\<rparr> =
    (GoOk True, \<lparr>world = stage w is csvs subs plans None, calls = cs @ more\<rparr>)"
proof -
  have o: "owned_config_of inst c" "ref_finalizer \<in> set (ref_finalizers c)"
    using assms(1) by (simp_all add: own_config_def owned_config_of_def)
  then have "ref_finalizers (without_finalizer c) = filter (\<lambda>x. x \<noteq> ref_finalizer) (ref_finalizers c)"
    by (intro without_finalizer_finalizers) auto
  also have "\<dots> = []" using assms(1) by (simp add: own_config_def)
  finally show ?thesis using remove_attempt [OF o assms(2,3)] by simp
qed

lemma uninstall_own:
  assumes "GetRecommendedOLSVersion (ref_deps vars) = GoOk v"
    and "osl_UID i1 = osl_UID inst" and "osl_Namespace i1 = osl_Namespace inst"
  shows "\<exists>more. UninstallInstanceOwnedOLSOperator (ref_deps vars) i1
      \<lparr>world = stage w is [own_csv v inst (instanceOwnerReference inst)] subs [own_plan v inst b] cfg, calls = cs\<rparr> =
    (GoOk True, \<lparr>world = stage w is [] subs [] cfg, calls = cs @ more\<rparr>)"
proof -
  have own: "IsOwnedBy (csv_Meta (own_csv v inst (instanceOwnerReference inst))) (osl_Meta i1)"
    using own_objects(7) [of v inst] assms(2) by (simp add: IsOwnedBy_def)
  show ?thesis
    by (simp add: UninstallInstanceOwnedOLSOperator_def DeleteOLSOperatorInstallPlan_def andThen_run onErr_run
        ref_GetOLSOperatorCSV ref_install_plan [OF assms(1)] perform_def own assms(3) ref_client_def)
      (simp add: ref_delete_def same_key_def andThen_run ref_install_plan [OF assms(1)] assms(3))
qed

text \<open>
  A run for an instance that is being deleted does what \<open>reconcileDelete\<close> does, and patches the
  instance.
\<close>

definition leaving :: "int \<Rightarrow> OpenStackLightspeed \<Rightarrow> OpenStackLightspeed \<Rightarrow> bool" where
  "leaving n inst j \<longleftrightarrow>
     osl_Meta j = (osl_Meta inst)\<lparr>meta_Finalizers := [ref_finalizer], meta_DeletionTimestamp := Some n\<rparr>"

lemma managed_leaving: "managed inst i \<Longrightarrow> fresh_instance inst \<Longrightarrow> leaving n inst (mark_deleted n i)"
  by (simp add: leaving_def managed_def mark_deleted_def fresh_instance_def)

lemma leaving_run:
  assumes l: "leaving n inst j" and n: "n \<noteq> 0" and among: "alone inst (pre @ post)"
    and step: "\<And>i1 cs. osl_Meta i1 = osl_Meta j \<Longrightarrow> \<exists>i2 cs'. osl_Meta i2 = (osl_Meta j)\<lparr>meta_Finalizers := fs\<rparr> \<and>
      reconcileDelete (ref_deps vars) j i1 \<lparr>world = stage w (pre @ j # post) csvs subs plans cfg, calls = cs\<rparr> =
        (GoOk (p, i2), \<lparr>world = stage w (pre @ j # post) csvs' subs' plans' cfg', calls = cs'\<rparr>)"
  obtains j' t where
    "Reconcile (ref_deps vars) dflt (instance_key inst) \<lparr>world = stage w (pre @ j # post) csvs subs plans cfg, calls = []\<rparr> =
      (result_of p, t)"
    "world t = stage w (pre @ j' # post) csvs' subs' plans' cfg'" "osl_Meta j' = (osl_Meta j)\<lparr>meta_Finalizers := fs\<rparr>"
proof -
  let ?D = "ref_deps vars"
  let ?w = "stage w (pre @ j # post) csvs subs plans cfg"
  let ?s1 = "after_get (instance_key inst) ?w \<lparr>world = ?w, calls = []\<rparr>"
  have g: "get_instance (cli ?D) (instance_key inst) (world \<lparr>world = ?w, calls = []\<rparr>) = (Inr j, ?w)"
    using l stored_among [OF among, of j] by (simp add: ref_get_instance instance_key_def leaving_def)
  obtain u i1 t1 where r: "resolveOCPVersion ?D (initialise_status ?D j) ?s1 = (GoOk (u, i1), t1)"
      "world t1 = world ?s1" "ocp_outcome ?D (initialise_status ?D j) u i1" "osl_Conditions i1 \<noteq> None"
    by (rule ref_resolves)
  have i1: "osl_Meta i1 = osl_Meta j" using r(3) by (simp add: ocp_outcome_frame)
  obtain cs where t1: "t1 = \<lparr>world = ?w, calls = cs\<rparr>"
    using sys_eta [of t1] r(2) by (auto simp: after_get_def)
  obtain i2 cs' where d: "osl_Meta i2 = (osl_Meta j)\<lparr>meta_Finalizers := fs\<rparr>" "reconcileDelete ?D j i1 t1 =
      (GoOk (p, i2), \<lparr>world = stage w (pre @ j # post) csvs' subs' plans' cfg', calls = cs'\<rparr>)"
    using step [OF i1] t1 by blast
  have b: "reconcile_body ?D dflt j j ?s1 =
      (GoOk (p, i2), \<lparr>world = stage w (pre @ j # post) csvs' subs' plans' cfg', calls = cs'\<rparr>)"
    using r(1) i1 l n d(2) by (simp add: reconcile_body_def leaving_def)
  let ?j' = "patched ?D j i2"
  have "osl_Meta ?j' = (osl_Meta j)\<lparr>meta_Finalizers := fs\<rparr>" using d(1) by simp
  moreover from this have "ref_update osl_Meta ?j' (pre @ j # post) = pre @ ?j' # post"
    using l by (intro update_among [OF among]) (simp_all add: instance_key_def leaving_def)
  ultimately show thesis
    using that [of _ ?j'] Reconcile_run [OF g _ b] by (simp add: ref_client_def)
qed

lemmas leaving_run_alone = leaving_run [where pre = "[]" and post = "[]", OF _ _ alone_Nil, unfolded append_Nil]

lemma release_meta:
  "leaving n inst i \<Longrightarrow> osl_Meta (snd (RemoveFinalizer (ref_deps vars) i ref_finalizer)) = (osl_Meta i)\<lparr>meta_Finalizers := []\<rparr>"
  by (simp add: leaving_def finalizers_contract.remove_object [OF ref_typed_finalizers.finalizers_contract_axioms])

text \<open>The run in which the \<^verbatim>\<open>OLSConfig\<close> is gone, or goes, is the last one.\<close>

lemma last_run:
  assumes v: "GetRecommendedOLSVersion (ref_deps vars) = GoOk v" and l: "leaving n inst j" and n: "n \<noteq> 0"
    and rm: "\<And>i1 cs. osl_UID i1 = osl_UID inst \<Longrightarrow> \<exists>more. RemoveOLSConfig (ref_deps vars) j i1
      \<lparr>world = stage w [j] [own_csv v inst (instanceOwnerReference inst)] subs [own_plan v inst b] cfg, calls = cs\<rparr> =
      (GoOk True, \<lparr>world = stage w [j] [own_csv v inst (instanceOwnerReference inst)] subs [own_plan v inst b] None,
         calls = cs @ more\<rparr>)"
  obtains i' t where "Reconcile (ref_deps vars) dflt (instance_key inst)
      \<lparr>world = stage w [j] [own_csv v inst (instanceOwnerReference inst)] subs [own_plan v inst b] cfg,
       calls = []\<rparr> = (GoOk empty_Result, t)"
    "world t = stage w [i'] [] subs [] None" "removable i'"
proof -
  let ?D = "ref_deps vars"
  have del: "\<exists>i2 cs'. osl_Meta i2 = (osl_Meta j)\<lparr>meta_Finalizers := []\<rparr> \<and> reconcileDelete ?D j i1
      \<lparr>world = stage w [j] [own_csv v inst (instanceOwnerReference inst)] subs [own_plan v inst b] cfg, calls = cs\<rparr> =
      (GoOk ((empty_Result, None), i2), \<lparr>world = stage w [j] [] subs [] None, calls = cs'\<rparr>)"
    if i1: "osl_Meta i1 = osl_Meta j" for i1 cs
  proof -
    have ids: "osl_UID i1 = osl_UID inst" "osl_Namespace i1 = osl_Namespace inst" and l1: "leaving n inst i1"
      using i1 l by (simp_all add: leaving_def)
    obtain m1 where m1: "RemoveOLSConfig ?D j i1
        \<lparr>world = stage w [j] [own_csv v inst (instanceOwnerReference inst)] subs [own_plan v inst b] cfg, calls = cs\<rparr> =
        (GoOk True, \<lparr>world = stage w [j] [own_csv v inst (instanceOwnerReference inst)] subs [own_plan v inst b] None,
         calls = cs @ m1\<rparr>)" using rm [OF ids(1)] by blast
    obtain m2 where "UninstallInstanceOwnedOLSOperator ?D i1
        \<lparr>world = stage w [j] [own_csv v inst (instanceOwnerReference inst)] subs [own_plan v inst b] None, calls = cs @ m1\<rparr> =
        (GoOk True, \<lparr>world = stage w [j] [] subs [] None, calls = (cs @ m1) @ m2\<rparr>)"
      using uninstall_own [OF v ids] by blast
    with m1 release_meta [OF l1] i1 show ?thesis by (simp add: reconcileDelete_def onErr_run)
  qed
  obtain j' t where "Reconcile ?D dflt (instance_key inst)
      \<lparr>world = stage w [j] [own_csv v inst (instanceOwnerReference inst)] subs [own_plan v inst b] cfg, calls = []\<rparr> =
      (result_of (empty_Result, None), t)" "world t = stage w [j'] [] subs [] None"
      "osl_Meta j' = (osl_Meta j)\<lparr>meta_Finalizers := []\<rparr>"
    using l n del by (rule leaving_run_alone)
  moreover from this(3) l have "removable j'" by (simp add: removable_def leaving_def)
  ultimately show thesis using that by (simp add: result_of_def)
qed

lemma deletion_run:
  assumes v: "GetRecommendedOLSVersion (ref_deps vars) = GoOk v" and fr: "fresh_instance inst"
    and m: "managed inst i" and o: "own_config inst c" and n: "n \<noteq> 0"
  obtains i' t where "Reconcile (ref_deps vars) dflt (instance_key inst)
      \<lparr>world = stage w [mark_deleted n i] [own_csv v inst (instanceOwnerReference inst)] subs [own_plan v inst b] (Some c),
       calls = []\<rparr> = (GoOk empty_Result, t)"
    "world t = stage w [i'] [] subs [] None" "removable i'"
proof (rule last_run [OF v managed_leaving [OF m fr] n])
  show "\<exists>more. RemoveOLSConfig (ref_deps vars) (mark_deleted n i) i1 \<lparr>world = stage w [mark_deleted n i]
      [own_csv v inst (instanceOwnerReference inst)] subs [own_plan v inst b] (Some c), calls = cs\<rparr> =
      (GoOk True, \<lparr>world = stage w [mark_deleted n i] [own_csv v inst (instanceOwnerReference inst)] subs
         [own_plan v inst b] None, calls = cs @ more\<rparr>)" if "osl_UID i1 = osl_UID inst" for i1 cs
    by (rule remove_own_config [OF o that]) (use fr in \<open>auto simp: fresh_instance_def\<close>)
qed

section \<open>The whole life\<close>

fun run_results :: "'w event list \<Rightarrow> ReconcileResult gores list" where
  "run_results [] = []"
| "run_results (Ran req s r t # tr) = r # run_results tr"
| "run_results (Moved # tr) = run_results tr"

lemma run_results_append [simp]: "run_results (tr @ tr') = run_results tr @ run_results tr'"
  by (induction tr rule: run_results.induct) simp_all

text \<open>A history in which a run comes next, or a step of somebody else.\<close>

abbreviation life ::
  "(string \<Rightarrow> string option) \<Rightarrow> OpenStackLightspeedDefaults \<Rightarrow> cluster \<Rightarrow> ReconcileResult gores list \<Rightarrow> cluster \<Rightarrow> bool" where
  "life vars dflt start rs w \<equiv>
     (\<exists>tr. history (ref_deps vars) dflt cluster_step start tr w \<and> run_results tr = rs)"

lemma life_run:
  "life vars dflt start rs w \<Longrightarrow>
   Reconcile (ref_deps vars) dflt req \<lparr>world = w, calls = []\<rparr> = (r, t) \<Longrightarrow>
   life vars dflt start (rs @ [r]) (world t)"
  by (fastforce intro: ran)

lemma life_step: "life vars dflt start rs w \<Longrightarrow> cluster_step w w' \<Longrightarrow> life vars dflt start rs w'"
  by (fastforce intro: moved)

lemma life_begun: "life vars dflt w [] w"
  by (fastforce intro: begun)

text \<open>
  The objects in the cluster when everything is in place, and an \<^verbatim>\<open>OLSConfig\<close> that is the
  instance's and ready.
\<close>

definition ready_own_config :: "OpenStackLightspeed \<Rightarrow> object \<Rightarrow> bool" where
  "ready_own_config inst c \<longleftrightarrow>
     own_config inst c \<and> at_path c [''status'', ''overallStatus''] = Some (JString ''Ready'')"

definition config_deleted :: "object \<Rightarrow> bool" where
  "config_deleted c \<longleftrightarrow> at_path c [''metadata'', ''deletionTimestamp''] \<noteq> None"

definition running :: "string \<Rightarrow> OpenStackLightspeed \<Rightarrow> OpenStackLightspeed \<Rightarrow> object \<Rightarrow> cluster \<Rightarrow> cluster" where
  "running v inst i c w = stage w [i] [own_csv v inst (instanceOwnerReference inst)]
     [own_subscription v inst (Some ''install'')] [own_plan v inst True] (Some c)"

abbreviation installing_results :: "ReconcileResult list" where
  "installing_results \<equiv> [empty_Result, requeue_install, requeue_install, requeue_config, empty_Result]"

lemma reaches_running:
  assumes v: "GetRecommendedOLSVersion (ref_deps vars) = GoOk v" and fr: "fresh_instance inst"
  obtains i c where
    "life vars dflt (stage w [] [] [] [] None) (map GoOk installing_results)
       (running v inst i c w)"
    "managed inst i" "ready_own_config inst c" "IsReady (IsTrue ref_cond) i" "\<not> config_deleted c"
proof -
  let ?start = "stage w [] [] [] [] None"
  let ?sub = "own_subscription v inst"
  have "osl_UID inst \<noteq> []" using fr by (auto simp: fresh_instance_def)
  then have "cluster_step ?start (stage w [inst] [] [] [] None)"
    using cluster_step.created [of inst ?start] fr by (simp add: fresh_instance_def)
  from life_step [OF life_begun this] have l0: "life vars dflt ?start [] (stage w [inst] [] [] [] None)" .
  obtain i1 t1 where r1: "Reconcile (ref_deps vars) dflt (instance_key inst)
      \<lparr>world = stage w [inst] [] [] [] None, calls = []\<rparr> = (GoOk empty_Result, t1)"
    "world t1 = stage w [i1] [] [] [] None" "managed inst i1"
    by (rule first_run_alone [OF fr])
  obtain i2 t2 where r2: "Reconcile (ref_deps vars) dflt (instance_key inst)
      \<lparr>world = stage w [i1] [] [] [] None, calls = []\<rparr> = (GoOk requeue_install, t2)"
    "world t2 = stage w [i2] [] [?sub None] [] None" "managed inst i2"
    by (rule waiting_run [OF r1(3) fr ensure_subscribes [OF v fr]])
  have "cluster_step (stage w [i2] [] [?sub None] [] None)
      (link_plan (?sub None) (own_plan v inst False) (stage w [i2] [] [?sub None] [] None))"
    by (rule cluster_step.linked) (simp_all add: own_plan_def own_subscription_def)
  then have s2: "cluster_step (stage w [i2] [] [?sub None] [] None)
      (stage w [i2] [] [?sub (Some ''install'')] [own_plan v inst False] None)"
    by (simp add: link_plan_def own_plan_def own_subscription_def)
  obtain i3 t3 where r3: "Reconcile (ref_deps vars) dflt (instance_key inst)
      \<lparr>world = stage w [i2] [] [?sub (Some ''install'')] [own_plan v inst False] None, calls = []\<rparr> =
      (GoOk requeue_install, t3)"
    "world t3 = stage w [i3] [] [?sub (Some ''install'')] [own_plan v inst True] None" "managed inst i3"
    by (rule waiting_run [OF r2(3) fr ensure_approves [OF v fr]])
  have "installed_csv (own_plan v inst True) (csv_name v) = own_csv v inst []"
    by (simp add: installed_csv_def own_plan_def own_csv_def empty_ObjectMeta_def)
  then have s3: "cluster_step (stage w [i3] [] [?sub (Some ''install'')] [own_plan v inst True] None)
      (stage w [i3] [own_csv v inst []] [?sub (Some ''install'')] [own_plan v inst True] None)"
    using cluster_step.installed [of "own_plan v inst True"
        "stage w [i3] [] [?sub (Some ''install'')] [own_plan v inst True] None" "csv_name v"]
    by (simp add: own_plan_def)
  obtain i4 t4 c4 where r4: "Reconcile (ref_deps vars) dflt (instance_key inst)
      \<lparr>world = stage w [i3] [own_csv v inst []] [?sub (Some ''install'')] [own_plan v inst True] None, calls = []\<rparr> =
      (GoOk requeue_config, t4)" "world t4 = running v inst i4 c4 w"
    "managed inst i4" "own_config inst c4" "at_path c4 [''status''] = None"
    "at_path c4 [''metadata'', ''deletionTimestamp''] = None"
    unfolding running_def by (rule configuring_run [OF v fr r3(3)])
  have s4: "cluster_step (running v inst i4 c4 w) (running v inst i4 (report_status ''Ready'' c4) w)"
    using reported [of "running v inst i4 c4 w" c4 "''Ready''"] by (simp add: running_def)
  obtain i5 t5 c5 where r5: "Reconcile (ref_deps vars) dflt (instance_key inst)
      \<lparr>world = running v inst i4 (report_status ''Ready'' c4) w, calls = []\<rparr> = (GoOk empty_Result, t5)"
    "world t5 = running v inst i5 c5 w" "managed inst i5" "own_config inst c5" "IsReady (IsTrue ref_cond) i5"
    "\<forall>q. kept_path q \<longrightarrow> at_path c5 q = at_path (report_status ''Ready'' c4) q"
    unfolding running_def by (rule ready_run_alone [OF v fr r4(3) report_status_own(1,2) [OF r4(4,5)]])
  note kept = r5(6) [rule_format, OF kept_path_simps(1)] r5(6) [rule_format, OF kept_path_simps(2)]
  have c5: "ready_own_config inst c5" "\<not> config_deleted c5"
    using r5(4) r4(6) unfolding ready_own_config_def config_deleted_def kept report_status_own(2,3) [OF r4(4,5)]
    by simp_all
  note l1 = life_run [OF l0 r1(1), unfolded r1(2)]
  note l2 = life_step [OF life_run [OF l1 r2(1), unfolded r2(2)] s2]
  note l3 = life_step [OF life_run [OF l2 r3(1), unfolded r3(2)] s3]
  note l4 = life_step [OF life_run [OF l3 r4(1), unfolded r4(2)] s4]
  from life_run [OF l4 r5(1), unfolded r5(2)] that [of i5 c5] r5(3,5) c5
  show thesis by simp
qed

text \<open>The instance without finalizers is removed, and its subscription with it.\<close>

lemma left_over_steps:
  assumes "removable i'"
  shows "cluster_step (stage w [i'] [] [own_subscription v inst r] [] None) (stage w [] [] [own_subscription v inst r] [] None)"
    "cluster_step (stage w [] [] [own_subscription v inst r] [] None) (stage w [] [] [] [] None)"
proof -
  show "cluster_step (stage w [i'] [] [own_subscription v inst r] [] None) (stage w [] [] [own_subscription v inst r] [] None)"
    using cluster_step.removed [of "stage w [i'] [] [own_subscription v inst r] [] None"] assms by simp
  have "orphaned (stage w [] [] [own_subscription v inst r] [] None) (own_subscription v inst r)"
    by (simp add: orphaned_def own_subscription_def instanceOwnerReference_def)
  then show "cluster_step (stage w [] [] [own_subscription v inst r] [] None) (stage w [] [] [] [] None)"
    using cluster_step.collected [of "stage w [] [] [own_subscription v inst r] [] None"] by simp
qed

text \<open>A deletion is requested.\<close>

lemma deletion_step:
  assumes "managed inst i" and "n \<noteq> 0"
  shows "cluster_step (stage w [i] csvs subs plans cfg) (stage w [mark_deleted n i] csvs subs plans cfg)"
proof -
  have "instance_key i = instance_key inst" using assms(1) by (simp add: managed_def instance_key_def)
  then show ?thesis
    using cluster_step.deleted [OF assms(2), of "stage w [i] csvs subs plans cfg" "instance_key inst"]
    by (simp add: change_instance_def)
qed

lemma returns_to_start:
  assumes v: "GetRecommendedOLSVersion (ref_deps vars) = GoOk v" and fr: "fresh_instance inst"
    and m: "managed inst i" and o: "own_config inst c"
  shows "life vars dflt (running v inst i c w) [GoOk empty_Result] (stage w [] [] [] [] None)"
proof -
  let ?subs = "[own_subscription v inst (Some ''install'')]"
  let ?s1 = "stage w [mark_deleted 1 i] [own_csv v inst (instanceOwnerReference inst)] ?subs [own_plan v inst True] (Some c)"
  have s1: "cluster_step (running v inst i c w) ?s1"
    unfolding running_def by (rule deletion_step [OF m]) simp
  obtain i' t where r: "Reconcile (ref_deps vars) dflt (instance_key inst) \<lparr>world = ?s1, calls = []\<rparr> =
      (GoOk empty_Result, t)" "world t = stage w [i'] [] ?subs [] None" "removable i'"
    by (rule deletion_run [OF v fr m o, of 1 dflt w ?subs True]) simp
  note l = life_run [OF life_step [OF life_begun s1] r(1), unfolded r(2)]
  from life_step [OF life_step [OF l left_over_steps(1) [OF r(3)]] left_over_steps(2) [OF r(3)]] show ?thesis by simp
qed

text \<open>
  C5: from nothing to readiness and back. Whatever instance a user creates in a cluster without
  any other objects, with any recommended version: there is a history in which the other
  controllers do their part once each, and the runs add the finalizer, create the
  subscription, approve the plan, adopt the operator and create the \<^verbatim>\<open>OLSConfig\<close>, and find it ready,
  asking to be run again where they wait; after the deletion of the instance one run is enough
  for a history back to the cluster as it was.
\<close>

theorem whole_life:
  assumes "GetRecommendedOLSVersion (ref_deps vars) = GoOk v" and "fresh_instance inst"
  shows "\<exists>tr tr' i w1.
     history (ref_deps vars) dflt cluster_step (stage w [] [] [] [] None) tr w1 \<and>
     run_results tr = map GoOk [empty_Result, requeue_install, requeue_install, requeue_config, empty_Result] \<and>
     stored_instance w1 (instance_key inst) = Some i \<and> osl_UID i = osl_UID inst \<and> IsReady (IsTrue ref_cond) i \<and>
     history (ref_deps vars) dflt cluster_step w1 tr' (stage w [] [] [] [] None) \<and>
     run_results tr' = [GoOk empty_Result]"
proof -
  obtain i c where i: "life vars dflt (stage w [] [] [] [] None)
      (map GoOk installing_results) (running v inst i c w)"
    "managed inst i" "own_config inst c" "IsReady (IsTrue ref_cond) i"
    using reaches_running [OF assms] unfolding ready_own_config_def by metis
  have "stored_instance (running v inst i c w) (instance_key inst) = Some i" "osl_UID i = osl_UID inst"
    using i(2) by (simp_all add: running_def stored_instance_def managed_def instance_key_def)
  with i(1,4) returns_to_start [OF assms i(2,3), of dflt w] show ?thesis by fastforce
qed

theorem whole_life_witness:
  "\<exists>tr tr' i w1.
     history (ref_deps sample_env) sample_defaults cluster_step empty_cluster tr w1 \<and>
     length (run_results tr) = 5 \<and> stored_instance w1 sample_request = Some i \<and> IsReady (IsTrue ref_cond) i \<and>
     history (ref_deps sample_env) sample_defaults cluster_step w1 tr' empty_cluster"
proof -
  have "fresh_instance sample_instance"
    by (simp add: fresh_instance_def) (simp add: sample_instance_def)
  moreover have "stage empty_cluster [] [] [] [] None = empty_cluster"
    by (simp add: stage_def empty_cluster_def)
  moreover have "instance_key sample_instance = sample_request"
    by (simp add: instance_key_def sample_request_def)
  ultimately show ?thesis
    using whole_life [OF sample_version, of sample_instance sample_defaults empty_cluster] by fastforce
qed

section \<open>Nothing is left behind: an example\<close>

theorem nothing_left_behind_witness:
  "\<exists>r t. history (ref_deps sample_env) sample_defaults cluster_step running_cluster
       [Ran sample_request \<lparr>world = running_cluster, calls = []\<rparr> r t] (world t) \<and>
     held ref_finalizer ''abcde-1'' (stored_instance (world t) sample_request)"
proof -
  let ?D = "ref_deps sample_env"
  let ?s = "\<lparr>world = running_cluster, calls = []\<rparr>"
  obtain s2 s3 s4 x where steps:
    "EnsureOLSOperatorInstalled ?D (apply_defaults sample_defaults sample_resolved)
       (after_get sample_request running_cluster ?s) = (GoOk True, s2)"
    "perform (CreateOrPatchOLSConfig (new_olsConfig ?D)) (create_or_patch_olsconfig ref_client (new_olsConfig ?D)
       (olsConfig_mutate ?D managed_instance (operator_marked ?D (apply_defaults sample_defaults sample_resolved))))
       s2 = (GoOk x, s3)"
    "IsOLSConfigReady ?D s3 = (GoOk True, s4)"
    by (rule sample_steps)
  obtain inst' t where run: "Reconcile ?D sample_defaults sample_request ?s = (GoOk empty_Result, t)"
    and l: "calls t = calls s4 @ [PatchInstance inst']"
    using Reconcile_ready_run [of ?D sample_request ?s managed_instance running_cluster managed_instance
        "[]" sample_resolved _ sample_defaults s2 x s3 s4] steps
    by (auto simp: sample_get sample_resolves)
  have "CreateOrPatchOLSConfig (new_olsConfig ?D) \<in> set (calls s3)"
    using steps(2) by (auto simp: perform_eq_GoOk)
  with steps(3) olsconfig_ready.calls_kept [of _ s3 ?D] l have w: "list_ex is_external_write (calls t)"
    by (force simp: list_ex_iff)
  from ran [OF begun run] have h: "history ?D sample_defaults cluster_step running_cluster
      ([] @ Ran sample_request ?s (GoOk empty_Result) t # []) (world t)" by simp
  from nothing_left_behind [OF ref_store.instance_store_axioms _ h, of managed_instance running_cluster] w h
  show ?thesis by (auto simp: sample_get)
qed

end
