(* ===== verification/Slow_Removal.thy ===== *)
theory Slow_Removal
  imports End_To_End
begin

text \<open>
  The deletion of an instance when somebody else has a finalizer on the \<^verbatim>\<open>OLSConfig\<close>, as the
  OpenShift Lightspeed operator does: what the runs return while the \<^verbatim>\<open>OLSConfig\<close> waits for it.
\<close>

section \<open>The OLSConfig that waits\<close>

text \<open>
  The \<^verbatim>\<open>OLSConfig\<close> after the first attempt to remove it: still the instance's by its label, marked as
  being deleted, and only the finalizer of somebody else left.
\<close>

definition waiting_config :: "OpenStackLightspeed \<Rightarrow> string \<Rightarrow> object \<Rightarrow> bool" where
  "waiting_config inst f cfg \<longleftrightarrow> owned_config_of inst cfg \<and> ref_finalizers cfg = [f] \<and>
     at_path cfg [''metadata'', ''deletionTimestamp''] \<noteq> None"

definition with_finalizer :: "string \<Rightarrow> object \<Rightarrow> object" where
  "with_finalizer f cfg = ref_put cfg (JArray [JString ref_finalizer, JString f]) finalizer_path"

lemma owned_put:
  assumes "apart p label_path"
  shows "owned_config_of inst (ref_put cfg v p) = owned_config_of inst cfg"
proof -
  have "at_path (ref_put cfg v p) label_path = at_path cfg label_path"
    using assms by (simp add: ref_put_other apart_def)
  then show ?thesis by (simp add: owned_config_of_def labels_at_def)
qed

lemma paths_apart:
  "apart finalizer_path label_path" "apart [''metadata'', ''deletionTimestamp''] label_path"
  "apart [''metadata'', ''deletionTimestamp''] finalizer_path"
  by (simp_all add: apart_def label_path_def finalizer_path_def)

lemma finalizers_marked [simp]: "ref_finalizers (marked_config cfg) = ref_finalizers cfg"
  using paths_apart(3) unfolding marked_config_def
  by (intro ref_finalizers_cong) (simp add: ref_put_other apart_def)

lemma marked_has_timestamp:
  assumes "ref_finalizers cfg \<noteq> []"
  shows "at_path (marked_config cfg) [''metadata'', ''deletionTimestamp''] \<noteq> None"
proof -
  have "settable cfg [''metadata'', ''deletionTimestamp'']"
    using finalizers_settable [OF assms] by (simp add: finalizer_path_def split: option.splits json.splits)
  from ref_put_get [OF this] show ?thesis unfolding marked_config_def by (simp del: at_path.simps)
qed

lemma with_finalizer_finalizers:
  "own_config inst c \<Longrightarrow> ref_finalizers (with_finalizer f c) = [ref_finalizer, f]"
  using ref_put_get [OF finalizers_settable [of c]]
  by (simp add: own_config_def ref_finalizers_def [of "ref_put _ _ _"] with_finalizer_def) force

lemma with_finalizer_owned: "own_config inst c \<Longrightarrow> owned_config_of inst (with_finalizer f c)"
  unfolding with_finalizer_def owned_put [OF paths_apart(1)] by (simp add: own_config_def owned_config_of_def)

lemma attempted_waits:
  assumes "own_config inst c" and "f \<noteq> ref_finalizer"
  shows "ref_finalizers (without_finalizer (with_finalizer f c)) = [f]"
    "waiting_config inst f (marked_config (without_finalizer (with_finalizer f c)))"
proof -
  show fs: "ref_finalizers (without_finalizer (with_finalizer f c)) = [f]"
    using assms(2) with_finalizer_finalizers [OF assms(1)] by (simp add: without_finalizer_finalizers)
  moreover have "owned_config_of inst (marked_config (without_finalizer (with_finalizer f c)))"
    using with_finalizer_owned [OF assms(1)]
    by (simp add: marked_config_def without_finalizer_def owned_put paths_apart)
  ultimately show "waiting_config inst f (marked_config (without_finalizer (with_finalizer f c)))"
    by (simp add: waiting_config_def marked_has_timestamp del: at_path.simps)
qed

section \<open>The runs meanwhile\<close>

definition requeue_removal :: ReconcileResult where
  "requeue_removal = empty_Result\<lparr>RequeueAfter := Second * 10\<rparr>"

definition finalizer_error :: goerr where
  "finalizer_error = ErrorString ''remove finalizer failed''"

lemma leaving_same: "leaving n inst j \<Longrightarrow> osl_Meta i = osl_Meta j \<Longrightarrow> osl_Meta i = (osl_Meta j)\<lparr>meta_Finalizers := [ref_finalizer]\<rparr>"
  by (simp add: leaving_def)

lemma leaving_again: "leaving n inst j \<Longrightarrow> osl_Meta i = (osl_Meta j)\<lparr>meta_Finalizers := [ref_finalizer]\<rparr> \<Longrightarrow> leaving n inst i"
  by (simp add: leaving_def)

lemma first_attempt:
  assumes l: "leaving n inst j" and n: "n \<noteq> 0" and "osl_UID inst \<noteq> []"
    and o: "own_config inst c" and f: "f \<noteq> ref_finalizer"
  obtains j' t c' where "Reconcile (ref_deps vars) dflt (instance_key inst)
      \<lparr>world = stage w [j] csvs subs plans (Some (with_finalizer f c)), calls = []\<rparr> = (GoOk requeue_removal, t)"
    "world t = stage w [j'] csvs subs plans (Some c')" "leaving n inst j'" "waiting_config inst f c'"
proof -
  let ?D = "ref_deps vars" and ?c = "with_finalizer f c"
  let ?c' = "marked_config (without_finalizer ?c)"
  have del: "\<exists>i2 cs'. osl_Meta i2 = (osl_Meta j)\<lparr>meta_Finalizers := [ref_finalizer]\<rparr> \<and> reconcileDelete ?D j i1
      \<lparr>world = stage w [j] csvs subs plans (Some ?c), calls = cs\<rparr> =
      (GoOk ((requeue_removal, None), i2), \<lparr>world = stage w [j] csvs subs plans (Some ?c'), calls = cs'\<rparr>)"
    if i1: "osl_Meta i1 = osl_Meta j" for i1 cs
  proof -
    have uid: "osl_UID i1 = osl_UID inst" using i1 l by (simp add: leaving_def)
    have has: "ref_finalizer \<in> set (ref_finalizers ?c)" by (simp add: with_finalizer_finalizers [OF o])
    obtain more where "RemoveOLSConfig ?D j i1 \<lparr>world = stage w [j] csvs subs plans (Some ?c), calls = cs\<rparr> =
        (GoOk False, \<lparr>world = stage w [j] csvs subs plans (Some ?c'), calls = cs @ more\<rparr>)"
      using remove_attempt [OF with_finalizer_owned [OF o] has uid assms(3), of vars j w "[j]" csvs subs plans cs]
      by (auto simp: attempted_waits(1) [OF o f])
    with leaving_same [OF l i1] show ?thesis by (simp add: reconcileDelete_def onErr_run requeue_removal_def)
  qed
  obtain j' t where "Reconcile ?D dflt (instance_key inst)
      \<lparr>world = stage w [j] csvs subs plans (Some ?c), calls = []\<rparr> = (result_of (requeue_removal, None), t)"
    "world t = stage w [j'] csvs subs plans (Some ?c')" "osl_Meta j' = (osl_Meta j)\<lparr>meta_Finalizers := [ref_finalizer]\<rparr>"
    using l n del by (rule leaving_run_alone)
  with that [of t j' ?c'] leaving_again [OF l] attempted_waits(2) [OF o f] show thesis by (simp add: result_of_def)
qed

lemma attempt_refused:
  assumes "waiting_config inst f c" and "f \<noteq> ref_finalizer" and "osl_UID i1 = osl_UID inst" and "osl_UID inst \<noteq> []"
  shows "\<exists>more. RemoveOLSConfig (ref_deps vars) h i1 \<lparr>world = stage w is csvs subs plans (Some c), calls = cs\<rparr> =
    (GoErr finalizer_error, \<lparr>world = stage w is csvs subs plans (Some c), calls = cs @ more\<rparr>)"
proof -
  have "RemoveOLSConfig_mutate (ref_deps vars) h i1 c = GoErr finalizer_error"
    unfolding finalizer_error_def
    by (rule remove_retry_refused)
      (use assms owned_labels [of inst c] in \<open>simp_all add: waiting_config_def\<close>)
  then show ?thesis
    by (simp add: RemoveOLSConfig_def GetOLSConfig_def onErr_run andThen_run perform_def ref_client_def
        ref_create_or_patch_olsconfig_def)
qed

lemma retry:
  assumes l: "leaving n inst j" and n: "n \<noteq> 0" and "osl_UID inst \<noteq> []"
    and c: "waiting_config inst f c" "f \<noteq> ref_finalizer"
  obtains j' t where "Reconcile (ref_deps vars) dflt (instance_key inst)
      \<lparr>world = stage w [j] csvs subs plans (Some c), calls = []\<rparr> = (GoErr finalizer_error, t)"
    "world t = stage w [j'] csvs subs plans (Some c)" "leaving n inst j'"
proof -
  let ?D = "ref_deps vars"
  have del: "\<exists>i2 cs'. osl_Meta i2 = (osl_Meta j)\<lparr>meta_Finalizers := [ref_finalizer]\<rparr> \<and> reconcileDelete ?D j i1
      \<lparr>world = stage w [j] csvs subs plans (Some c), calls = cs\<rparr> =
      (GoOk ((empty_Result, Some finalizer_error), i2), \<lparr>world = stage w [j] csvs subs plans (Some c), calls = cs'\<rparr>)"
    if i1: "osl_Meta i1 = osl_Meta j" for i1 cs
  proof -
    have uid: "osl_UID i1 = osl_UID inst" using i1 l by (simp add: leaving_def)
    obtain more where "RemoveOLSConfig ?D j i1 \<lparr>world = stage w [j] csvs subs plans (Some c), calls = cs\<rparr> =
        (GoErr finalizer_error, \<lparr>world = stage w [j] csvs subs plans (Some c), calls = cs @ more\<rparr>)"
      using attempt_refused [OF c uid assms(3)] by blast
    with leaving_same [OF l i1] show ?thesis by (simp add: reconcileDelete_def onErr_run)
  qed
  obtain j' t where "Reconcile ?D dflt (instance_key inst)
      \<lparr>world = stage w [j] csvs subs plans (Some c), calls = []\<rparr> = (result_of (empty_Result, Some finalizer_error), t)"
    "world t = stage w [j'] csvs subs plans (Some c)" "osl_Meta j' = (osl_Meta j)\<lparr>meta_Finalizers := [ref_finalizer]\<rparr>"
    using l n del by (rule leaving_run_alone)
  with that [of t j'] leaving_again [OF l] show thesis by (simp add: result_of_def)
qed

text \<open>As long as nobody else does anything, every run for the instance ends like that.\<close>

lemma stuck:
  assumes "osl_UID inst \<noteq> []" and "n \<noteq> 0" and c: "waiting_config inst f c" "f \<noteq> ref_finalizer"
    and h: "history (ref_deps vars) dflt (\<lambda>_ _. False) (stage w [j] csvs subs plans (Some c)) tr w2"
    and "leaving n inst j"
  shows "(\<exists>j'. leaving n inst j' \<and> w2 = stage w [j'] csvs subs plans (Some c)) \<and>
    (\<forall>k s r t. Ran k s r t \<in> set tr \<longrightarrow> k = instance_key inst \<longrightarrow> r = GoErr finalizer_error)"
proof (rule runs_only [OF _ h])
  fix w' req r t
  assume "\<exists>j'. leaving n inst j' \<and> w' = stage w [j'] csvs subs plans (Some c)"
    and r: "Reconcile (ref_deps vars) dflt req \<lparr>world = w', calls = []\<rparr> = (r, t)"
  then obtain j' where j': "leaving n inst j'" "w' = stage w [j'] csvs subs plans (Some c)" by blast
  show "(\<exists>j'. leaving n inst j' \<and> world t = stage w [j'] csvs subs plans (Some c)) \<and>
      (req = instance_key inst \<longrightarrow> r = GoErr finalizer_error)"
  proof (cases "req = instance_key inst")
    case True
    obtain j2 t2 where "Reconcile (ref_deps vars) dflt (instance_key inst)
        \<lparr>world = stage w [j'] csvs subs plans (Some c), calls = []\<rparr> = (GoErr finalizer_error, t2)"
      "world t2 = stage w [j2] csvs subs plans (Some c)" "leaving n inst j2"
      using j'(1) assms(2,1) c by (rule retry)
    with r True j'(2) show ?thesis by auto
  next
    case False
    with j' have "stored_instance w' req = None"
      by (auto simp: stored_instance_def leaving_def instance_key_def)
    from nobody_run [OF this r] j' False show ?thesis by auto
  qed
qed (use assms(6) in blast)

text \<open>When the other finalizer is gone and with it the \<^verbatim>\<open>OLSConfig\<close>, the next run is the last one.\<close>

lemma gone_run:
  assumes "GetRecommendedOLSVersion (ref_deps vars) = GoOk v" and "leaving n inst j" and "n \<noteq> 0"
  obtains i' t where "Reconcile (ref_deps vars) dflt (instance_key inst)
      \<lparr>world = stage w [j] [own_csv v inst (instanceOwnerReference inst)] subs [own_plan v inst b] None,
       calls = []\<rparr> = (GoOk empty_Result, t)"
    "world t = stage w [i'] [] subs [] None" "removable i'"
proof (rule last_run [OF assms])
  show "\<exists>more. RemoveOLSConfig (ref_deps vars) j i1 \<lparr>world = stage w [j]
      [own_csv v inst (instanceOwnerReference inst)] subs [own_plan v inst b] None, calls = cs\<rparr> =
      (GoOk True, \<lparr>world = stage w [j] [own_csv v inst (instanceOwnerReference inst)] subs
         [own_plan v inst b] None, calls = cs @ more\<rparr>)" for i1 cs
    by (simp add: RemoveOLSConfig_def GetOLSConfig_def onErr_run andThen_run perform_def ref_client_def
        client_contract.not_found)
qed

lemma config_goes:
  assumes "waiting_config inst f c"
  shows "cluster_step (stage w is csvs subs plans (Some c))
      (stage w is csvs subs plans (Some (ref_put c (JArray []) finalizer_path)))"
    "cluster_step (stage w is csvs subs plans (Some (ref_put c (JArray []) finalizer_path)))
      (stage w is csvs subs plans None)"
proof -
  let ?c = "ref_put c (JArray []) finalizer_path"
  have "settable c finalizer_path"
    by (rule finalizers_settable) (use assms in \<open>simp add: waiting_config_def\<close>)
  then have "ref_finalizers ?c = []" by (simp add: ref_finalizers_def ref_put_get)
  moreover have "at_path ?c [''metadata'', ''deletionTimestamp''] = at_path c [''metadata'', ''deletionTimestamp'']"
    using paths_apart(3) by (simp add: ref_put_other apart_def del: at_path.simps)
  ultimately have r: "config_removable ?c"
    using assms by (simp add: config_removable_def waiting_config_def del: at_path.simps)
  show "cluster_step (stage w is csvs subs plans (Some c)) (stage w is csvs subs plans (Some ?c))"
    using touched [OF _ paths_apart(1), of "stage w is csvs subs plans (Some c)" c "JArray []"] by simp
  show "cluster_step (stage w is csvs subs plans (Some ?c)) (stage w is csvs subs plans None)"
    using config_removed [OF _ r, of "stage w is csvs subs plans (Some ?c)"] by simp
qed

section \<open>The deletion as a whole\<close>

text \<open>
  C38: a deletion that has to wait for somebody else's finalizer on the \<^verbatim>\<open>OLSConfig\<close> fails in the
  meantime. For any instance there is a history from the empty cluster in which it becomes ready,
  is deleted, and the first run for the deletion asks to be run again in ten seconds and leaves the
  \<^verbatim>\<open>OLSConfig\<close> with the other finalizer only; from there on, as long as nobody else does anything,
  every run for the instance returns the error that the finalizer could not be removed, and
  however many of them there are, once the others have removed their finalizer one run completes
  the deletion.
\<close>

theorem slow_removal:
  assumes "GetRecommendedOLSVersion (ref_deps vars) = GoOk v" and "fresh_instance inst" and "f \<noteq> ref_finalizer"
  shows "\<exists>tr w1 c.
     history (ref_deps vars) dflt cluster_step (stage w [] [] [] [] None) tr w1 \<and>
     run_results tr = map GoOk [empty_Result, requeue_install, requeue_install, requeue_config, empty_Result, requeue_removal] \<and>
     c_config w1 = Some c \<and> waiting_config inst f c \<and>
     (\<forall>tr2 w2. history (ref_deps vars) dflt (\<lambda>_ _. False) w1 tr2 w2 \<longrightarrow>
        (\<forall>s r t. Ran (instance_key inst) s r t \<in> set tr2 \<longrightarrow> r = GoErr finalizer_error) \<and>
        (\<exists>tr'. history (ref_deps vars) dflt cluster_step w2 tr' (stage w [] [] [] [] None) \<and>
           run_results tr' = [GoOk empty_Result]))"
proof -
  let ?D = "ref_deps vars"
  let ?subs = "[own_subscription v inst (Some ''install'')]"
  let ?csvs = "[own_csv v inst (instanceOwnerReference inst)]" and ?plans = "[own_plan v inst True]"
  have uid: "osl_UID inst \<noteq> []" and one: "(1::int) \<noteq> 0" using assms(2) by (auto simp: fresh_instance_def)
  obtain i c where l0: "life vars dflt (stage w [] [] [] [] None) (map GoOk installing_results) (running v inst i c w)"
    and m: "managed inst i" and o: "own_config inst c"
    using reaches_running [OF assms(1,2)] unfolding ready_own_config_def by metis
  have s1: "cluster_step (running v inst i c w) (stage w [i] ?csvs ?subs ?plans (Some (with_finalizer f c)))"
    unfolding with_finalizer_def
    using touched [OF _ paths_apart(1), of "running v inst i c w" c] by (simp add: running_def)
  obtain j t c' where r: "Reconcile ?D dflt (instance_key inst)
      \<lparr>world = stage w [mark_deleted 1 i] ?csvs ?subs ?plans (Some (with_finalizer f c)), calls = []\<rparr> =
      (GoOk requeue_removal, t)" and t: "world t = stage w [j] ?csvs ?subs ?plans (Some c')"
    and j: "leaving 1 inst j" and c': "waiting_config inst f c'"
    by (rule first_attempt [OF managed_leaving [OF m assms(2)] one uid o assms(3)])
  note l = life_run [OF life_step [OF life_step [OF l0 s1] deletion_step [OF m one]] r, unfolded t]
  have after: "(\<forall>s r t. Ran (instance_key inst) s r t \<in> set tr2 \<longrightarrow> r = GoErr finalizer_error) \<and>
      life vars dflt w2 [GoOk empty_Result] (stage w [] [] [] [] None)"
    if h: "history ?D dflt (\<lambda>_ _. False) (stage w [j] ?csvs ?subs ?plans (Some c')) tr2 w2" for tr2 w2
  proof -
    from stuck [OF uid one c' assms(3) h j] obtain k where k: "leaving 1 inst k"
      "w2 = stage w [k] ?csvs ?subs ?plans (Some c')"
      and e: "\<forall>s r t. Ran (instance_key inst) s r t \<in> set tr2 \<longrightarrow> r = GoErr finalizer_error" by blast
    obtain i' u where u: "Reconcile ?D dflt (instance_key inst) \<lparr>world = stage w [k] ?csvs ?subs ?plans None, calls = []\<rparr> =
        (GoOk empty_Result, u)" "world u = stage w [i'] [] ?subs [] None" "removable i'"
      by (rule gone_run [OF assms(1) k(1) one])
    note g = life_step [OF life_step [OF life_begun config_goes(1) [OF c']] config_goes(2) [OF c']]
    note g2 = life_run [OF g u(1), unfolded u(2)]
    from life_step [OF life_step [OF g2 left_over_steps(1) [OF u(3)]] left_over_steps(2) [OF u(3)]] e k(2)
    show ?thesis by simp
  qed
  from l obtain tr where tr: "history ?D dflt cluster_step (stage w [] [] [] [] None) tr
      (stage w [j] ?csvs ?subs ?plans (Some c'))"
    "run_results tr = map GoOk installing_results @ [GoOk requeue_removal]" by (elim exE conjE)
  show ?thesis
    by (rule exI [of _ tr], rule exI [of _ "stage w [j] ?csvs ?subs ?plans (Some c')"], rule exI [of _ c'])
      (use tr c' after in simp)
qed

theorem slow_removal_witness:
  "\<exists>tr w1. history (ref_deps sample_env) sample_defaults cluster_step empty_cluster tr w1 \<and>
     length (run_results tr) = 6 \<and> last (run_results tr) = GoOk requeue_removal \<and>
     fst (Reconcile (ref_deps sample_env) sample_defaults sample_request \<lparr>world = w1, calls = []\<rparr>) = GoErr finalizer_error"
proof -
  let ?D = "ref_deps sample_env"
  have fr: "fresh_instance sample_instance"
    by (simp add: fresh_instance_def) (simp add: sample_instance_def)
  have e: "stage empty_cluster [] [] [] [] None = empty_cluster"
    by (simp add: stage_def empty_cluster_def)
  have k: "instance_key sample_instance = sample_request"
    by (simp add: instance_key_def sample_request_def)
  have f: "''ols-finalizer'' \<noteq> ref_finalizer" by (simp add: ref_finalizer_def)
  from slow_removal [OF sample_version fr f, of sample_defaults empty_cluster, unfolded e k]
  obtain tr w1 where h: "history ?D sample_defaults cluster_step empty_cluster tr w1"
    and r: "run_results tr = map GoOk [empty_Result, requeue_install, requeue_install, requeue_config, empty_Result, requeue_removal]"
    and stuck: "\<And>tr2 w2 s r t. history ?D sample_defaults (\<lambda>_ _. False) w1 tr2 w2 \<Longrightarrow>
      Ran sample_request s r t \<in> set tr2 \<Longrightarrow> r = GoErr finalizer_error" by blast
  obtain x t where x: "Reconcile ?D sample_defaults sample_request \<lparr>world = w1, calls = []\<rparr> = (x, t)"
    by (cases "Reconcile ?D sample_defaults sample_request \<lparr>world = w1, calls = []\<rparr>")
  from stuck [OF ran [OF begun x]] have "x = GoErr finalizer_error" by simp
  with h r x show ?thesis by (intro exI [of _ tr] exI [of _ w1]) simp
qed

end
