(* ===== verification/Neighbours.thy ===== *)
theory Neighbours
  imports Slow_Removal
begin

text \<open>
  Two instances in one cluster: the second one is refused and changes nothing of the first one's
  installation, until it is deleted. Its deletion marks the \<^verbatim>\<open>OLSConfig\<close> of the first one as
  being deleted and never ends.
\<close>

section \<open>Two instances and one installation\<close>

definition neighbours :: "OpenStackLightspeed \<Rightarrow> OpenStackLightspeed \<Rightarrow> bool" where
  "neighbours a b \<longleftrightarrow> fresh_instance a \<and> fresh_instance b \<and> instance_key a \<noteq> instance_key b \<and>
     osl_UID a \<noteq> osl_UID b"

text \<open>Everything in place for the first instance, and a second instance.\<close>

definition shared ::
  "string \<Rightarrow> OpenStackLightspeed \<Rightarrow> OpenStackLightspeed \<Rightarrow> OpenStackLightspeed \<Rightarrow> object \<Rightarrow> cluster \<Rightarrow> cluster" where
  "shared v a i j c w = stage w [i, j] [own_csv v a (instanceOwnerReference a)]
     [own_subscription v a (Some ''install'')] [own_plan v a True] (Some c)"

lemma running_with: "(running v a i c w)\<lparr>c_instances := [i, j]\<rparr> = shared v a i j c w"
  by (simp add: running_def shared_def)

lemma managed_key: "managed inst i \<Longrightarrow> instance_key i = instance_key inst"
  by (simp add: managed_def instance_key_def)

lemma leaving_key: "leaving n inst j \<Longrightarrow> instance_key j = instance_key inst"
  by (simp add: leaving_def instance_key_def)

lemma alone_neighbour:
  assumes "neighbours a b"
  shows "instance_key j = instance_key b \<Longrightarrow> alone a ([] @ [j])"
    "instance_key i = instance_key a \<Longrightarrow> alone b ([i] @ [])"
  using assms by (auto simp: alone_def neighbours_def)

section \<open>Runs for the two instances\<close>

lemma not_owned_by_neighbour:
  assumes "osl_UID a \<noteq> osl_UID b"
  shows "\<not> IsOwnedBy (csv_Meta (own_csv v a (instanceOwnerReference a))) (osl_Meta b)"
    "\<not> IsOwnedBy (sub_Meta (own_subscription v a ref)) (osl_Meta b)"
  using assms by (simp_all add: IsOwnedBy_iff own_csv_def own_subscription_def instanceOwnerReference_def)

text \<open>
  For the second instance the installation is somebody else's: neither the operator nor a
  subscription under its own key is its own.
\<close>

lemma neighbour_refused:
  assumes "neighbours a b"
  shows "\<exists>more. EnsureOLSOperatorInstalled (ref_deps vars) b \<lparr>world = shared v a i j c w, calls = cs\<rparr> =
    (GoErr user_installed_error, \<lparr>world = shared v a i j c w, calls = cs @ more\<rparr>)"
proof -
  let ?key = "\<lparr>nn_Namespace = osl_Namespace b, nn_Name = subscription_name b\<rparr>"
  let ?cs = "cs @ [GetConfig, NewClient, ListCSVs []]"
  let ?csv = "own_csv v a (instanceOwnerReference a)"
  have uid: "osl_UID a \<noteq> osl_UID b" and fr: "fresh_instance b"
    using assms by (simp_all add: neighbours_def)
  have found: "GetOLSOperatorCSV (ref_deps vars) \<lparr>world = shared v a i j c w, calls = cs\<rparr> =
      (GoOk (Some ?csv), \<lparr>world = shared v a i j c w, calls = ?cs\<rparr>)"
    by (simp add: ref_GetOLSOperatorCSV shared_def)
  have "\<exists>x. get_subscription (cli (ref_deps vars)) ?key (shared v a i j c w) = (x, shared v a i j c w) \<and>
      (case x of Inl e \<Rightarrow> IsNotFound (ref_deps vars) e | Inr sub \<Rightarrow> \<not> IsOwnedBy (sub_Meta sub) (osl_Meta b))"
    using not_owned_by_neighbour(2) [OF uid, of v "Some ''install''"]
    by (cases "meta_Name (sub_Meta (own_subscription v a (Some ''install''))) = subscription_name b \<and>
          meta_Namespace (sub_Meta (own_subscription v a (Some ''install''))) = osl_Namespace b")
      (simp_all add: ref_client_def shared_def client_contract.not_found ref_NotFound_def ref_deps_def)
  then obtain x where x: "get_subscription (cli (ref_deps vars)) ?key (shared v a i j c w) = (x, shared v a i j c w)"
    and nx: "case x of Inl e \<Rightarrow> IsNotFound (ref_deps vars) e | Inr sub \<Rightarrow> \<not> IsOwnedBy (sub_Meta sub) (osl_Meta b)"
    by blast
  from user_installed_True [OF found not_owned_by_neighbour(1) [OF uid] fresh_name [OF fr] _ nx] x
  have "IsUserInstalledOLSOperatorMode (ref_deps vars) b \<lparr>world = shared v a i j c w, calls = cs\<rparr> =
      (GoOk True, \<lparr>world = shared v a i j c w, calls = cs @ [GetConfig, NewClient, ListCSVs [], GetSubscription ?key]\<rparr>)"
    by simp
  then show ?thesis by (simp add: EnsureOLSOperatorInstalled_def)
qed

lemma refused_run:
  assumes nb: "neighbours a b" and i: "instance_key i = instance_key a" and m: "managed b j"
  obtains j' t where "Reconcile (ref_deps vars) dflt (instance_key b)
      \<lparr>world = shared v a i j c w, calls = []\<rparr> = (GoOk empty_Result, t)"
    "world t = shared v a i j' c w" "managed b j'" "\<not> IsReady (IsTrue ref_cond) j'"
proof -
  let ?D = "ref_deps vars"
  have fr: "fresh_instance b" using nb by (simp add: neighbours_def)
  have step: "\<exists>i3 s3 cfg'. reconcile_install ?D j i2 s2 = (GoOk ((empty_Result, None), i3), s3) \<and>
      world s3 = shared v a i j c w \<and> cfg' = Some c \<and>
      \<not> IsTrue ref_cond (osl_Conditions i3) OpenStackLightspeedReadyCondition"
    if m2: "managed b i2" and nr: "\<not> IsTrue ref_cond (osl_Conditions i2) OpenStackLightspeedReadyCondition"
      and s2: "world s2 = shared v a i j c w" for i2 and s2 :: "cluster state"
  proof -
    obtain cs where "s2 = \<lparr>world = shared v a i j c w, calls = cs\<rparr>" using sys_eta [of s2] s2 by auto
    with neighbour_refused [OF nb] obtain s3 where e: "EnsureOLSOperatorInstalled ?D i2 s2 = (GoErr user_installed_error, s3)"
      "world s3 = shared v a i j c w"
      unfolding managed_ensure [OF m2] by (metis sys.select_convs(1))
    then obtain i3 where i3: "reconcile_install ?D j i2 s2 = (GoOk ((empty_Result, None), i3), s3)"
      by (simp add: reconcile_install_def onErr_run Let_def)
    have "\<not> IsTrue ref_cond (osl_Conditions i3) OpenStackLightspeedReadyCondition"
      using install_ready [of ?D, OF _ i3] e(1) nr by auto
    with i3 e(2) show ?thesis by blast
  qed
  obtain j' i3 t cfg' where r: "Reconcile ?D dflt (instance_key b)
       \<lparr>world = stage w ([i] @ j # []) [own_csv v a (instanceOwnerReference a)]
          [own_subscription v a (Some ''install'')] [own_plan v a True] (Some c), calls = []\<rparr> = (GoOk empty_Result, t)"
    "world t = stage w ([i] @ j' # []) [own_csv v a (instanceOwnerReference a)]
          [own_subscription v a (Some ''install'')] [own_plan v a True] cfg'"
    "managed b j'" "j' = patched ?D j i3"
    "cfg' = Some c \<and> \<not> IsTrue ref_cond (osl_Conditions i3) OpenStackLightspeedReadyCondition"
    by (rule managed_run [OF m fr alone_neighbour(2) [OF nb i],
          where Q = "\<lambda>cfg' i3. cfg' = Some c \<and> \<not> IsTrue ref_cond (osl_Conditions i3) OpenStackLightspeedReadyCondition"])
      (use step in \<open>fastforce simp: shared_def\<close>)
  have "\<not> IsReady (IsTrue ref_cond) j'"
    using r(5) conditions_contract.ready_is_top(1) [OF ref_conditions.conditions_contract_axioms]
    by (simp add: r(4) IsReady_def patched_def ref_conditions.is_true_overall)
  with r that show thesis by (simp add: shared_def)
qed

text \<open>A run for the first instance finds everything in place.\<close>

lemma owner_run:
  assumes v: "GetRecommendedOLSVersion (ref_deps vars) = GoOk v" and nb: "neighbours a b"
    and m: "managed a i" and j: "instance_key j = instance_key b" and c: "ready_own_config a c"
  obtains i' t c' where "Reconcile (ref_deps vars) dflt (instance_key a)
      \<lparr>world = shared v a i j c w, calls = []\<rparr> = (GoOk empty_Result, t)"
    "world t = shared v a i' j c' w" "managed a i'" "IsReady (IsTrue ref_cond) i'"
    "ready_own_config a c'" "config_deleted c' \<longleftrightarrow> config_deleted c"
proof -
  have fr: "fresh_instance a" using nb by (simp add: neighbours_def)
  have o: "own_config a c" "at_path c [''status'', ''overallStatus''] = Some (JString ''Ready'')"
    using c by (simp_all add: ready_own_config_def del: at_path.simps)
  obtain i' t c' where r: "Reconcile (ref_deps vars) dflt (instance_key a)
      \<lparr>world = stage w ([] @ i # [j]) [own_csv v a (instanceOwnerReference a)] [own_subscription v a (Some ''install'')]
         [own_plan v a True] (Some c), calls = []\<rparr> = (GoOk empty_Result, t)"
    "world t = stage w ([] @ i' # [j]) [own_csv v a (instanceOwnerReference a)] [own_subscription v a (Some ''install'')]
      [own_plan v a True] (Some c')"
    "managed a i'" "own_config a c'" "IsReady (IsTrue ref_cond) i'"
    "\<forall>q. kept_path q \<longrightarrow> at_path c' q = at_path c q"
    by (rule ready_run [OF v fr m alone_neighbour(1) [OF nb j] o])
  note kept = r(6) [rule_format, OF kept_path_simps(1)] r(6) [rule_format, OF kept_path_simps(2)]
  have "ready_own_config a c'" "config_deleted c' \<longleftrightarrow> config_deleted c"
    using r(4) o(2) by (simp_all add: ready_own_config_def config_deleted_def kept del: at_path.simps)
  with r(1-3,5) that show thesis by (simp add: shared_def)
qed

section \<open>The removal of somebody else's OLSConfig\<close>

text \<open>
  The mutate function leaves an \<^verbatim>\<open>OLSConfig\<close> of another instance alone, the deletion after it
  does not: the finalizer keeps the object, marked as being deleted.
\<close>

lemma ready_config_parts:
  assumes "ready_own_config a c"
  shows "own_config a c" "owned_config_of a c" "ref_finalizers c \<noteq> []"
proof -
  show o: "own_config a c" using assms unfolding ready_own_config_def by (rule conjunct1)
  show "owned_config_of a c" using o by (simp add: own_config_def owned_config_of_def)
  have "set (ref_finalizers c) = {ref_finalizer}" using o by (simp add: own_config_def)
  then show "ref_finalizers c \<noteq> []" by (metis empty_set insert_not_empty)
qed

lemma marked_own_config:
  assumes "ready_own_config a c"
  shows "ready_own_config a (marked_config c)" "config_deleted (marked_config c)"
proof -
  let ?p = "[''metadata'', ''deletionTimestamp'']"
  note o = ready_config_parts(1) [OF assms] and f = ready_config_parts(3) [OF assms]
  have s: "settable c ?p"
    using finalizers_settable [OF f] by (simp add: finalizer_path_def split: option.splits json.splits)
  have "list_all (\<lambda>f. apart ?p (fst f)) (desired_fields a)"
    by (simp add: desired_fields_def Let_def apart_def)
  from own_config_put [OF o s paths_apart(2,3) this] have "own_config a (marked_config c)"
    unfolding marked_config_def .
  moreover have "at_path (marked_config c) [''status'', ''overallStatus''] = at_path c [''status'', ''overallStatus'']"
    unfolding marked_config_def by (rule ref_put_other) simp_all
  ultimately show "ready_own_config a (marked_config c)"
    using assms by (simp add: ready_own_config_def del: at_path.simps)
  show "config_deleted (marked_config c)"
    unfolding config_deleted_def by (rule marked_has_timestamp [OF f])
qed

lemma remove_foreign:
  assumes c: "ready_own_config a c" and u: "osl_UID i1 \<noteq> osl_UID a"
  shows "\<exists>more. RemoveOLSConfig (ref_deps vars) h i1 \<lparr>world = stage w is csvs subs plans (Some c), calls = cs\<rparr> =
    (GoOk False, \<lparr>world = stage w is csvs subs plans (Some (marked_config c)), calls = cs @ more\<rparr>)"
proof -
  note o = ready_config_parts(2) [OF c] and f = ready_config_parts(3) [OF c]
  have "RemoveOLSConfig_mutate (ref_deps vars) h i1 c = GoOk c"
    using owned_labels [OF o] u by (simp add: RemoveOLSConfig_mutate_def)
  then have "RemoveOLSConfig (ref_deps vars) h i1 \<lparr>world = stage w is csvs subs plans (Some c), calls = cs\<rparr> =
      (GoOk False, \<lparr>world = stage w is csvs subs plans (Some (marked_config c)),
        calls = cs @ [ListOLSConfigs, CreateOrPatchOLSConfig c, DeleteOLSConfig c, ListOLSConfigs]\<rparr>)"
    using f by (simp add: RemoveOLSConfig_def GetOLSConfig_def onErr_run andThen_run perform_def ref_client_def
        ref_create_or_patch_olsconfig_def ref_delete_olsconfig_def marked_config_def)
  then show ?thesis by blast
qed

lemma dooming_run:
  assumes nb: "neighbours a b" and i: "instance_key i = instance_key a" and l: "leaving n b j" and n: "n \<noteq> 0"
    and c: "ready_own_config a c"
  obtains j' t where "Reconcile (ref_deps vars) dflt (instance_key b)
      \<lparr>world = shared v a i j c w, calls = []\<rparr> = (GoOk requeue_removal, t)"
    "world t = shared v a i j' (marked_config c) w" "leaving n b j'"
proof -
  let ?D = "ref_deps vars"
  let ?w = "\<lambda>j c. stage w ([i] @ j # []) [own_csv v a (instanceOwnerReference a)]
      [own_subscription v a (Some ''install'')] [own_plan v a True] (Some c)"
  have del: "\<exists>i2 cs'. osl_Meta i2 = (osl_Meta j)\<lparr>meta_Finalizers := [ref_finalizer]\<rparr> \<and>
      reconcileDelete ?D j i1 \<lparr>world = ?w j c, calls = cs\<rparr> =
      (GoOk ((requeue_removal, None), i2), \<lparr>world = ?w j (marked_config c), calls = cs'\<rparr>)"
    if i1: "osl_Meta i1 = osl_Meta j" for i1 cs
  proof -
    have "osl_UID i1 \<noteq> osl_UID a" using i1 l nb by (auto simp: leaving_def neighbours_def)
    from remove_foreign [OF c this] obtain more where "RemoveOLSConfig ?D j i1 \<lparr>world = ?w j c, calls = cs\<rparr> =
        (GoOk False, \<lparr>world = ?w j (marked_config c), calls = cs @ more\<rparr>)" by blast
    with leaving_same [OF l i1] show ?thesis by (simp add: reconcileDelete_def onErr_run requeue_removal_def)
  qed
  obtain j' t where "Reconcile ?D dflt (instance_key b) \<lparr>world = ?w j c, calls = []\<rparr> = (result_of (requeue_removal, None), t)"
    "world t = ?w j' (marked_config c)" "osl_Meta j' = (osl_Meta j)\<lparr>meta_Finalizers := [ref_finalizer]\<rparr>"
    using l n alone_neighbour(2) [OF nb i] del by (rule leaving_run)
  with that [of t j'] leaving_again [OF l] show thesis by (simp add: result_of_def shared_def)
qed

section \<open>The two situations, and the runs in them\<close>

text \<open>
  Side by side: the first instance is ready, the second is not, and the \<^verbatim>\<open>OLSConfig\<close> is the first
  one's. Doomed: the second is being deleted, and the \<^verbatim>\<open>OLSConfig\<close> of the first one with it.
\<close>

definition side_by_side ::
  "string \<Rightarrow> OpenStackLightspeed \<Rightarrow> OpenStackLightspeed \<Rightarrow> cluster \<Rightarrow> cluster \<Rightarrow> bool" where
  "side_by_side v a b w w' \<longleftrightarrow> (\<exists>i j c. w' = shared v a i j c w \<and> managed a i \<and> IsReady (IsTrue ref_cond) i \<and>
     managed b j \<and> \<not> IsReady (IsTrue ref_cond) j \<and> ready_own_config a c \<and> \<not> config_deleted c)"

definition doomed ::
  "string \<Rightarrow> OpenStackLightspeed \<Rightarrow> OpenStackLightspeed \<Rightarrow> cluster \<Rightarrow> cluster \<Rightarrow> bool" where
  "doomed v a b w w' \<longleftrightarrow> (\<exists>i j c. w' = shared v a i j c w \<and> managed a i \<and> IsReady (IsTrue ref_cond) i \<and>
     leaving 1 b j \<and> ready_own_config a c \<and> config_deleted c)"

text \<open>A run is for one of them or for nobody.\<close>

lemma shared_run_cases:
  assumes "Reconcile (ref_deps vars) dflt req \<lparr>world = shared v a i j c w, calls = []\<rparr> = (r, t)"
    and "instance_key i = instance_key a" and "instance_key j = instance_key b"
  obtains "req = instance_key a" | "req = instance_key b"
    | "req \<noteq> instance_key a" "req \<noteq> instance_key b" "r = GoOk empty_Result" "world t = shared v a i j c w"
proof (cases "req = instance_key a \<or> req = instance_key b")
  case False
  with assms(2,3) have "stored_instance (shared v a i j c w) req = None"
    by (auto simp: stored_instance_def shared_def)
  from nobody_run [OF this assms(1)] False that(3) show thesis by blast
qed (use that(1,2) in blast)

lemma side_by_side_run:
  assumes v: "GetRecommendedOLSVersion (ref_deps vars) = GoOk v" and nb: "neighbours a b"
    and "side_by_side v a b w w'" and r: "Reconcile (ref_deps vars) dflt req \<lparr>world = w', calls = []\<rparr> = (r, t)"
  shows "side_by_side v a b w (world t) \<and> r = GoOk empty_Result"
proof -
  obtain i j c where w': "w' = shared v a i j c w" and i: "managed a i" "IsReady (IsTrue ref_cond) i"
    and j: "managed b j" "\<not> IsReady (IsTrue ref_cond) j" and c: "ready_own_config a c" "\<not> config_deleted c"
    using assms(3) by (auto simp: side_by_side_def)
  note keys = managed_key [OF i(1)] managed_key [OF j(1)]
  from r [unfolded w'] keys show ?thesis
  proof (rule shared_run_cases)
    assume req: "req = instance_key a"
    obtain i' u c' where "Reconcile (ref_deps vars) dflt (instance_key a) \<lparr>world = shared v a i j c w, calls = []\<rparr> =
        (GoOk empty_Result, u)" "world u = shared v a i' j c' w" "managed a i'" "IsReady (IsTrue ref_cond) i'"
      "ready_own_config a c'" "config_deleted c' \<longleftrightarrow> config_deleted c"
      by (rule owner_run [OF v nb i(1) keys(2) c(1)])
    with r w' req j c(2) show ?thesis unfolding side_by_side_def by auto
  next
    assume req: "req = instance_key b"
    obtain j' u where "Reconcile (ref_deps vars) dflt (instance_key b) \<lparr>world = shared v a i j c w, calls = []\<rparr> =
        (GoOk empty_Result, u)" "world u = shared v a i j' c w" "managed b j'" "\<not> IsReady (IsTrue ref_cond) j'"
      by (rule refused_run [OF nb keys(1) j(1)])
    with r w' req i c show ?thesis unfolding side_by_side_def by auto
  next
    assume "r = GoOk empty_Result" "world t = shared v a i j c w"
    with i j c show ?thesis unfolding side_by_side_def by auto
  qed
qed

lemma doomed_run:
  assumes v: "GetRecommendedOLSVersion (ref_deps vars) = GoOk v" and nb: "neighbours a b"
    and "doomed v a b w w'" and r: "Reconcile (ref_deps vars) dflt req \<lparr>world = w', calls = []\<rparr> = (r, t)"
  shows "doomed v a b w (world t) \<and> r = GoOk (if req = instance_key b then requeue_removal else empty_Result)"
proof -
  obtain i j c where w': "w' = shared v a i j c w" and i: "managed a i" "IsReady (IsTrue ref_cond) i"
    and j: "leaving 1 b j" and c: "ready_own_config a c" "config_deleted c"
    using assms(3) by (auto simp: doomed_def)
  note keys = managed_key [OF i(1)] leaving_key [OF j]
  have ne: "instance_key a \<noteq> instance_key b" using nb by (simp add: neighbours_def)
  from r [unfolded w'] keys show ?thesis
  proof (rule shared_run_cases)
    assume req: "req = instance_key a"
    obtain i' u c' where "Reconcile (ref_deps vars) dflt (instance_key a) \<lparr>world = shared v a i j c w, calls = []\<rparr> =
        (GoOk empty_Result, u)" "world u = shared v a i' j c' w" "managed a i'" "IsReady (IsTrue ref_cond) i'"
      "ready_own_config a c'" "config_deleted c' \<longleftrightarrow> config_deleted c"
      by (rule owner_run [OF v nb i(1) keys(2) c(1)])
    with r w' req ne j c(2) show ?thesis unfolding doomed_def by auto
  next
    assume req: "req = instance_key b"
    obtain j' u where "Reconcile (ref_deps vars) dflt (instance_key b) \<lparr>world = shared v a i j c w, calls = []\<rparr> =
        (GoOk requeue_removal, u)" "world u = shared v a i j' (marked_config c) w" "leaving 1 b j'"
      by (rule dooming_run [OF nb keys(1) j one_neq_zero c(1)])
    with r w' req i marked_own_config [OF c(1)] show ?thesis unfolding doomed_def by auto
  next
    assume "req \<noteq> instance_key b" "r = GoOk empty_Result" "world t = shared v a i j c w"
    with i j c show ?thesis unfolding doomed_def by auto
  qed
qed

section \<open>How it comes to that\<close>

lemma reaches_side_by_side:
  assumes v: "GetRecommendedOLSVersion (ref_deps vars) = GoOk v" and nb: "neighbours a b"
  shows "\<exists>w1. life vars dflt (stage w [] [] [] [] None) (map GoOk (installing_results @ [empty_Result])) w1 \<and>
    side_by_side v a b w w1"
proof -
  have fr: "fresh_instance a" "fresh_instance b" using nb by (simp_all add: neighbours_def)
  obtain i c where l: "life vars dflt (stage w [] [] [] [] None) (map GoOk installing_results) (running v a i c w)"
    and i: "managed a i" and c: "ready_own_config a c" "\<not> config_deleted c" and ready: "IsReady (IsTrue ref_cond) i"
    by (rule reaches_running [OF v fr(1)])
  note key = managed_key [OF i]
  have "instance_key b \<notin> instance_key ` set (c_instances (running v a i c w))" "osl_UID b \<noteq> []"
    "meta_Finalizers (osl_Meta b) = []"
    using nb key by (auto simp: neighbours_def fresh_instance_def running_def)
  then have "cluster_step (running v a i c w) (shared v a i b c w)"
    using cluster_step.created [of b "running v a i c w"] by (simp add: running_with [symmetric] running_def)
  note l2 = life_step [OF l this]
  obtain j t where r: "Reconcile (ref_deps vars) dflt (instance_key b) \<lparr>world = shared v a i b c w, calls = []\<rparr> =
      (GoOk empty_Result, t)" "world t = shared v a i j c w" "managed b j" "\<not> IsReady (IsTrue ref_cond) j"
    using first_run [OF fr(2) alone_neighbour(2) [OF nb key], of vars dflt w
        "[own_csv v a (instanceOwnerReference a)]" "[own_subscription v a (Some ''install'')]" "[own_plan v a True]" "Some c"]
    unfolding shared_def append_Cons append_Nil by blast
  have "side_by_side v a b w (world t)"
    unfolding side_by_side_def r(2) using i ready r(3,4) c by blast
  with life_run [OF l2 r(1)] show ?thesis by auto
qed

text \<open>
  C7: one installation per cluster. Of any two instances with different keys and identifiers, the
  first can become ready and the second be created, and from there on, as long as only the operator
  runs, every run for either of them returns without an error or a requeue, the first stays ready,
  the second never becomes ready, and the operator, the subscription, the plan and the \<^verbatim>\<open>OLSConfig\<close>
  stay the first one's: a run for the second changes nothing but its own status.
\<close>

theorem second_instance_refused:
  assumes "GetRecommendedOLSVersion (ref_deps vars) = GoOk v" and "neighbours a b"
  shows "\<exists>tr w1. history (ref_deps vars) dflt cluster_step (stage w [] [] [] [] None) tr w1 \<and>
     side_by_side v a b w w1 \<and>
     (\<forall>tr2 w2. history (ref_deps vars) dflt (\<lambda>_ _. False) w1 tr2 w2 \<longrightarrow>
        side_by_side v a b w w2 \<and> (\<forall>k s r t. Ran k s r t \<in> set tr2 \<longrightarrow> r = GoOk empty_Result))"
proof -
  obtain tr w1 where h: "history (ref_deps vars) dflt cluster_step (stage w [] [] [] [] None) tr w1"
    and s: "side_by_side v a b w w1"
    using reaches_side_by_side [OF assms, of dflt w] by blast
  have "side_by_side v a b w w2 \<and> (\<forall>k s r t. Ran k s r t \<in> set tr2 \<longrightarrow> r = GoOk empty_Result)"
    if "history (ref_deps vars) dflt (\<lambda>_ _. False) w1 tr2 w2" for tr2 w2
    by (rule runs_only [where Inv = "side_by_side v a b w", OF _ that s]) (rule side_by_side_run [OF assms])
  with h s show ?thesis by blast
qed

definition sample_neighbour :: OpenStackLightspeed where
  "sample_neighbour = sample_instance\<lparr>osl_Meta := (osl_Meta sample_instance)
     \<lparr>meta_Name := ''second'', meta_UID := ''fghij-2''\<rparr>\<rparr>"

lemma sample_neighbours: "neighbours sample_instance sample_neighbour"
proof -
  have "osl_UID sample_instance = ''abcde-1''" "meta_Name (osl_Meta sample_instance) = ''osl''"
    by (simp_all add: sample_instance_def)
  then show ?thesis
    by (simp add: neighbours_def fresh_instance_def instance_key_def sample_neighbour_def)
qed

lemma empty_stage: "stage empty_cluster [] [] [] [] None = empty_cluster"
  by (simp add: stage_def empty_cluster_def)

theorem second_instance_refused_witness:
  "\<exists>tr w1. history (ref_deps sample_env) sample_defaults cluster_step empty_cluster tr w1 \<and>
     c_csvs w1 \<noteq> [] \<and>
     fst (Reconcile (ref_deps sample_env) sample_defaults (instance_key sample_neighbour) \<lparr>world = w1, calls = []\<rparr>) =
       GoOk empty_Result"
proof -
  let ?D = "ref_deps sample_env" and ?k = "instance_key sample_neighbour"
  from second_instance_refused [OF sample_version sample_neighbours, of sample_defaults empty_cluster, unfolded empty_stage]
  obtain tr w1 where h: "history ?D sample_defaults cluster_step empty_cluster tr w1"
    and s: "side_by_side ''1.0.1'' sample_instance sample_neighbour empty_cluster w1"
    and runs: "\<And>tr2 w2 k s r t. history ?D sample_defaults (\<lambda>_ _. False) w1 tr2 w2 \<Longrightarrow>
      Ran k s r t \<in> set tr2 \<Longrightarrow> r = GoOk empty_Result" by blast
  obtain x t where x: "Reconcile ?D sample_defaults ?k \<lparr>world = w1, calls = []\<rparr> = (x, t)"
    by (cases "Reconcile ?D sample_defaults ?k \<lparr>world = w1, calls = []\<rparr>")
  from runs [OF ran [OF begun x]] have "x = GoOk empty_Result" by simp
  moreover have "c_csvs w1 \<noteq> []" using s by (auto simp: side_by_side_def shared_def)
  ultimately show ?thesis using h x by (intro exI [of _ tr] exI [of _ w1]) simp
qed

text \<open>
  C37: deleting the second instance takes the first one's \<^verbatim>\<open>OLSConfig\<close> with it, and never ends. From
  any cluster with the two instances side by side, the run after the request to delete the second
  one marks the \<^verbatim>\<open>OLSConfig\<close> of the first one as being deleted and asks to be run again in ten
  seconds; from there on, as long as only the operator runs, so does every run for the second
  instance, which is never released, and the first one keeps its finalizer on the \<^verbatim>\<open>OLSConfig\<close> that
  is being deleted and keeps reporting that it is ready.
\<close>

theorem deletion_dooms_neighbour:
  assumes "GetRecommendedOLSVersion (ref_deps vars) = GoOk v" and "neighbours a b" and "side_by_side v a b w w1"
    and "w2 = change_instance (instance_key b) (mark_deleted 1) w1"
    and "Reconcile (ref_deps vars) dflt (instance_key b) \<lparr>world = w2, calls = []\<rparr> = (r, t)"
  shows "cluster_step w1 w2 \<and> r = GoOk requeue_removal \<and> doomed v a b w (world t) \<and>
     (\<forall>tr w3. history (ref_deps vars) dflt (\<lambda>_ _. False) (world t) tr w3 \<longrightarrow> doomed v a b w w3 \<and>
        (\<forall>k s r t. Ran k s r t \<in> set tr \<longrightarrow> r = GoOk (if k = instance_key b then requeue_removal else empty_Result)))"
proof -
  obtain i j c where w1: "w1 = shared v a i j c w" and i: "managed a i" "IsReady (IsTrue ref_cond) i"
    and j: "managed b j" and c: "ready_own_config a c"
    using assms(3) by (auto simp: side_by_side_def)
  note keys = managed_key [OF i(1)] managed_key [OF j]
  have ne: "instance_key a \<noteq> instance_key b" and fr: "fresh_instance b"
    using assms(2) by (simp_all add: neighbours_def)
  have w2: "w2 = shared v a i (mark_deleted 1 j) c w"
    using keys ne by (simp add: assms(4) w1 change_instance_def shared_def)
  obtain j' u where run: "Reconcile (ref_deps vars) dflt (instance_key b)
      \<lparr>world = shared v a i (mark_deleted 1 j) c w, calls = []\<rparr> = (GoOk requeue_removal, u)"
    "world u = shared v a i j' (marked_config c) w" "leaving 1 b j'"
    by (rule dooming_run [OF assms(2) keys(1) managed_leaving [OF j fr] one_neq_zero c])
  with assms(5) w2 have r: "r = GoOk requeue_removal" "t = u" by simp_all
  have d: "doomed v a b w (world t)"
    unfolding doomed_def r(2) run(2) using i run(3) marked_own_config [OF c] by blast
  have "doomed v a b w w3 \<and>
      (\<forall>k s r t. Ran k s r t \<in> set tr \<longrightarrow> r = GoOk (if k = instance_key b then requeue_removal else empty_Result))"
    if "history (ref_deps vars) dflt (\<lambda>_ _. False) (world t) tr w3" for tr w3
    by (rule runs_only [where Inv = "doomed v a b w", OF _ that d]) (rule doomed_run [OF assms(1,2)])
  moreover have "cluster_step w1 w2" unfolding assms(4) by (rule cluster_step.deleted) simp
  ultimately show ?thesis using r(1) d by blast
qed

theorem deletion_dooms_neighbour_witness:
  "\<exists>tr w1. history (ref_deps sample_env) sample_defaults cluster_step empty_cluster tr w1 \<and>
     (\<exists>i. stored_instance w1 sample_request = Some i \<and> IsReady (IsTrue ref_cond) i \<and>
        meta_DeletionTimestamp (osl_Meta i) = None) \<and>
     (\<exists>c. c_config w1 = Some c \<and> ready_own_config sample_instance c \<and> config_deleted c)"
proof -
  let ?D = "ref_deps sample_env" and ?b = "sample_neighbour"
  obtain tr w1 where h: "history ?D sample_defaults cluster_step empty_cluster tr w1"
    and s: "side_by_side ''1.0.1'' sample_instance ?b empty_cluster w1"
    using reaches_side_by_side [OF sample_version sample_neighbours, of sample_defaults empty_cluster, unfolded empty_stage]
    by blast
  let ?w2 = "change_instance (instance_key ?b) (mark_deleted 1) w1"
  obtain x t where x: "Reconcile ?D sample_defaults (instance_key ?b) \<lparr>world = ?w2, calls = []\<rparr> = (x, t)"
    by (cases "Reconcile ?D sample_defaults (instance_key ?b) \<lparr>world = ?w2, calls = []\<rparr>")
  from deletion_dooms_neighbour [OF sample_version sample_neighbours s refl x]
  have step: "cluster_step w1 ?w2" and d: "doomed ''1.0.1'' sample_instance ?b empty_cluster (world t)" by blast+
  from ran [OF moved [OF h step] x] obtain tr' where
    h': "history ?D sample_defaults cluster_step empty_cluster tr' (world t)" by blast
  obtain i j c where i: "world t = shared ''1.0.1'' sample_instance i j c empty_cluster" "managed sample_instance i"
    "IsReady (IsTrue ref_cond) i" and c: "ready_own_config sample_instance c" "config_deleted c"
    using d by (auto simp: doomed_def)
  have "instance_key i = sample_request"
    using managed_key [OF i(2)] by (simp add: instance_key_def sample_request_def)
  then have "stored_instance (world t) sample_request = Some i"
    by (simp add: i(1) shared_def stored_instance_def)
  moreover have "meta_DeletionTimestamp (osl_Meta i) = None"
    using i(2) by (simp add: managed_def)
  moreover have "c_config (world t) = Some c" by (simp add: i(1) shared_def)
  ultimately show ?thesis using h' i(3) c by blast
qed

text \<open>The run for the second instance of the sample leaves the \<^verbatim>\<open>OLSConfig\<close> of the first as it is.\<close>

theorem one_owner_in_every_history_witness:
  "\<exists>tr w cfg t. history (ref_deps sample_env) sample_defaults cluster_step empty_cluster tr w \<and>
     c_config w = Some cfg \<and> owner_of cfg = osl_UID sample_instance \<and> created_by (osl_UID sample_instance) tr \<and>
     snd (Reconcile (ref_deps sample_env) sample_defaults (instance_key sample_neighbour) \<lparr>world = w, calls = []\<rparr>) = t \<and>
     c_config (world t) = Some cfg"
proof -
  let ?D = "ref_deps sample_env" and ?k = "instance_key sample_neighbour"
  obtain tr w where h: "history ?D sample_defaults cluster_step empty_cluster tr w"
    and s: "side_by_side ''1.0.1'' sample_instance sample_neighbour empty_cluster w"
    using reaches_side_by_side [OF sample_version sample_neighbours, of sample_defaults empty_cluster, unfolded empty_stage]
    by blast
  obtain i j c where w: "w = shared ''1.0.1'' sample_instance i j c empty_cluster" and i: "managed sample_instance i"
    and j: "managed sample_neighbour j" and c: "ready_own_config sample_instance c"
    using s by (auto simp: side_by_side_def)
  have cw: "c_config w = Some c" by (simp add: w shared_def)
  have own: "owner_of c = osl_UID sample_instance"
    using owned_labels [OF ready_config_parts(2) [OF c]] by (simp add: owner_of_def)
  have "list_all (\<lambda>i. osl_UID i \<noteq> []) (c_instances empty_cluster)" "c_config empty_cluster = None"
    by (simp_all add: empty_cluster_def)
  note owner = one_owner_in_every_history [OF h this cw, unfolded own]
  obtain r t where r: "Reconcile ?D sample_defaults ?k \<lparr>world = w, calls = []\<rparr> = (r, t)"
    by (cases "Reconcile ?D sample_defaults ?k \<lparr>world = w, calls = []\<rparr>")
  have t: "c_config (world t) \<noteq> None"
    using side_by_side_run [OF sample_version sample_neighbours s r] by (auto simp: side_by_side_def shared_def)
  let ?ev = "Ran ?k \<lparr>world = w, calls = []\<rparr> r t"
  have "history ?D sample_defaults (\<lambda>w w'. cluster_step w w' \<and> c_config w' \<noteq> None) w [?ev] (world t)"
    using ran [OF begun r] by simp
  with owner t have "minds_owner sample_env (osl_UID sample_instance) ?ev" by fastforce
  moreover have "stored_instance w ?k = Some j"
    using managed_key [OF i] managed_key [OF j] sample_neighbours
    by (simp add: w shared_def stored_instance_def neighbours_def)
  moreover have "osl_UID j \<noteq> osl_UID sample_instance" "meta_DeletionTimestamp (osl_Meta j) = None"
    using j sample_neighbours by (auto simp: managed_def neighbours_def fresh_instance_def)
  ultimately have "c_config (world t) = Some c" using cw by (simp add: minds_owner_def)
  with h cw own owner r show ?thesis by (metis snd_conv)
qed

end
