(* ===== verification/No_Panic.thy ===== *)
theory No_Panic
  imports Reconciler
begin

text \<open>
  A run does not panic. The only panic in reach is the slice of the identifier in the name of the
  subscription, and it needs an identifier of fewer than five characters. Nor do the closures
  that the program hands to the client: so it does not matter that a panic in a closure has no
  way through the client of the model.
\<close>

section \<open>Operations that do not panic\<close>

definition never_panics :: "('w, 'c, 'a) go \<Rightarrow> bool" where
  "never_panics m \<longleftrightarrow> (\<forall>s. \<not> is_panic (fst (m s)))"

named_theorems never_panics_intros \<open>operations that do not panic\<close>

lemma never_panics_pure [never_panics_intros]:
  "never_panics (ret x)" "never_panics (fail e)" "\<not> is_panic r \<Longrightarrow> never_panics (lift_res r)"
  by (simp_all add: never_panics_def)

lemma never_panics_perform [never_panics_intros]: "never_panics (perform c a)"
  by (simp add: never_panics_def perform_def split: prod.split sum.split)

lemma never_panics_onErr [never_panics_intros]:
  "never_panics m \<Longrightarrow> (\<And>e. never_panics (h e)) \<Longrightarrow> (\<And>x. never_panics (f x)) \<Longrightarrow> never_panics (onErr m h f)"
  unfolding never_panics_def by (auto simp: onErr_run split: prod.split gores.split) (metis fst_conv is_panic.simps(1))

lemma never_panics_andThen [never_panics_intros]:
  "never_panics m \<Longrightarrow> (\<And>x. never_panics (f x)) \<Longrightarrow> never_panics (andThen m f)"
  unfolding andThen_def by (intro never_panics_intros)

lemma never_panics_andThen_returns:
  assumes "never_panics m" and "returns Q m" and "\<And>x. Q x \<Longrightarrow> never_panics (f x)"
  shows "never_panics (andThen m f)"
  unfolding never_panics_def
proof
  fix s
  obtain r t where m: "m s = (r, t)" by (cases "m s")
  with assms(1) have "\<not> is_panic r" by (auto simp: never_panics_def dest: spec [of _ s])
  with m assms(2,3) show "\<not> is_panic (fst (andThen m f s))"
    by (cases r) (auto simp: andThen_run returns_def never_panics_def)
qed

lemma never_panics_cases [never_panics_intros]:
  "never_panics m \<Longrightarrow> never_panics n \<Longrightarrow> never_panics (if b then m else n)"
  "never_panics m \<Longrightarrow> (\<And>x. never_panics (f x)) \<Longrightarrow> never_panics (case opt of None \<Rightarrow> m | Some x \<Rightarrow> f x)"
  "(\<And>x y. never_panics (g x y)) \<Longrightarrow> never_panics (case p of (x, y) \<Rightarrow> g x y)"
  "never_panics m \<Longrightarrow> (\<And>x xs. never_panics (k x xs)) \<Longrightarrow> never_panics (case l of [] \<Rightarrow> m | x # xs \<Rightarrow> k x xs)"
  by (cases b, simp_all) (cases opt, simp_all, cases p, simp, cases l, simp_all)

lemma resThen_no_panic: "\<not> is_panic r \<Longrightarrow> (\<And>x. \<not> is_panic (f x)) \<Longrightarrow> \<not> is_panic (resThen r f)"
  by (cases r) simp_all

lemma no_panic_if: "\<not> is_panic r \<Longrightarrow> \<not> is_panic r' \<Longrightarrow> \<not> is_panic (if b then r else r')"
  by simp

section \<open>Fields\<close>

text \<open>
  The functions for nested fields copy the value they set, which panics for a value that is not
  JSON; the values of the program are.
\<close>

locale panic_free_fields =
  fixes U :: uns_lib
  assumes set_total: "\<not> is_panic (SetNestedField U obj v p)"
    and slice_total: "\<not> is_panic (SetNestedSlice U obj xs p)"
    and string_total: "\<not> is_panic (NestedString U obj p)"

interpretation ref_panic_free: panic_free_fields ref_uns
  by unfold_locales (simp_all add: ref_uns_def ref_set_def split: option.split json.split)

section \<open>The parts of a run\<close>

lemma version_no_panic: "\<not> is_panic (GetRecommendedOLSVersion D)"
  by (simp add: GetRecommendedOLSVersion_def Let_def)

lemma install_no_panic:
  "never_panics (GetRawClient D)" "never_panics (GetOLSOperatorCSV D)"
  "never_panics (GetOLSOperatorInstallPlan D i)" "never_panics (InstanceOwnedOLSOperatorComplete D i)"
  "never_panics (ApproveOLSOperatorInstallPlan D i)" "never_panics (DeleteOLSOperatorInstallPlan D i)"
proof -
  show raw: "never_panics (GetRawClient D)" unfolding GetRawClient_def by (intro never_panics_intros)
  show csv: "never_panics (GetOLSOperatorCSV D)"
    unfolding GetOLSOperatorCSV_def by (intro never_panics_intros raw)
  show plan: "never_panics (GetOLSOperatorInstallPlan D i)"
    unfolding GetOLSOperatorInstallPlan_def by (intro never_panics_intros version_no_panic)
  show "never_panics (InstanceOwnedOLSOperatorComplete D i)"
    unfolding InstanceOwnedOLSOperatorComplete_def by (intro never_panics_intros csv)
  show "never_panics (ApproveOLSOperatorInstallPlan D i)" "never_panics (DeleteOLSOperatorInstallPlan D i)"
    unfolding ApproveOLSOperatorInstallPlan_def DeleteOLSOperatorInstallPlan_def Let_def
    by (intro never_panics_intros plan)+
qed

lemma ensure_no_panic:
  assumes "5 \<le> length (osl_UID i)"
  shows "never_panics (EnsureOLSOperatorInstalled D i)"
proof -
  have "\<not> is_panic (GetOLSSubscriptionName i)" using assms by (simp add: subscription_name_cases)
  then show ?thesis
    unfolding EnsureOLSOperatorInstalled_def IsUserInstalledOLSOperatorMode_def
      InstallInstanceOwnedOLSOperator_def Let_def
    by (intro never_panics_intros install_no_panic)
qed

lemma uninstall_no_panic: "never_panics (UninstallInstanceOwnedOLSOperator D i)"
  unfolding UninstallInstanceOwnedOLSOperator_def by (intro never_panics_intros install_no_panic)

lemma GetOLSConfig_no_panic: "never_panics (GetOLSConfig D)"
  unfolding GetOLSConfig_def by (intro never_panics_intros)

lemma delete_no_panic: "never_panics (reconcileDelete D h i)"
  unfolding reconcileDelete_def RemoveOLSConfig_def
  by (intro never_panics_intros GetOLSConfig_no_panic uninstall_no_panic)

lemma subscription_mutate_no_panic: "\<not> is_panic (subscription_mutate D i sub)"
  using version_no_panic [of D]
  by (cases "GetRecommendedOLSVersion D") (simp_all add: subscription_mutate_def SetStartingCSV_def Let_def)

lemma RemoveOLSConfig_mutate_no_panic: "\<not> is_panic (RemoveOLSConfig_mutate D h i cfg)"
  by (simp add: RemoveOLSConfig_mutate_def Let_def split: prod.split)

context panic_free_fields
begin

lemma olsConfig_mutate_no_panic: "unsl D = U \<Longrightarrow> \<not> is_panic (olsConfig_mutate D h i cfg)"
  unfolding olsConfig_mutate_def PatchOLSConfig_def Let_def case_prod_beta
  by (intro no_panic_if resThen_no_panic) (simp_all add: set_total slice_total)

lemma resolve_no_panic: "unsl D = U \<Longrightarrow> never_panics (resolveOCPVersion D i)"
proof -
  assume U: "unsl D = U"
  have "\<not> is_panic (ParseMajorMinorVersion x)" for x by (simp add: ParseMajorMinorVersion_def Let_def)
  then have "never_panics (DetectOCPVersion D)"
    unfolding DetectOCPVersion_def using U
    by (intro never_panics_intros install_no_panic) (simp_all add: string_total)
  moreover have "\<not> is_panic (ResolveOCPVersion d v e)" for d v e by (simp add: ResolveOCPVersion_def)
  ultimately show ?thesis
    unfolding resolveOCPVersion_def Let_def by (intro never_panics_intros)
qed

lemma config_no_panic: "unsl D = U \<Longrightarrow> never_panics (reconcile_olsConfig D h i)"
  unfolding reconcile_olsConfig_def IsOLSConfigReady_def OLSConfigPing_def Let_def
  by (intro never_panics_intros GetOLSConfig_no_panic) (simp add: string_total)

lemma body_no_panic:
  assumes U: "unsl D = U" and "finalizers_contract D" and "5 \<le> length (osl_UID inst)"
  shows "never_panics (reconcile_body D dflt h inst)"
  unfolding reconcile_body_def
proof (rule never_panics_andThen_returns [OF resolve_no_panic [OF U] returns_resolveOCPVersion])
  fix x :: "string \<times> OpenStackLightspeed"
  assume "case x of (v, i) \<Rightarrow> ocp_outcome D (initialise_status D inst) v i"
  then have "osl_UID (snd x) = osl_UID inst" by (auto simp: ocp_outcome_frame split: prod.splits)
  then have "5 \<le> length (osl_UID (apply_defaults dflt (snd (AddFinalizer D (snd x) f))))" for f
    using assms(3) by (simp add: add_finalizer_frame [OF assms(2)])
  then have "never_panics (reconcile_install D h (apply_defaults dflt (snd (AddFinalizer D (snd x) f))))" for f
    unfolding reconcile_install_def Let_def
    by (intro never_panics_intros ensure_no_panic config_no_panic [OF U])
  then show "never_panics (case x of (_, inst) \<Rightarrow>
       if \<not> Time_IsZero D (meta_DeletionTimestamp (osl_Meta inst)) then reconcileDelete D h inst
       else (let (added, inst) = AddFinalizer D inst (GetFinalizer D h) in
          if added then ret ((empty_Result, None), inst)
          else reconcile_install D h (apply_defaults dflt inst)))"
    by (simp add: case_prod_beta Let_def never_panics_pure delete_no_panic)
qed

end

section \<open>The run\<close>

text \<open>
  C8: the operator does not crash. Whatever the cluster answers, a run does not panic if the
  identifier of the instance has at least five characters, as those that Kubernetes gives have;
  nor do the functions that the program passes to the client to be called there, for any
  instance and any object.
\<close>

theorem run_never_panics:
  assumes "panic_free_fields (unsl D)" and "finalizers_contract D"
    and "\<And>inst w. get_instance (cli D) req (world s) = (Inr inst, w) \<Longrightarrow> 5 \<le> length (osl_UID inst)"
  shows "\<not> is_panic (fst (Reconcile D dflt req s)) \<and>
    \<not> is_panic (olsConfig_mutate D h i cfg) \<and> \<not> is_panic (RemoveOLSConfig_mutate D h i cfg) \<and>
    \<not> is_panic (subscription_mutate D i sub)"
proof -
  note lib = panic_free_fields.body_no_panic [OF assms(1) refl assms(2)]
  obtain g w where g: "get_instance (cli D) req (world s) = (g, w)"
    by (cases "get_instance (cli D) req (world s)")
  have "\<not> is_panic (fst (Reconcile D dflt req s))"
  proof (cases g)
    case (Inl e)
    with g show ?thesis by (simp add: Reconcile_def onErr_run perform_def)
  next
    case (Inr inst)
    with g have found: "get_instance (cli D) req (world s) = (Inr inst, w)" by simp
    show ?thesis
    proof (cases "NewHelper D inst")
      case (Inl e)
      with found show ?thesis by (simp add: Reconcile_def onErr_run perform_def)
    next
      case (Inr helper)
      obtain r t where run: "Reconcile D dflt req s = (r, t)" by (cases "Reconcile D dflt req s")
      with found Inr show ?thesis
      proof (cases rule: Reconcile_cases)
        case (panicked p)
        with lib [OF assms(3) [OF found], of dflt helper] show ?thesis
          by (auto simp: never_panics_def dest: spec [of _ "after_get req w s"])
      next
        case (finished p inst' s')
        with run show ?thesis by (simp add: result_of_def split: option.split)
      qed
    qed
  qed
  then show ?thesis
    using panic_free_fields.olsConfig_mutate_no_panic [OF assms(1) refl]
    by (simp add: RemoveOLSConfig_mutate_no_panic subscription_mutate_no_panic)
qed

theorem run_never_panics_witness:
  "get_instance ref_client sample_request running_cluster = (Inr managed_instance, running_cluster) \<and>
   \<not> is_panic (fst (Reconcile (ref_deps sample_env) sample_defaults sample_request
      \<lparr>world = running_cluster, calls = []\<rparr>)) \<and>
   \<not> is_panic (olsConfig_mutate (ref_deps sample_env) sample_instance sample_instance (owned_config ''other'' []))"
proof -
  have "5 \<le> length (osl_UID managed_instance)" by (simp add: sample_instance_def)
  moreover have "panic_free_fields ref_uns" by (rule ref_panic_free.panic_free_fields_axioms)
  ultimately show ?thesis
    using run_never_panics [of "ref_deps sample_env" sample_request "\<lparr>world = running_cluster, calls = []\<rparr>"
        sample_defaults sample_instance sample_instance "owned_config ''other'' []"]
    by (simp add: sample_get)
qed

end
