(* ===== verification/Documentation.thy ===== *)
theory Documentation
  imports Reconciler
begin

text \<open>
  From the version of the cluster to the documentation that the \<^verbatim>\<open>OLSConfig\<close> offers: detection,
  resolution, status and patch put together.
\<close>

section \<open>The patch of the OLSConfig in a run\<close>

abbreviation patches_config :: "api_call \<Rightarrow> bool" where
  "patches_config c \<equiv> \<exists>cfg. c = CreateOrPatchOLSConfig cfg"

lemma no_config_patched:
  "emits (\<lambda>c. \<not> patches_config c) (resolveOCPVersion D inst)"
  "emits (\<lambda>c. \<not> patches_config c) (EnsureOLSOperatorInstalled D inst)"
  by (intro emits_intros; simp)+

lemma emits_nothing_new:
  assumes "emits (\<lambda>c. \<not> patches_config c) m" and "m s = (r, t)" and "CreateOrPatchOLSConfig cfg \<in> set (calls t)"
  shows "CreateOrPatchOLSConfig cfg \<in> set (calls s)"
proof -
  obtain new where "calls (snd (m s)) = calls s @ new" "list_all (\<lambda>c. \<not> patches_config c) new"
    using assms(1) by (rule emitsE)
  with assms(2,3) show ?thesis by (auto simp: list_all_iff)
qed

lemma emits_prefix: "emits A m \<Longrightarrow> m s = (r, t) \<Longrightarrow> prefix (calls s) (calls t)"
  by (metis emitsE prefixI snd_conv)

lemma olsConfig_call:
  assumes "reconcile_olsConfig D helper inst s = (r, t)" and "CreateOrPatchOLSConfig cfg \<in> set (calls t)"
    and "CreateOrPatchOLSConfig cfg \<notin> set (calls s)"
  obtains x s' where "cfg = new_olsConfig D" "patch_call D helper inst s = (x, s')"
    "t = (case x of GoOk _ \<Rightarrow> snd (IsOLSConfigReady D s') | _ \<Rightarrow> s')"
proof -
  have "emits (\<lambda>c. patches_config c \<longrightarrow> c = CreateOrPatchOLSConfig (new_olsConfig D)) (reconcile_olsConfig D helper inst)"
    unfolding reconcile_olsConfig_def Let_def by (intro emits_intros) simp_all
  then obtain new where "calls (snd (reconcile_olsConfig D helper inst s)) = calls s @ new"
    "list_all (\<lambda>c. patches_config c \<longrightarrow> c = CreateOrPatchOLSConfig (new_olsConfig D)) new" by (rule emitsE)
  with assms have cfg: "cfg = new_olsConfig D" by (auto simp: list_all_iff)
  obtain x s' where m: "patch_call D helper inst s = (x, s')" by (cases "patch_call D helper inst s")
  obtain b u where u: "IsOLSConfigReady D s' = (b, u)" by (cases "IsOLSConfigReady D s'")
  have "t = (case x of GoOk _ \<Rightarrow> snd (IsOLSConfigReady D s') | _ \<Rightarrow> s')"
    using assms(1) m u
    by (cases x; cases b) (auto simp: reconcile_olsConfig_def Let_def onErr_run split: if_splits)
  with cfg m that show thesis by blast
qed

lemma install_call:
  assumes "reconcile_install D helper inst s = (GoOk (p, inst'), t)" and "CreateOrPatchOLSConfig cfg \<in> set (calls t)"
    and "CreateOrPatchOLSConfig cfg \<notin> set (calls s)"
  obtains s1 x s' where "EnsureOLSOperatorInstalled D inst s = (GoOk True, s1)" "cfg = new_olsConfig D"
    "patch_call D helper (operator_marked D inst) s1 = (x, s')"
    "t = (case x of GoOk _ \<Rightarrow> snd (IsOLSConfigReady D s') | _ \<Rightarrow> s')"
proof -
  obtain b s1 where e: "EnsureOLSOperatorInstalled D inst s = (b, s1)"
    by (cases "EnsureOLSOperatorInstalled D inst s")
  from emits_nothing_new [OF no_config_patched(2) e] assms(3)
  have s1: "CreateOrPatchOLSConfig cfg \<notin> set (calls s1)" by blast
  then have b: "b = GoOk True"
    using e assms(1,2) by (cases b) (auto simp: reconcile_install_def Let_def onErr_run split: if_splits)
  with e assms(1) have "reconcile_olsConfig D helper (operator_marked D inst) s1 = (GoOk (p, inst'), t)"
    by (simp add: reconcile_install_def Let_def onErr_run operator_marked_def)
  from olsConfig_call [OF this assms(2) s1] that e b show thesis by blast
qed

section \<open>The documentation\<close>

text \<open>What a patch with an instance makes of the documentation that the \<^verbatim>\<open>OLSConfig\<close> offers.\<close>

lemma mutate_documentation:
  assumes "object_metadata (unsl D)" and "olsConfig_mutate D helper inst pre = GoOk post"
  shows "at_path post [''spec'', ''ols'', ''rag''] =
    Some (JArray (documented_sources (RAGImage (Spec inst)) (ActiveOCPRAGVersion (Status inst))))"
proof -
  have "PatchOLSConfig D helper inst pre = GoOk post"
    using assms(2) by (simp add: olsConfig_mutate_GoOk)
  then show ?thesis by (rule PatchOLSConfig_desired [OF assms(1)]) (simp add: desired_fields_def Let_def)
qed

text \<open>The version whose documentation a run offers, with the answer of the detection.\<close>

definition offered_version :: "OpenStackLightspeedSpec \<Rightarrow> string gores \<Rightarrow> string" where
  "offered_version sp detected =
     (if \<not> EnableOCPRAG sp then [] else case detected of GoOk d \<Rightarrow> version_for sp d | _ \<Rightarrow> [])"

lemma resolved_version:
  assumes "resolveOCPVersion D i s = (GoOk (v, i1), t)"
  shows "v = offered_version (Spec i) (fst (DetectOCPVersion D s))"
proof -
  obtain d u where d: "DetectOCPVersion D s = (d, u)" by (cases "DetectOCPVersion D s")
  have "ResolveOCPVersion x (OCPRAGVersionOverride (Spec i)) True =
      GoOk (version_for (Spec i) x, OCPRAGVersionOverride (Spec i) = [] \<and> \<not> IsSupportedOCPVersion x)" if "d = GoOk x" for x
    using DetectOCPVersion_GoOk [of D s x u] d that major_minor_nonempty [of x]
    by (auto simp: ResolveOCPVersion_def version_for_def)
  with assms d show ?thesis
    by (cases d) (auto simp: resolveOCPVersion_def Let_def onErr_run offered_version_def split: if_splits)
qed

text \<open>
  C33: which databases a cluster gets. With the documentation of OpenShift enabled and no version
  forced, the sources that the resolved instance asks for are the one for OpenStack and, if the
  detection gave a version, the one for 4.16, the one for 4.18 or the latest one, under the paths
  and index names that they have in the image.
\<close>

theorem databases_of_cluster:
  assumes "resolveOCPVersion D inst s = (GoOk (v, inst'), t)"
    and "EnableOCPRAG (Spec inst)" and "OCPRAGVersionOverride (Spec inst) = []"
  shows "BuildRAGConfigs inst' (ActiveOCPRAGVersion (Status inst')) =
     JObject [''image'' \<mapsto> JString (RAGImage (Spec inst)),
              ''indexPath'' \<mapsto> JString ''/rag/vector_db/os_product_docs''] #
     (case fst (DetectOCPVersion D s) of
        GoOk d \<Rightarrow>
          if d = ''4.16'' then [database_source (RAGImage (Spec inst)) ''/rag/ocp_vector_db/ocp_4.16'' ''ocp-product-docs-4_16'']
          else if d = ''4.18'' then [database_source (RAGImage (Spec inst)) ''/rag/ocp_vector_db/ocp_4.18'' ''ocp-product-docs-4_18'']
          else [database_source (RAGImage (Spec inst)) ''/rag/ocp_vector_db/ocp_latest'' ''ocp-product-docs-latest'']
      | _ \<Rightarrow> [])"
proof -
  have o: "ActiveOCPRAGVersion (Status inst') = v" "Spec inst' = Spec inst"
    using assms(1) returns_resolveOCPVersion [of D inst] by (fastforce simp: returns_def ocp_outcome_frame)+
  have "IsSupportedOCPVersion d \<longleftrightarrow> d = ''4.16'' \<or> d = ''4.18'' \<or> d = ''latest''" for d
    by (auto simp: IsSupportedOCPVersion_def SupportedOCPVersions_def const_defs)
  with resolved_version [OF assms(1)] assms(2,3) show ?thesis
    by (cases "fst (DetectOCPVersion D s)")
      (auto simp: BuildRAGConfigs_documented o offered_version_def version_for_def OCPVersionLatest_def)
qed

definition cluster_4_16 :: cluster where
  "cluster_4_16 = empty_cluster\<lparr>c_version := Some [''status'' \<mapsto> JObject
     [''desired'' \<mapsto> JObject [''version'' \<mapsto> JString ''4.16.22'']]]\<rparr>"

lemma detected_4_16:
  "DetectOCPVersion (ref_deps sample_env) \<lparr>world = cluster_4_16, calls = []\<rparr> =
     (GoOk ''4.16'', \<lparr>world = cluster_4_16, calls = [GetConfig, NewClient, GetClusterVersion ''version'']\<rparr>)"
proof -
  have "ParseMajorMinorVersion (''4.16'' @ ''.22'') = GoOk ''4.16''"
    using major_minorI [of "''4''" "''16''"] by (intro ParseMajorMinorVersion_append) (simp_all add: is_digit_def)
  then show ?thesis
    by (simp add: DetectOCPVersion_def onErr_run andThen_run ref_GetRawClient perform_def ref_client_def cluster_4_16_def)
qed

theorem databases_of_cluster_witness:
  "\<exists>v inst' t. resolveOCPVersion (ref_deps sample_env) (sample_instance\<lparr>Spec := sample_spec\<lparr>EnableOCPRAG := True\<rparr>\<rparr>)
       \<lparr>world = cluster_4_16, calls = []\<rparr> = (GoOk (v, inst'), t) \<and>
     BuildRAGConfigs inst' (ActiveOCPRAGVersion (Status inst')) ! 1 =
       database_source (RAGImage sample_spec) ''/rag/ocp_vector_db/ocp_4.16'' ''ocp-product-docs-4_16''"
proof -
  let ?i = "sample_instance\<lparr>Spec := sample_spec\<lparr>EnableOCPRAG := True\<rparr>\<rparr>"
  let ?s = "\<lparr>world = cluster_4_16, calls = []\<rparr>"
  obtain r t where r: "resolveOCPVersion (ref_deps sample_env) ?i ?s = (r, t)"
    by (cases "resolveOCPVersion (ref_deps sample_env) ?i ?s")
  have "\<exists>p. r = GoOk p"
    using r by (simp add: resolveOCPVersion_def Let_def onErr_run detected_4_16 ResolveOCPVersion_def sample_spec_def
        IsSupportedOCPVersion_def SupportedOCPVersions_def const_defs) blast
  then obtain v inst' where "r = GoOk (v, inst')" by auto
  with r have run: "resolveOCPVersion (ref_deps sample_env) ?i ?s = (GoOk (v, inst'), t)" by simp
  from databases_of_cluster [OF run] run show ?thesis by (simp add: detected_4_16 sample_spec_def)
qed

text \<open>
  C26: the \<^verbatim>\<open>OLSConfig\<close> offers the documentation that the status reports. Take any run that patches the
  \<^verbatim>\<open>OLSConfig\<close> for an instance that is not being deleted, and the instance it patches at its end. The
  active version in the status follows from the specification and the answer of the detection
  at the start of the run. The mutate function of the patch is the one for the instance that the
  resolution gave, with the defaults, in the state that the installation has left, and the run
  goes on from the answer of this patch to its end. Whatever \<^verbatim>\<open>OLSConfig\<close> the cluster holds, this
  function makes its list of documentation, if it succeeds, the one for the reported version and
  for the image of the patched instance, the default image when the specification has none.
\<close>

theorem documentation_as_reported:
  assumes "finalizers_contract D" and "object_metadata (unsl D)"
    and "get_instance (cli D) req (world s) = (Inr inst, w)" and "NewHelper D inst = Inr helper"
    and "Time_IsZero D (meta_DeletionTimestamp (osl_Meta inst))"
    and "Reconcile D dflt req s = (r, t)" and "last (calls t) = PatchInstance inst'"
    and "CreateOrPatchOLSConfig cfg \<in> set (calls t)" and "CreateOrPatchOLSConfig cfg \<notin> set (calls s)"
  shows "ActiveOCPRAGVersion (Status inst') =
       offered_version (Spec inst) (fst (DetectOCPVersion D (after_get req w s))) \<and>
     RAGImage (Spec inst') = (if RAGImage (Spec inst) = [] then RAGImageURL dflt else RAGImage (Spec inst)) \<and>
     (\<exists>v inst1 s1 s2 x s3.
        resolveOCPVersion D (initialise_status D inst) (after_get req w s) = (GoOk (v, inst1), s1) \<and>
        EnsureOLSOperatorInstalled D (apply_defaults dflt inst1) s1 = (GoOk True, s2) \<and>
        cfg = new_olsConfig D \<and>
        patch_call D helper (operator_marked D (apply_defaults dflt inst1)) s2 = (x, s3) \<and>
        t = after_patch D helper inst' (case x of GoOk _ \<Rightarrow> snd (IsOLSConfigReady D s3) | _ \<Rightarrow> s3) \<and>
        (\<forall>pre post. olsConfig_mutate D helper (operator_marked D (apply_defaults dflt inst1)) pre = GoOk post \<longrightarrow>
           at_path post [''spec'', ''ols'', ''rag''] =
             Some (JArray (documented_sources (RAGImage (Spec inst')) (ActiveOCPRAGVersion (Status inst'))))))"
proof -
  obtain p inst0 s' where b: "reconcile_body D dflt helper inst (after_get req w s) = (GoOk (p, inst0), s')"
    and inst': "inst' = patched D inst inst0" and t: "t = after_patch D helper inst' s'"
    by (rule patched_run_state [OF assms(3,4,6,7)])
  have in_s': "CreateOrPatchOLSConfig cfg \<in> set (calls s')" using assms(8) t by simp
  from assms(1) b show ?thesis
  proof (rule body_install_cases, goal_cases)
    case (1 v inst1 s1)
    let ?i = "apply_defaults dflt inst1"
    have s1: "CreateOrPatchOLSConfig cfg \<notin> set (calls s1)"
      using emits_nothing_new [OF no_config_patched(1) 1(1)] assms(9) by (auto simp: after_get_def)
    with 1(3) assms(5) in_s' have inst: "reconcile_install D helper ?i s1 = (GoOk (p, inst0), s')" by auto
    obtain s2 x s3 where call: "EnsureOLSOperatorInstalled D ?i s1 = (GoOk True, s2)" "cfg = new_olsConfig D"
      "patch_call D helper (operator_marked D ?i) s2 = (x, s3)"
      "s' = (case x of GoOk _ \<Rightarrow> snd (IsOLSConfigReady D s3) | _ \<Rightarrow> s3)"
      by (rule install_call [OF inst in_s' s1])
    obtain cs' where i0: "inst0 = set_Conditions cs' ?i" using install_outcome [OF inst] by blast
    have active: "ActiveOCPRAGVersion (Status ?i) = v" "Spec inst1 = Spec inst"
      using 1(2) by (simp_all add: ocp_outcome_frame)
    with resolved_version [OF 1(1)] have v: "v = offered_version (Spec inst) (fst (DetectOCPVersion D (after_get req w s)))"
      by simp
    have img: "RAGImage (Spec inst') = (if RAGImage (Spec inst) = [] then RAGImageURL dflt else RAGImage (Spec inst))"
      by (simp add: inst' i0 apply_defaults_def Let_def active(2))
    have rag: "at_path post [''spec'', ''ols'', ''rag''] =
        Some (JArray (documented_sources (RAGImage (Spec inst')) (ActiveOCPRAGVersion (Status inst'))))"
      if "olsConfig_mutate D helper (operator_marked D ?i) pre = GoOk post" for pre post
      using mutate_documentation [OF assms(2) that] by (simp add: operator_marked_def inst' i0)
    have "ActiveOCPRAGVersion (Status inst') = v" using active(1) by (simp add: inst' i0)
    with v img 1(1) call rag t show ?case by blast
  qed
qed

theorem documentation_as_reported_witness:
  "\<exists>t inst' i s2 x s3. snd (Reconcile (ref_deps sample_env) sample_defaults sample_request
       \<lparr>world = running_cluster, calls = []\<rparr>) = t \<and>
     last (calls t) = PatchInstance inst' \<and> ActiveOCPRAGVersion (Status inst') = [] \<and>
     patch_call (ref_deps sample_env) managed_instance i s2 = (x, s3) \<and>
     t = after_patch (ref_deps sample_env) managed_instance inst'
       (case x of GoOk _ \<Rightarrow> snd (IsOLSConfigReady (ref_deps sample_env) s3) | _ \<Rightarrow> s3) \<and>
     (\<forall>pre post. olsConfig_mutate (ref_deps sample_env) managed_instance i pre = GoOk post \<longrightarrow>
        at_path post [''spec'', ''ols'', ''rag''] = Some (JArray (documented_sources (RAGImage (Spec inst')) [])))"
proof -
  let ?D = "ref_deps sample_env"
  let ?s = "\<lparr>world = running_cluster, calls = []\<rparr>"
  obtain s2 s3 s4 x where steps:
    "EnsureOLSOperatorInstalled ?D (apply_defaults sample_defaults sample_resolved)
       (after_get sample_request running_cluster ?s) = (GoOk True, s2)"
    "perform (CreateOrPatchOLSConfig (new_olsConfig ?D)) (create_or_patch_olsconfig ref_client (new_olsConfig ?D)
       (olsConfig_mutate ?D managed_instance (operator_marked ?D (apply_defaults sample_defaults sample_resolved))))
       s2 = (GoOk x, s3)"
    "IsOLSConfigReady ?D s3 = (GoOk True, s4)"
    by (rule sample_steps)
  obtain inst' t where run: "Reconcile ?D sample_defaults sample_request ?s = (GoOk empty_Result, t)"
    and l: "calls t = calls s4 @ [PatchInstance inst']"
    using Reconcile_ready_run [of ?D sample_request ?s managed_instance running_cluster managed_instance
        "[]" sample_resolved _ sample_defaults s2 x s3 s4] steps
    by (auto simp: sample_get sample_resolves)
  have "CreateOrPatchOLSConfig (new_olsConfig ?D) \<in> set (calls s3)"
    using steps(2) by (auto simp: perform_eq_GoOk)
  with steps(3) olsconfig_ready.calls_kept [of _ s3 ?D] l
  have c: "CreateOrPatchOLSConfig (new_olsConfig ?D) \<in> set (calls t)" by force
  have off: "\<not> EnableOCPRAG (Spec managed_instance)" by (simp add: sample_spec_def)
  have g: "get_instance (cli ?D) sample_request (world ?s) = (Inr managed_instance, running_cluster)"
    "NewHelper ?D managed_instance = Inr managed_instance"
    "Time_IsZero ?D (meta_DeletionTimestamp (osl_Meta managed_instance))"
    by (simp_all add: sample_get)
  have last: "last (calls t) = PatchInstance inst'" using l by simp
  have n: "CreateOrPatchOLSConfig (new_olsConfig ?D) \<notin> set (calls ?s)" by simp
  have om: "object_metadata (unsl ?D)" by simp
  note d = documentation_as_reported [OF ref_typed_finalizers.finalizers_contract_axioms om g run last c n]
  have "ActiveOCPRAGVersion (Status inst') = []"
    using conjunct1 [OF d] off by (simp add: offered_version_def)
  moreover have "snd (Reconcile ?D sample_defaults sample_request ?s) = t" using run by simp
  ultimately show ?thesis using conjunct2 [OF conjunct2 [OF d]] last by (metis (no_types))
qed

end
