(* ===== verification/Spec2Isabelle.thy ===== *)
theory Spec2Isabelle
  imports Manager Stability Progress Access_Control Deep_Copy_Properties Neighbours No_Panic Documentation
begin

text \<open>
  A verification development for the OpenStack Lightspeed operator, a Kubernetes operator
  written in Go.

  \<^bold>\<open>The program.\<close> A user creates an \<^verbatim>\<open>OpenStackLightspeed\<close> object (package \<^verbatim>\<open>api/v1beta1\<close>). For each
  change of it, of an object it owns, of an install plan or of the cluster version, the
  controller (\<^verbatim>\<open>internal/controller/openstacklightspeed_controller.go\<close>) runs \<^verbatim>\<open>Reconcile\<close>, which

  \<^item> resolves the OpenShift version whose documentation is used (\<^verbatim>\<open>ocp_version.go\<close>),
  \<^item> installs the OpenShift Lightspeed operator through the Operator Lifecycle Manager
    (\<^verbatim>\<open>ols_install.go\<close>): it creates a subscription that needs manual approval, approves the
    install plan, and makes the instance the owner of the cluster service version,
  \<^item> creates or patches the one \<^verbatim>\<open>OLSConfig\<close> of the cluster (\<^verbatim>\<open>funcs.go\<close>) and waits until its
    status is Ready,
  \<^item> on deletion removes the \<^verbatim>\<open>OLSConfig\<close> and uninstalls the operator before it gives up its
    finalizer,
  \<^item> and always ends by patching the status of the instance.

  The process is started by \<^verbatim>\<open>cmd/main.go\<close>.

  \<^bold>\<open>How it is modelled.\<close> A Go function that may fail and talk to the cluster is a state
  transformer with the outcomes \<open>GoOk\<close>, \<open>GoErr\<close> and \<open>GoPanic\<close> (theory \<open>Prelude\<close>). Its state is the
  world outside the process, of arbitrary type, and the list of client calls made so far; the
  program never reads that list, the properties do. Everything that is not in the repository
  (client, \<^verbatim>\<open>controllerutil\<close>, \<^verbatim>\<open>unstructured\<close>, \<^verbatim>\<open>condition\<close>, \<^verbatim>\<open>helper\<close>) is a record of functions that
  every operation takes as its argument \<open>D\<close> (theory \<open>Kube\<close>), so that a theorem holds for every
  behaviour of the cluster, other controllers included: the answer to each call is arbitrary.
  Where the program relies on documented behaviour of a library, the theorem has the contract
  as a hypothesis: \<open>nested_fields\<close>, \<open>object_metadata\<close> and \<open>stable_fields\<close> (fields, labels and
  finalizers of unstructured objects), \<open>conditions_contract\<close>, \<open>finalizers_contract\<close>,
  \<open>client_contract\<close>, \<open>scoped_plans\<close>, \<open>panic_free_fields\<close>, \<open>instance_store\<close> (instances in the
  cluster over many runs), and \<open>copy_library\<close> for the deep copies. The mutate functions that Go
  passes as closures are functions of their own. No definition needs fuel: every loop of the
  program runs over a list. Integers keep their 64 bits.

  \<^bold>\<open>The theories.\<close>

  \<^descr> \<open>Prelude\<close>: outcomes, computations, the calls an operation makes (\<open>emits\<close>, locale
    \<open>footprint\<close>), search loops (locale \<open>first_match\<close>).
  \<^descr> \<open>Go_Strings\<close>: what the program uses of \<^verbatim>\<open>strings\<close>, \<^verbatim>\<open>fmt\<close>, \<^verbatim>\<open>regexp\<close>, \<^verbatim>\<open>strconv\<close> and of
    floating-point conversion.
  \<^descr> \<open>Kube_Types\<close>, \<open>API_Types\<close>: the data of the libraries and of \<^verbatim>\<open>api/v1beta1\<close> (types, condition
    constants, \<^verbatim>\<open>IsReady\<close>, \<^verbatim>\<open>SetupDefaults\<close>).
  \<^descr> \<open>Kube\<close>: the parameters, the sequences of writes of an operation (\<open>writing\<close>), the contracts.
  \<^descr> \<open>Kube_Reference\<close>: an executable cluster in memory that satisfies every contract; the
    witnesses run on it.
  \<^descr> \<open>Client_Helpers\<close>: \<^verbatim>\<open>GetRawClient\<close> and \<^verbatim>\<open>IsOwnedBy\<close> of \<^verbatim>\<open>funcs.go\<close>.
  \<^descr> \<open>OCP_Version\<close>: \<^verbatim>\<open>ocp_version.go\<close>. Parsing gives exactly the leading major and minor number;
    resolution stays within the supported versions unless a version is forced; index names and
    paths of different versions differ (locale \<open>version_naming\<close>).
  \<^descr> \<open>OLS_Config\<close>: the rest of \<^verbatim>\<open>funcs.go\<close>. A patch establishes the desired fields
    (\<open>desired_fields\<close>, a table of names and values written out without the functions of the
    program), keeps all others, claims ownership by label, and does not fail on well-shaped
    objects; removal and readiness report what was last read.
  \<^descr> \<open>OLS_Install\<close>: \<^verbatim>\<open>ols_install.go\<close>. Installation and uninstallation follow write protocols,
    given as inductive predicates on the sequence of writes; installation completes only with
    an owned and succeeded cluster service version (\<open>install_saw\<close> is the chain of calls, answers
    and states of a complete installation); installations of somebody else are left alone; of
    several install plans the first whose name fits is approved.
  \<^descr> \<open>Reconciler\<close>: \<^verbatim>\<open>openstacklightspeed_controller.go\<close>. \<^verbatim>\<open>Reconcile\<close> is split where the source has
    its sections: \<open>initialise_status\<close>, \<open>resolveOCPVersion\<close>, \<open>reconcileDelete\<close>, \<open>apply_defaults\<close>,
    \<open>reconcile_install\<close>, \<open>reconcile_olsConfig\<close>, composed in \<open>reconcile_body\<close>, and \<open>deferred_update\<close>
    for the deferred function. Readiness is reported only at the end of a chain of states in which
    the same run found the operator installed, patched an \<^verbatim>\<open>OLSConfig\<close> that was its own or nobody's, and
    found it ready; it is reached when everything is in place; the finalizer comes first and goes last; nothing is deleted
    unless the instance is.
  \<^descr> \<open>Documentation\<close>: version detection, resolution, status and patch put together: the \<^verbatim>\<open>OLSConfig\<close>
    offers the documentation of the version that the status reports, and which databases a
    cluster of a given version gets.
  \<^descr> \<open>Ownership\<close>: an \<^verbatim>\<open>OLSConfig\<close> has one owner in every history of reconciliations, pings and
    releases (inductive predicate \<open>config_history\<close>), and the ownership check refines an abstract
    ownership cell (\<open>claim\<close>).
  \<^descr> \<open>Stability\<close>: the mutate functions change nothing when they are applied to their own result.
  \<^descr> \<open>Progress\<close>: a run that asks for no retry has reached a final state, has made the change that
    starts the next run, or has failed to install; a deletion completes.
  \<^descr> \<open>Lifecycle\<close>: many runs. A history (inductive predicate \<open>history\<close>) is any sequence of runs of
    \<^verbatim>\<open>Reconcile\<close> for any instances, with steps of everybody else in between. Operations keep what
    the calls they make keep (\<open>preserves\<close>, locales \<open>kept_by_olm\<close> and \<open>kept_world\<close>); with what a
    cluster promises about the instances it stores (locale \<open>instance_store\<close>), an instance that
    anything was set up for keeps its finalizer until a run has cleaned up.
  \<^descr> \<open>Cluster_Steps\<close>: the users, the Operator Lifecycle Manager, the garbage collector and the
    OpenShift Lightspeed operator as steps of the cluster in memory (inductive relation
    \<open>cluster_step\<close>); that cluster with these steps keeps the promises of \<open>instance_store\<close>.
  \<^descr> \<open>Config_Life\<close>: the \<^verbatim>\<open>OLSConfig\<close> in the cluster in memory over many runs: the instance whose run
    created it stays its owner for as long as it is there (\<open>created_by\<close>, \<open>minds_owner\<close>), and runs for
    others leave it alone unless they are deletions.
  \<^descr> \<open>End_To_End\<close>: the whole life of an instance run by run, for any instance, recommended version
    and defaults: from the empty cluster to readiness, and after its deletion back.
  \<^descr> \<open>Slow_Removal\<close>: the deletion of an instance while somebody else has a finalizer on the \<^verbatim>\<open>OLSConfig\<close>.
  \<^descr> \<open>Neighbours\<close>: a second instance in the cluster is refused and leaves the installation of the
    first alone, for as long as it is not deleted; its deletion marks the first one's \<^verbatim>\<open>OLSConfig\<close> as
    being deleted and does not end.
  \<^descr> \<open>No_Panic\<close>: runs and mutate functions do not panic (\<open>never_panics\<close>, locale \<open>panic_free_fields\<close>).
  \<^descr> \<open>Access_Control\<close>: the \<^verbatim>\<open>kubebuilder:rbac\<close> markers above \<^verbatim>\<open>Reconcile\<close> as a list of rules, the
    requests behind each call, which calls of a run the rules cover, and for which values of
    \<^verbatim>\<open>WATCH_NAMESPACE\<close> they cover the watches.
  \<^descr> \<open>Manager\<close>: \<^verbatim>\<open>cmd/main.go\<close>. The order of the start-up, the watched namespaces, the options of
    the servers.
  \<^descr> \<open>Memory\<close>: for the deep copies, a memory of typed blocks: structs as they lie in memory, pointers
    to variables, fields and elements (locale \<open>accessible\<close>), slices, the typing of a heap, and the
    value of type \<open>OpenStackLightspeed\<close> that a struct stands for.
  \<^descr> \<open>Deep_Copy\<close>: \<^verbatim>\<open>zz_generated.deepcopy.go\<close>, every function, on that memory. The contract of a deep
    copy (locale \<open>deep_copier\<close>) is assumed of the copies of \<^verbatim>\<open>ObjectMeta\<close>, \<^verbatim>\<open>ListMeta\<close> and \<^verbatim>\<open>Condition\<close>
    (locale \<open>copy_library\<close>) and derived, by \<open>sublocale\<close>, for slices, status, instance and list.
  \<^descr> \<open>Deep_Copy_Properties\<close>: copies are equal and independent, keep the memory well typed and do
    not panic; an instance of \<open>copy_library\<close> with metadata that has references.

  Each property is a theorem with its claim number in the text before it, and has a witness
  when it has hypotheses. Several theorems state behaviour that differs from a comment or
  is probably not meant: \<open>deletion_dooms_neighbour\<close>, \<open>slow_removal\<close>,
  \<open>first_matching_plan_approved\<close>, \<open>empty_owner_label_stays\<close>, \<open>resolve_override_unchecked\<close>,
  \<open>install_error_not_retried\<close>, \<open>subscription_name_collision\<close>, \<open>permissions_of_a_run\<close>,
  \<open>watches_permitted\<close>.

  The controller theories use values: an instance that a run works on is its own copy, which is
  what the deep copies of the client's cache provide.

  \<^bold>\<open>What is not modelled.\<close> Log output; the parsing of the command line; contexts and cancellation;
  concurrent reconciliations of one instance, which controller-runtime excludes (different
  instances interleave call by call through the arbitrary world and in \<open>config_history\<close>, and run
  by run in \<open>history\<close>); the manifests and tests. The theorems on single runs hold for reads of any
  age; \<open>instance_store\<close>, and with it the theorems on histories, takes the instance that a run
  reads to be the current one. A panic inside a mutate function is not propagated through the client;
  by \<open>run_never_panics\<close> there is none.
\<close>

end
